(* ===== verification/Gretun_Prelude.thy ===== *)
theory Gretun_Prelude
  imports Main "HOL-Library.Word"
begin

text \<open>
  Shared vocabulary of the development: the machine types of Go as words, byte strings,
  time and durations, and the generic lemmas on lists, options and words that the
  component theories use.
\<close>

section \<open>Machine types\<close>

type_synonym byte = "8 word"
type_synonym u16 = "16 word"
type_synonym u32 = "32 word"
type_synonym int64 = "64 word"

named_theorems go_simps \<open>unfolding rules for the Go standard library functions\<close>

section \<open>Strings as bytes\<close>

text \<open>A Go string is a sequence of bytes; \<open>string\<close> is a list of 8-bit characters.
  The conversion \<open>[]byte(s)\<close> keeps every byte.\<close>

definition byte_of_char :: "char \<Rightarrow> byte" where
  "byte_of_char c = of_nat (of_char c)"

definition str_bytes :: "string \<Rightarrow> byte list" where
  "str_bytes s = map byte_of_char s"

definition has_prefix :: "string \<Rightarrow> string \<Rightarrow> bool" where
  "has_prefix s p = (take (length p) s = p)"

definition trim_prefix :: "string \<Rightarrow> string \<Rightarrow> string" where
  "trim_prefix s p = (if has_prefix s p then drop (length p) s else s)"

text \<open>The texts that every text encoding keeps.\<close>

definition ascii :: "string \<Rightarrow> bool" where
  "ascii s = list_all (\<lambda>c. of_char c < (128 :: nat)) s"

section \<open>Time and durations\<close>

text \<open>\<open>time.Time\<close> is a number of nanoseconds since Go's zero time (January 1, year 1),
  \<open>time.Duration\<close> an int64 number of nanoseconds. \<open>Time.Sub\<close>, and with it
  \<open>time.Since\<close>, saturates at the ends of the int64 range.\<close>

type_synonym gotime = int
type_synonym duration = int

definition zero_time :: gotime where
  "zero_time = 0"

definition millisecond :: duration where
  "millisecond = 1000000"

definition second :: duration where
  "second = 1000 * millisecond"

definition max_duration :: duration where
  "max_duration = 2 ^ 63 - 1"

definition min_duration :: duration where
  "min_duration = - (2 ^ 63)"

definition time_sub :: "gotime \<Rightarrow> gotime \<Rightarrow> duration" where
  "time_sub t u = max min_duration (min max_duration (t - u))"

lemmas time_defs = zero_time_def millisecond_def second_def max_duration_def min_duration_def
  time_sub_def

section \<open>Generic lemmas\<close>

lemma ascii_simps [simp]: "ascii []" "ascii (s @ t) \<longleftrightarrow> ascii s \<and> ascii t"
  by (simp_all add: ascii_def)

lemma unat_byte_of_char [simp]: "unat (byte_of_char c) = of_char c"
  by (simp add: byte_of_char_def unat_of_nat)

lemma byte_of_char_inject [simp]: "byte_of_char a = byte_of_char b \<longleftrightarrow> a = b"
proof
  assume "byte_of_char a = byte_of_char b"
  then have "(of_char a :: nat) = of_char b"
    by (metis unat_byte_of_char)
  then show "a = b" by simp
qed simp

lemma inj_byte_of_char: "inj byte_of_char"
  by (rule injI) simp

lemma str_bytes_simps [simp]:
  "str_bytes [] = []"
  "str_bytes (c # s) = byte_of_char c # str_bytes s"
  "str_bytes (s @ t) = str_bytes s @ str_bytes t"
  "length (str_bytes s) = length s"
  by (simp_all add: str_bytes_def)

lemma str_bytes_inject [simp]: "str_bytes s = str_bytes t \<longleftrightarrow> s = t"
  by (simp add: str_bytes_def inj_map_eq_map [OF inj_byte_of_char])

lemma byte_of_char_in_str_bytes [simp]: "byte_of_char c \<in> set (str_bytes s) \<longleftrightarrow> c \<in> set s"
  by (auto simp: str_bytes_def)

lemma has_prefix_append [simp]: "has_prefix (p @ s) p"
  by (simp add: has_prefix_def)

lemma trim_prefix_append [simp]: "trim_prefix (p @ s) p = s"
  by (simp add: trim_prefix_def)

lemma unat_byte_less_256 [simp]: "unat (b :: byte) < 256"
  using unsigned_less [of b, where 'a = nat] by simp

lemma word_of_nat_unat_byte [simp]: "word_of_nat (unat b) = (b :: byte)"
  by simp

text \<open>Splitting a list at the first occurrence of a separator that the prefix lacks.\<close>

lemma append_sep_eq_iff:
  assumes "x \<notin> set xs" and "x \<notin> set xs'"
  shows "xs @ x # ys = xs' @ x # ys' \<longleftrightarrow> xs = xs' \<and> ys = ys'"
  using assms
proof (induction xs arbitrary: xs')
  case Nil
  then show ?case by (cases xs') auto
next
  case (Cons a xs)
  then show ?case by (cases xs') auto
qed

lemma takeWhile_not_sep [simp]: "x \<notin> set xs \<Longrightarrow> takeWhile (\<lambda>c. c \<noteq> x) (xs @ x # ys) = xs"
  by (induction xs) auto

lemma append_eq_same_length_right:
  "length ys = length ys' \<Longrightarrow> xs @ ys = xs' @ ys' \<longleftrightarrow> xs = xs' \<and> ys = ys'"
  by simp

lemma find_SomeD: "find P xs = Some x \<Longrightarrow> x \<in> set xs \<and> P x"
  by (induction xs) (auto split: if_splits)

lemma find_NoneI: "(\<And>x. x \<in> set xs \<Longrightarrow> \<not> P x) \<Longrightarrow> find P xs = None"
  by (induction xs) auto

end
