(* ===== verification/Go_Encoding.thy ===== *)
theory Go_Encoding
  imports Gretun_Prelude
begin

text \<open>
  The text encodings of the Go standard library that gretun uses: \<open>encoding/hex\<close> (keys of
  the coordinator's peer map, etags, transaction ids), \<open>encoding/base64\<close> (keys and
  signatures in HTTP headers and in the key file) and the decimal conversions of
  \<open>strconv\<close> (request timestamps, address fields, interface numbers), with their round
  trips and injectivity.
\<close>

section \<open>Hexadecimal\<close>

definition hex_digit :: "nat \<Rightarrow> char" where
  "hex_digit n = char_of (if n < 10 then 48 + n else 87 + n)"

fun hex_encode :: "byte list \<Rightarrow> string" where
  "hex_encode [] = []"
| "hex_encode (b # bs) = hex_digit (unat b div 16) # hex_digit (unat b mod 16) # hex_encode bs"

section \<open>Base64 (StdEncoding)\<close>

definition b64_char :: "nat \<Rightarrow> char" where
  "b64_char n =
     (if n < 26 then char_of (65 + n)
      else if n < 52 then char_of (71 + n)
      else if n < 62 then char_of (n - 4)
      else if n = 62 then CHR ''+'' else CHR ''/'')"

definition b64_val :: "char \<Rightarrow> nat option" where
  "b64_val c =
     (let n = of_char c in
      if 65 \<le> n \<and> n \<le> 90 then Some (n - 65)
      else if 97 \<le> n \<and> n \<le> 122 then Some (n - 71)
      else if 48 \<le> n \<and> n \<le> 57 then Some (n + 4)
      else if n = 43 then Some 62 else if n = 47 then Some 63 else None)"

fun b64_encode :: "byte list \<Rightarrow> string" where
  "b64_encode [] = []"
| "b64_encode [a] =
     [b64_char (unat a div 4), b64_char (unat a mod 4 * 16), CHR ''='', CHR ''='']"
| "b64_encode [a, b] =
     [b64_char (unat a div 4), b64_char (unat a mod 4 * 16 + unat b div 16),
      b64_char (unat b mod 16 * 4), CHR ''='']"
| "b64_encode (a # b # c # r) =
     b64_char (unat a div 4) # b64_char (unat a mod 4 * 16 + unat b div 16) #
     b64_char (unat b mod 16 * 4 + unat c div 64) # b64_char (unat c mod 64) # b64_encode r"

text \<open>Decoding works on groups of four characters. Padding ends the input; the decoder is
  not strict, so bits of the last character that do not reach a byte are ignored.
  \<open>DecodeString\<close> skips line breaks wherever they stand.\<close>

fun b64_quads :: "string \<Rightarrow> byte list option" where
  "b64_quads [] = Some []"
| "b64_quads (a # b # c # d # r) =
     (case (b64_val a, b64_val b) of
        (Some va, Some vb) \<Rightarrow>
          (if c = CHR ''='' then
             (if d = CHR ''='' \<and> r = [] then Some [of_nat (va * 4 + vb div 16)] else None)
           else
             (case b64_val c of
                None \<Rightarrow> None
              | Some vc \<Rightarrow>
                  (if d = CHR ''='' then
                     (if r = [] then
                        Some [of_nat (va * 4 + vb div 16), of_nat (vb mod 16 * 16 + vc div 4)]
                      else None)
                   else
                     (case b64_val d of
                        None \<Rightarrow> None
                      | Some vd \<Rightarrow>
                          map_option
                            (\<lambda>bs. of_nat (va * 4 + vb div 16) # of_nat (vb mod 16 * 16 + vc div 4) #
                                  of_nat (vc mod 4 * 64 + vd) # bs)
                            (b64_quads r)))))
      | _ \<Rightarrow> None)"
| "b64_quads _ = None"

definition b64_decode :: "string \<Rightarrow> byte list option" where
  "b64_decode s = b64_quads (filter (\<lambda>c. c \<noteq> CHR 0x0A \<and> c \<noteq> CHR 0x0D) s)"

section \<open>Decimal numbers\<close>

definition is_digit :: "char \<Rightarrow> bool" where
  "is_digit c = (48 \<le> (of_char c :: nat) \<and> (of_char c :: nat) \<le> 57)"

definition digit_val :: "char \<Rightarrow> nat" where
  "digit_val c = of_char c - 48"

fun fmt_nat :: "nat \<Rightarrow> string" where
  "fmt_nat n =
     (if n < 10 then [char_of (48 + n)] else fmt_nat (n div 10) @ [char_of (48 + n mod 10)])"

declare fmt_nat.simps [simp del]

definition fmt_int :: "int \<Rightarrow> string" where
  "fmt_int i = (if i < 0 then CHR ''-'' # fmt_nat (nat (- i)) else fmt_nat (nat i))"

definition digits_val :: "string \<Rightarrow> nat" where
  "digits_val s = foldl (\<lambda>n c. n * 10 + digit_val c) 0 s"

definition parse_digits :: "string \<Rightarrow> nat option" where
  "parse_digits s = (if s \<noteq> [] \<and> (\<forall>c \<in> set s. is_digit c) then Some (digits_val s) else None)"

text \<open>\<open>strconv.ParseInt(s, 10, 64)\<close>: an optional sign, then decimal digits; a value
  outside the int64 range is an error.\<close>

definition parse_int64 :: "string \<Rightarrow> int option" where
  "parse_int64 s =
     (let neg = (case s of c # _ \<Rightarrow> c = CHR ''-'' | [] \<Rightarrow> False);
          body = (case s of c # r \<Rightarrow> if c = CHR ''-'' \<or> c = CHR ''+'' then r else s | [] \<Rightarrow> s)
      in case parse_digits body of
           None \<Rightarrow> None
         | Some n \<Rightarrow>
             (let v = (if neg then - int n else int n)
              in if - (2 ^ 63) \<le> v \<and> v < 2 ^ 63 then Some v else None))"

section \<open>Properties\<close>

lemma hex_digit_inject: "m < 16 \<Longrightarrow> n < 16 \<Longrightarrow> hex_digit m = hex_digit n \<longleftrightarrow> m = n"
  by (auto simp: hex_digit_def char_of_eq_iff take_bit_nat_def split: if_splits)

lemma unat_byte_split: "unat (a :: byte) div 16 < 16" "unat (a :: byte) mod 16 < 16"
  by (simp_all add: less_mult_imp_div_less)

lemma hex_encode_inject [simp]: "hex_encode xs = hex_encode ys \<longleftrightarrow> xs = ys"
proof (induction xs arbitrary: ys)
  case Nil
  then show ?case by (cases ys) auto
next
  case (Cons x xs)
  show ?case
  proof (cases ys)
    case Nil
    then show ?thesis by simp
  next
    case (Cons y zs)
    have "unat x = unat y \<longleftrightarrow> unat x div 16 = unat y div 16 \<and> unat x mod 16 = unat y mod 16"
      by (metis div_mult_mod_eq)
    with Cons Cons.IH show ?thesis
      by (simp add: hex_digit_inject unat_byte_split word_unat_eq_iff)
  qed
qed

lemma length_hex_encode [simp]: "length (hex_encode bs) = 2 * length bs"
  by (induction bs) simp_all

lemma b64_val_char [simp]: "n < 64 \<Longrightarrow> b64_val (b64_char n) = Some n"
  by (auto simp: b64_val_def b64_char_def Let_def)

lemma b64_char_plain:
  "n < 64 \<Longrightarrow> b64_char n \<noteq> CHR ''='' \<and> b64_char n \<noteq> CHR 0x0A \<and> b64_char n \<noteq> CHR 0x0D"
  by (auto simp: b64_char_def char_of_eq_iff take_bit_nat_def)

lemma unat_byte_div_small:
  fixes a :: byte
  shows "unat a div 4 < 64" "unat a div 64 < 4" "unat a div 16 < 16"
  by (simp_all add: less_mult_imp_div_less)

lemma mod_times_less: "(a :: nat) mod 4 * 16 + c < 64" if "c < 16"
  using that mod_less_divisor [of 4 a] by linarith

lemma mod_times_less': "(a :: nat) mod 16 * 4 + c < 64" if "c < 4"
  using that mod_less_divisor [of 16 a] by linarith

lemma b64_six_bits:
  fixes a b :: byte
  shows "unat a div 4 < 64" "unat a mod 64 < 64" "unat a mod 4 * 16 < 64"
    "unat a mod 4 * 16 + unat b div 16 < 64" "unat a mod 16 * 4 < 64"
    "unat a mod 16 * 4 + unat b div 64 < 64"
  using mod_times_less [of 0 "unat a"] mod_times_less' [of 0 "unat a"]
  by (simp_all add: unat_byte_div_small mod_times_less mod_times_less')

lemma word_div_mod_byte:
  fixes b :: byte
  shows "word_of_nat (unat b div k) * word_of_nat k + word_of_nat (unat b mod k) = b"
proof -
  have "word_of_nat (unat b div k * k + unat b mod k) = b" by simp
  then show ?thesis by (simp only: of_nat_add of_nat_mult)
qed

lemma b64_byte_back:
  fixes b :: byte
  shows "unat b div 16 div 16 = 0" "unat b div 16 mod 16 = unat b div 16"
    "unat b div 64 div 4 = 0" "unat b div 64 mod 4 = unat b div 64"
    "word_of_nat (unat b div 4) * 4 + word_of_nat (unat b mod 4) = b"
    "word_of_nat (unat b div 16) * 16 + word_of_nat (unat b mod 16) = b"
    "word_of_nat (unat b div 64) * 64 + word_of_nat (unat b mod 64) = b"
  using word_div_mod_byte [of b 4] word_div_mod_byte [of b 16] word_div_mod_byte [of b 64]
  by (simp_all add: unat_byte_div_small)

lemma b64_quads_encode: "b64_quads (b64_encode bs) = Some bs"
  by (induction bs rule: b64_encode.induct)
    (simp_all add: b64_six_bits b64_char_plain b64_byte_back)

lemma b64_encode_no_breaks: "\<forall>c \<in> set (b64_encode bs). c \<noteq> CHR 0x0A \<and> c \<noteq> CHR 0x0D"
  by (induction bs rule: b64_encode.induct) (simp_all add: b64_six_bits b64_char_plain)

lemma b64_decode_encode [simp]: "b64_decode (b64_encode bs) = Some bs"
  using b64_encode_no_breaks [of bs] by (simp add: b64_decode_def b64_quads_encode)

lemma b64_encode_inject [simp]: "b64_encode xs = b64_encode ys \<longleftrightarrow> xs = ys"
  by (metis b64_decode_encode option.inject)

lemma b64_encode_eq_Nil [simp]: "b64_encode bs = [] \<longleftrightarrow> bs = []"
  by (cases bs rule: b64_encode.cases) simp_all

lemma is_digit_char [simp]: "n < 10 \<Longrightarrow> is_digit (char_of (48 + n :: nat))"
  by (simp add: is_digit_def)

lemma digit_val_char [simp]: "n < 10 \<Longrightarrow> digit_val (char_of (48 + n :: nat)) = n"
  by (simp add: digit_val_def)

lemma fmt_nat_not_Nil [simp]: "fmt_nat n \<noteq> []"
  by (subst fmt_nat.simps) simp

lemma fmt_nat_digits: "\<forall>c \<in> set (fmt_nat n). is_digit c"
proof (induction n rule: fmt_nat.induct)
  case (1 n)
  then show ?case by (subst fmt_nat.simps) auto
qed

lemma digits_val_snoc [simp]: "digits_val (s @ [c]) = digits_val s * 10 + digit_val c"
  by (simp add: digits_val_def)

lemma digits_val_fmt_nat [simp]: "digits_val (fmt_nat n) = n"
proof (induction n rule: fmt_nat.induct)
  case (1 n)
  then show ?case
    by (cases "n < 10") (simp_all add: fmt_nat.simps [of n] digits_val_def)
qed

lemma parse_digits_fmt_nat [simp]: "parse_digits (fmt_nat n) = Some n"
  by (simp add: parse_digits_def fmt_nat_digits)

lemma fmt_nat_inject [simp]: "fmt_nat m = fmt_nat n \<longleftrightarrow> m = n"
  by (metis digits_val_fmt_nat)

lemma not_digit_not_in_fmt_nat: "\<not> is_digit c \<Longrightarrow> c \<notin> set (fmt_nat n)"
  using fmt_nat_digits by blast

lemma fmt_nat_head: "fmt_nat n = c # r \<Longrightarrow> c \<noteq> CHR ''-'' \<and> c \<noteq> CHR ''+''"
  using fmt_nat_digits [of n] by (auto simp: is_digit_def)

lemma parse_int64_fmt_int [simp]:
  assumes "- (2 ^ 63) \<le> i" and "i < 2 ^ 63"
  shows "parse_int64 (fmt_int i) = Some i"
proof (cases "i < 0")
  case True
  with assms show ?thesis by (simp add: parse_int64_def fmt_int_def)
next
  case False
  obtain c r where cr: "fmt_nat (nat i) = c # r" by (cases "fmt_nat (nat i)") auto
  from fmt_nat_head [OF cr] have "c \<noteq> CHR ''-''" "c \<noteq> CHR ''+''" by auto
  moreover have "parse_digits (c # r) = Some (nat i)" by (metis cr parse_digits_fmt_nat)
  ultimately show ?thesis using False assms cr by (simp add: parse_int64_def fmt_int_def)
qed

lemma parse_int64_range: "parse_int64 s = Some i \<Longrightarrow> - (2 ^ 63) \<le> i \<and> i < 2 ^ 63"
  by (auto simp: parse_int64_def Let_def split: option.splits if_splits)

lemma fmt_int_no_newline: "CHR 0x0A \<notin> set (fmt_int i)"
  by (simp add: fmt_int_def not_digit_not_in_fmt_nat is_digit_def)

end
