(* ===== verification/Go_Net.thy ===== *)
theory Go_Net
  imports Go_Encoding "HOL-Library.Product_Lexorder" "HOL-Library.List_Lexorder"
    "HOL-Library.Char_ord"
begin

text \<open>
  The address types of the Go packages \<open>net\<close> and \<open>net/netip\<close> as gretun uses them:
  \<open>net.IP\<close> (a byte slice that may be nil), \<open>netip.Addr\<close>, \<open>netip.AddrPort\<close> and
  \<open>netip.Prefix\<close>, with their predicates, text forms and parsers. The parsers follow the
  scanners of the standard library branch by branch; positions and texts of parse errors
  are not kept, a failed parse is \<open>None\<close>.
\<close>

unbundle bit_operations_syntax

section \<open>net.IP\<close>

type_synonym goip = "byte list option"

definition ip_bytes :: "goip \<Rightarrow> byte list" where
  "ip_bytes ip = (case ip of None \<Rightarrow> [] | Some bs \<Rightarrow> bs)"

definition v4_in_v6_prefix :: "byte list" where
  "v4_in_v6_prefix = replicate 10 0 @ [255, 255]"

definition ip_To4 :: "goip \<Rightarrow> byte list option" where
  "ip_To4 ip =
     (let bs = ip_bytes ip in
      if length bs = 4 then Some bs
      else if length bs = 16 \<and> take 12 bs = v4_in_v6_prefix then Some (drop 12 bs)
      else None)"

definition ip_Equal :: "goip \<Rightarrow> goip \<Rightarrow> bool" where
  "ip_Equal x y =
     (let a = ip_bytes x; b = ip_bytes y in
      if length a = length b then a = b
      else if length a = 4 \<and> length b = 16 then take 12 b = v4_in_v6_prefix \<and> a = drop 12 b
      else if length a = 16 \<and> length b = 4 then take 12 a = v4_in_v6_prefix \<and> drop 12 a = b
      else False)"

definition ip_IsUnspecified :: "goip \<Rightarrow> bool" where
  "ip_IsUnspecified ip =
     (ip_Equal ip (Some (v4_in_v6_prefix @ [0, 0, 0, 0])) \<or> ip_Equal ip (Some (replicate 16 0)))"

definition ip_IsLoopback :: "goip \<Rightarrow> bool" where
  "ip_IsLoopback ip =
     (case ip_To4 ip of
        Some v4 \<Rightarrow> v4 ! 0 = 127
      | None \<Rightarrow> ip_Equal ip (Some (replicate 15 0 @ [1])))"

definition ip_IsMulticast :: "goip \<Rightarrow> bool" where
  "ip_IsMulticast ip =
     (case ip_To4 ip of
        Some v4 \<Rightarrow> v4 ! 0 AND 0xf0 = 0xe0
      | None \<Rightarrow> length (ip_bytes ip) = 16 \<and> ip_bytes ip ! 0 = 0xff)"

definition ip_IsLinkLocalUnicast :: "goip \<Rightarrow> bool" where
  "ip_IsLinkLocalUnicast ip =
     (case ip_To4 ip of
        Some v4 \<Rightarrow> v4 ! 0 = 169 \<and> v4 ! 1 = 254
      | None \<Rightarrow> length (ip_bytes ip) = 16 \<and> ip_bytes ip ! 0 = 0xfe \<and> ip_bytes ip ! 1 AND 0xc0 = 0x80)"

definition ip_IsGlobalUnicast :: "goip \<Rightarrow> bool" where
  "ip_IsGlobalUnicast ip =
     ((length (ip_bytes ip) = 4 \<or> length (ip_bytes ip) = 16) \<and>
      \<not> ip_Equal ip (Some (v4_in_v6_prefix @ [255, 255, 255, 255])) \<and>
      \<not> ip_IsUnspecified ip \<and> \<not> ip_IsLoopback ip \<and> \<not> ip_IsMulticast ip \<and>
      \<not> ip_IsLinkLocalUnicast ip)"

section \<open>netip.Addr\<close>

text \<open>\<open>AddrZero\<close> is the invalid zero \<open>Addr{}\<close>; an IPv6 address carries its zone.\<close>

datatype addr = AddrZero | Addr4 "32 word" | Addr6 "128 word" string

definition be_word :: "byte list \<Rightarrow> 'a::len word" where
  "be_word bs = foldl (\<lambda>w b. w * 256 + ucast b) 0 bs"

definition be_bytes :: "nat \<Rightarrow> 'a::len word \<Rightarrow> byte list" where
  "be_bytes k w = map (\<lambda>i. ucast (drop_bit (8 * i) w)) (rev [0..<k])"

definition addr_from_slice :: "byte list \<Rightarrow> addr option" where
  "addr_from_slice bs =
     (if length bs = 4 then Some (Addr4 (be_word bs))
      else if length bs = 16 then Some (Addr6 (be_word bs) [])
      else None)"

fun addr_AsSlice :: "addr \<Rightarrow> goip" where
  "addr_AsSlice AddrZero = None"
| "addr_AsSlice (Addr4 w) = Some (be_bytes 4 w)"
| "addr_AsSlice (Addr6 w z) = Some (be_bytes 16 w)"

fun addr_As16 :: "addr \<Rightarrow> byte list" where
  "addr_As16 AddrZero = replicate 16 0"
| "addr_As16 (Addr4 w) = v4_in_v6_prefix @ be_bytes 4 w"
| "addr_As16 (Addr6 w z) = be_bytes 16 w"

fun addr_IsValid :: "addr \<Rightarrow> bool" where
  "addr_IsValid AddrZero = False"
| "addr_IsValid _ = True"

fun addr_Is4 :: "addr \<Rightarrow> bool" where
  "addr_Is4 (Addr4 _) = True"
| "addr_Is4 _ = False"

fun addr_Is6 :: "addr \<Rightarrow> bool" where
  "addr_Is6 (Addr6 _ _) = True"
| "addr_Is6 _ = False"

fun addr_BitLen :: "addr \<Rightarrow> nat" where
  "addr_BitLen AddrZero = 0"
| "addr_BitLen (Addr4 _) = 32"
| "addr_BitLen (Addr6 _ _) = 128"

fun addr_Zone :: "addr \<Rightarrow> string" where
  "addr_Zone (Addr6 _ z) = z"
| "addr_Zone _ = []"

text \<open>\<open>Addr.Next\<close>: the following address, or the zero value after the last one.\<close>

fun addr_Next :: "addr \<Rightarrow> addr" where
  "addr_Next AddrZero = AddrZero"
| "addr_Next (Addr4 w) = (if w + 1 = 0 then AddrZero else Addr4 (w + 1))"
| "addr_Next (Addr6 w z) = (if w + 1 = 0 then AddrZero else Addr6 (w + 1) z)"

text \<open>\<open>Addr.Compare\<close> orders by bit length, then by value, then by zone.\<close>

fun addr_key :: "addr \<Rightarrow> nat \<times> nat \<times> string" where
  "addr_key AddrZero = (0, 0, [])"
| "addr_key (Addr4 w) = (32, unat w, [])"
| "addr_key (Addr6 w z) = (128, unat w, z)"

lemma addr_key_inject: "addr_key a = addr_key b \<Longrightarrow> a = b"
  by (cases a; cases b) (auto simp: word_unat_eq_iff)

instantiation addr :: linorder
begin

definition less_eq_addr :: "addr \<Rightarrow> addr \<Rightarrow> bool" where
  "less_eq_addr a b = (addr_key a \<le> addr_key b)"

definition less_addr :: "addr \<Rightarrow> addr \<Rightarrow> bool" where
  "less_addr a b = (addr_key a < addr_key b)"

instance
  by standard (auto simp: less_eq_addr_def less_addr_def intro: addr_key_inject)

end

subsection \<open>Text form\<close>

fun dotted :: "byte list \<Rightarrow> string" where
  "dotted [] = []"
| "dotted [b] = fmt_nat (unat b)"
| "dotted (b # bs) = fmt_nat (unat b) @ CHR ''.'' # dotted bs"

definition ipv4_string :: "32 word \<Rightarrow> string" where
  "ipv4_string w = dotted (be_bytes 4 w)"

fun fmt_hex :: "nat \<Rightarrow> string" where
  "fmt_hex n = (if n < 16 then [hex_digit n] else fmt_hex (n div 16) @ [hex_digit (n mod 16)])"

declare fmt_hex.simps [simp del]

text \<open>The eight 16-bit groups of an IPv6 address and the longest run of at least two zero
  groups, the first one when several have the same length.\<close>

definition v6_groups :: "128 word \<Rightarrow> nat list" where
  "v6_groups w = map (\<lambda>i. unat (ucast (drop_bit (16 * i) w) :: 16 word)) (rev [0..<8])"

definition zero_run :: "nat list \<Rightarrow> nat \<Rightarrow> nat" where
  "zero_run gs i = length (takeWhile (\<lambda>g. g = 0) (drop i gs))"

definition best_run :: "nat list \<Rightarrow> (nat \<times> nat) option" where
  "best_run gs =
     foldl (\<lambda>best i. let l = zero_run gs i;
                          cur = (case best of None \<Rightarrow> 0 | Some (s, e) \<Rightarrow> e - s)
                      in if 2 \<le> l \<and> cur < l then Some (i, i + l) else best)
       None [0..<8]"

definition join_groups :: "nat list \<Rightarrow> string" where
  "join_groups gs = (case gs of [] \<Rightarrow> [] | g # r \<Rightarrow> fmt_hex g @ concat (map (\<lambda>h. CHR '':'' # fmt_hex h) r))"

definition ipv6_string :: "128 word \<Rightarrow> string" where
  "ipv6_string w =
     (let gs = v6_groups w in
      case best_run gs of
        None \<Rightarrow> join_groups gs
      | Some (s, e) \<Rightarrow> join_groups (take s gs) @ ''::'' @ join_groups (drop e gs))"

definition zone_suffix :: "string \<Rightarrow> string" where
  "zone_suffix z = (if z = [] then [] else CHR ''%'' # z)"

fun addr_String :: "addr \<Rightarrow> string" where
  "addr_String AddrZero = ''invalid IP''"
| "addr_String (Addr4 w) = ipv4_string w"
| "addr_String (Addr6 w z) =
     (if drop_bit 32 w = 0xffff
      then ''::ffff:'' @ ipv4_string (ucast w) @ zone_suffix z
      else ipv6_string w @ zone_suffix z)"

subsection \<open>Parsing\<close>

fun ipv4_fields :: "string \<Rightarrow> nat \<Rightarrow> nat \<Rightarrow> byte list \<Rightarrow> byte list option" where
  "ipv4_fields [] v d fs = (if length fs < 3 then None else Some (fs @ [of_nat v]))"
| "ipv4_fields (c # r) v d fs =
     (if is_digit c then
        (if d = 1 \<and> v = 0 then None
         else if v * 10 + digit_val c > 255 then None
         else ipv4_fields r (v * 10 + digit_val c) (Suc d) fs)
      else if c = CHR ''.'' then
        (if d = 0 \<or> r = [] then None
         else if length fs = 3 then None
         else ipv4_fields r 0 0 (fs @ [of_nat v]))
      else None)"

definition parse_ipv4 :: "string \<Rightarrow> addr option" where
  "parse_ipv4 s = map_option (\<lambda>bs. Addr4 (be_word bs)) (ipv4_fields s 0 0 [])"

definition hex_val :: "char \<Rightarrow> nat option" where
  "hex_val c =
     (let n = of_char c in
      if 48 \<le> n \<and> n \<le> 57 then Some (n - 48)
      else if 97 \<le> n \<and> n \<le> 102 then Some (n - 87)
      else if 65 \<le> n \<and> n \<le> 70 then Some (n - 55) else None)"

fun hex_group :: "string \<Rightarrow> nat \<Rightarrow> nat \<Rightarrow> (nat \<times> nat \<times> string) option" where
  "hex_group [] off acc = Some (off, acc, [])"
| "hex_group (c # r) off acc =
     (case hex_val c of
        None \<Rightarrow> Some (off, acc, c # r)
      | Some v \<Rightarrow>
          (if off > 3 then None
           else if acc * 16 + v > 65535 then None
           else hex_group r (Suc off) (acc * 16 + v)))"

fun ipv6_loop :: "nat \<Rightarrow> string \<Rightarrow> byte list \<Rightarrow> nat option \<Rightarrow> (byte list \<times> nat option \<times> string) option" where
  "ipv6_loop 0 s ip ell = Some (ip, ell, s)"
| "ipv6_loop (Suc n) s ip ell =
     (case hex_group s 0 0 of
        None \<Rightarrow> None
      | Some (off, acc, r) \<Rightarrow>
          (if off = 0 then None
           else if r \<noteq> [] \<and> hd r = CHR ''.'' then
             (if ell = None \<and> length ip \<noteq> 12 then None
              else if length ip + 4 > 16 then None
              else map_option (\<lambda>f. (ip @ f, ell, [])) (ipv4_fields s 0 0 []))
           else
             (let ip' = ip @ [of_nat (acc div 256), of_nat (acc mod 256)] in
              case r of
                [] \<Rightarrow> Some (ip', ell, [])
              | [c] \<Rightarrow> None
              | c # c2 # r2 \<Rightarrow>
                  (if c \<noteq> CHR '':'' then None
                   else if c2 = CHR '':'' then
                     (if ell \<noteq> None then None
                      else if r2 = [] then Some (ip', Some (length ip'), [])
                      else ipv6_loop n r2 ip' (Some (length ip')))
                   else ipv6_loop n (c2 # r2) ip' ell))))"

definition ipv6_finish :: "byte list \<times> nat option \<times> string \<Rightarrow> byte list option" where
  "ipv6_finish = (\<lambda>(ip, ell, s).
     if s \<noteq> [] then None
     else if length ip < 16 then
       map_option (\<lambda>e. take e ip @ replicate (16 - length ip) 0 @ drop e ip) ell
     else if ell \<noteq> None then None else Some ip)"

definition parse_ipv6 :: "string \<Rightarrow> addr option" where
  "parse_ipv6 inp =
     (let s = takeWhile (\<lambda>c. c \<noteq> CHR ''%'') inp;
          zoned = (CHR ''%'' \<in> set inp);
          zone = drop (Suc (length s)) inp
      in if zoned \<and> zone = [] then None
         else if has_prefix s ''::'' \<and> drop 2 s = [] then Some (Addr6 0 zone)
         else map_option (\<lambda>bs. Addr6 (be_word bs) zone)
                (Option.bind
                  (if has_prefix s ''::'' then ipv6_loop 8 (drop 2 s) [] (Some 0)
                   else ipv6_loop 8 s [] None)
                  ipv6_finish))"

definition parse_addr :: "string \<Rightarrow> addr option" where
  "parse_addr s =
     (case find (\<lambda>c. c = CHR ''.'' \<or> c = CHR '':'' \<or> c = CHR ''%'') s of
        None \<Rightarrow> None
      | Some c \<Rightarrow>
          (if c = CHR ''.'' then parse_ipv4 s
           else if c = CHR '':'' then parse_ipv6 s else None))"

definition net_ParseIP :: "string \<Rightarrow> goip" where
  "net_ParseIP s =
     (case parse_addr s of
        None \<Rightarrow> None
      | Some a \<Rightarrow> if addr_Zone a \<noteq> [] then None else Some (addr_As16 a))"

section \<open>netip.AddrPort\<close>

type_synonym addrport = "addr \<times> u16"

definition addrport_zero :: addrport where
  "addrport_zero = (AddrZero, 0)"

definition addrport_String :: "addrport \<Rightarrow> string" where
  "addrport_String ap =
     (case fst ap of
        AddrZero \<Rightarrow> ''invalid AddrPort''
      | Addr4 w \<Rightarrow> addr_String (fst ap) @ CHR '':'' # fmt_nat (unat (snd ap))
      | Addr6 w z \<Rightarrow> CHR ''['' # addr_String (fst ap) @ '']:'' @ fmt_nat (unat (snd ap)))"

definition split_last :: "char \<Rightarrow> string \<Rightarrow> (string \<times> string) option" where
  "split_last c s =
     (if c \<in> set s
      then Some (rev (tl (dropWhile (\<lambda>d. d \<noteq> c) (rev s))), rev (takeWhile (\<lambda>d. d \<noteq> c) (rev s)))
      else None)"

definition parse_port :: "string \<Rightarrow> u16 option" where
  "parse_port s =
     (case parse_digits s of None \<Rightarrow> None | Some n \<Rightarrow> if int n \<le> 65535 then Some (of_nat n) else None)"

definition parse_addrport :: "string \<Rightarrow> addrport option" where
  "parse_addrport s =
     (case split_last (CHR '':'') s of
        None \<Rightarrow> None
      | Some (ip, port) \<Rightarrow>
          (if ip = [] \<or> port = [] then None
           else if hd ip = CHR ''['' \<and> (length ip < 2 \<or> last ip \<noteq> CHR '']'') then None
           else
             (let v6 = (hd ip = CHR ''['');
                  ip' = (if v6 then butlast (tl ip) else ip)
              in case (parse_port port, parse_addr ip') of
                   (Some p, Some a) \<Rightarrow>
                     (if v6 \<and> addr_Is4 a then None
                      else if \<not> v6 \<and> addr_Is6 a then None
                      else Some (a, p))
                 | _ \<Rightarrow> None)))"

section \<open>netip.Prefix and net.IPNet\<close>

datatype prefix = Prefix (prefix_Addr: addr) (prefix_Bits: nat) | PrefixInvalid

fun prefix_Contains :: "prefix \<Rightarrow> addr \<Rightarrow> bool" where
  "prefix_Contains (Prefix (Addr4 p) n) (Addr4 a) = (drop_bit (32 - n) (a XOR p) = 0)"
| "prefix_Contains (Prefix (Addr6 p _) n) (Addr6 a z) = (z = [] \<and> drop_bit (128 - n) (a XOR p) = 0)"
| "prefix_Contains _ _ = False"

definition parse_prefix :: "string \<Rightarrow> prefix option" where
  "parse_prefix s =
     (case split_last (CHR ''/'') s of
        None \<Rightarrow> None
      | Some (ip, bits) \<Rightarrow>
          (case parse_addr ip of
             None \<Rightarrow> None
           | Some a \<Rightarrow>
               (if addr_Zone a \<noteq> [] then None
                else if length bits > 1 \<and> (\<not> is_digit (hd bits) \<or> hd bits = CHR ''0'') then None
                else
                  (case parse_digits bits of
                     None \<Rightarrow> None
                   | Some n \<Rightarrow> if n > addr_BitLen a then None else Some (Prefix a n)))))"

definition mask_byte :: "nat \<Rightarrow> byte" where
  "mask_byte k = (if k \<ge> 8 then 255 else of_nat (256 - 2 ^ (8 - k)))"

definition cidr_mask :: "nat \<Rightarrow> nat \<Rightarrow> byte list" where
  "cidr_mask ones bits = map (\<lambda>i. mask_byte (ones - 8 * i)) [0..<bits div 8]"

text \<open>\<open>IPMask.Size\<close>, first result: the number of leading ones of a canonical mask.\<close>

fun simple_mask_length :: "byte list \<Rightarrow> nat option" where
  "simple_mask_length [] = Some 0"
| "simple_mask_length (v # r) =
     (if v = 255 then map_option (\<lambda>n. n + 8) (simple_mask_length r)
      else if \<forall>b \<in> set r. b = 0
      then map_of [(0, 0), (128, 1), (192, 2), (224, 3), (240, 4), (248, 5), (252, 6), (254, 7)] v
      else None)"

record ipnet =
  net_IP :: "byte list"
  net_Mask :: "byte list"

text \<open>\<open>IP.Mask\<close> on a 16-byte address: with a 4-byte mask an IPv4-mapped address is
  shortened first.\<close>

definition ip_Mask :: "byte list \<Rightarrow> byte list \<Rightarrow> byte list" where
  "ip_Mask ip m =
     (let ip' = (if length m = 4 \<and> length ip = 16 \<and> take 12 ip = v4_in_v6_prefix then drop 12 ip else ip)
      in if length ip' \<noteq> length m then [] else map2 (\<lambda>a b. a AND b) ip' m)"

text \<open>\<open>dtoi\<close> of package \<open>net\<close>: all digits, value below \<open>0xFFFFFF\<close> at every step.\<close>

definition dtoi :: "string \<Rightarrow> nat option" where
  "dtoi s = (case parse_digits s of None \<Rightarrow> None | Some n \<Rightarrow> if int n \<ge> 0xFFFFFF then None else Some n)"

definition split_first :: "char \<Rightarrow> string \<Rightarrow> (string \<times> string) option" where
  "split_first c s =
     (if c \<in> set s then Some (takeWhile (\<lambda>d. d \<noteq> c) s, tl (dropWhile (\<lambda>d. d \<noteq> c) s)) else None)"

definition net_ParseCIDR :: "string \<Rightarrow> (goip \<times> ipnet) option" where
  "net_ParseCIDR s =
     (case split_first (CHR ''/'') s of
        None \<Rightarrow> None
      | Some (ad, msk) \<Rightarrow>
          (case parse_addr ad of
             None \<Rightarrow> None
           | Some a \<Rightarrow>
               (if addr_Zone a \<noteq> [] then None
                else case dtoi msk of
                       None \<Rightarrow> None
                     | Some n \<Rightarrow>
                         (if n > addr_BitLen a then None
                          else let m = cidr_mask n (addr_BitLen a)
                               in Some (Some (addr_As16 a),
                                        \<lparr>net_IP = ip_Mask (addr_As16 a) m, net_Mask = m\<rparr>)))))"

text \<open>\<open>IP.String\<close> and \<open>IPNet.String\<close>.\<close>

definition ip_String :: "goip \<Rightarrow> string" where
  "ip_String ip =
     (let bs = ip_bytes ip in
      if bs = [] then ''<nil>''
      else if length bs \<noteq> 4 \<and> length bs \<noteq> 16 then CHR ''?'' # hex_encode bs
      else case ip_To4 ip of
             Some v4 \<Rightarrow> addr_String (Addr4 (be_word v4))
           | None \<Rightarrow> addr_String (Addr6 (be_word bs) []))"

definition network_number_and_mask :: "ipnet \<Rightarrow> (byte list \<times> byte list) option" where
  "network_number_and_mask n =
     (case (case ip_To4 (Some (net_IP n)) of
              Some v4 \<Rightarrow> Some v4
            | None \<Rightarrow> if length (net_IP n) = 16 then Some (net_IP n) else None) of
        None \<Rightarrow> None
      | Some ip \<Rightarrow>
          (if length (net_Mask n) = 4 then (if length ip = 4 then Some (ip, net_Mask n) else None)
           else if length (net_Mask n) = 16
           then Some (ip, if length ip = 4 then drop 12 (net_Mask n) else net_Mask n)
           else None))"

definition ipnet_String :: "ipnet \<Rightarrow> string" where
  "ipnet_String n =
     (case network_number_and_mask n of
        None \<Rightarrow> ''<nil>''
      | Some (nn, m) \<Rightarrow>
          (case simple_mask_length m of
             None \<Rightarrow> ip_String (Some nn) @ ''/'' @ hex_encode m
           | Some l \<Rightarrow> ip_String (Some nn) @ ''/'' @ fmt_nat l))"

section \<open>Properties\<close>

subsection \<open>Bytes of an IPv4 address\<close>

lemma be_bytes4: "be_bytes 4 w = [ucast (drop_bit 24 w), ucast (drop_bit 16 w), ucast (drop_bit 8 w), ucast w]"
  by (simp add: be_bytes_def upt_rec)

lemma length_be_bytes [simp]: "length (be_bytes k w) = k"
  by (simp add: be_bytes_def)

lemma ucast_ucast_byte: "ucast (ucast (w :: 'a::len word) :: byte) = take_bit 8 w"
  by (rule bit_word_eqI) (auto simp: bit_simps)

lemma word_byte_step: "drop_bit 8 w * 256 + ucast (ucast (w :: 'a::len word) :: byte) = w"
  using bits_ident [of 8 w] by (simp add: ucast_ucast_byte push_bit_eq_mult)

lemma be_word_be_bytes4 [simp]: "be_word (be_bytes 4 w) = (w :: 32 word)"
proof -
  have "drop_bit 32 w = 0" by (rule bit_word_eqI) (auto simp: bit_simps)
  then show ?thesis
    using word_byte_step [of w] word_byte_step [of "drop_bit 8 w"] word_byte_step [of "drop_bit 16 w"]
      word_byte_step [of "drop_bit 24 w"]
    by (simp add: be_bytes4 be_word_def)
qed

lemma be_bytes4_inject [simp]: "be_bytes 4 v = be_bytes 4 w \<longleftrightarrow> v = (w :: 32 word)"
  by (metis be_word_be_bytes4)

subsection \<open>Prefixes as address ranges\<close>

lemma word_xor_eq_0 [simp]: "x XOR y = 0 \<longleftrightarrow> x = (y :: 'a::len word)"
  by (auto simp: bit_eq_iff bit_xor_iff)

lemma prefix_Contains4:
  "prefix_Contains (Prefix (Addr4 p) n) (Addr4 a) \<longleftrightarrow>
     unat a div 2 ^ (32 - n) = unat p div 2 ^ (32 - n)"
proof -
  have "drop_bit (32 - n) (a XOR p) = 0 \<longleftrightarrow> drop_bit (32 - n) a = drop_bit (32 - n) p"
    by (simp only: drop_bit_xor word_xor_eq_0)
  also have "\<dots> \<longleftrightarrow> unat a div 2 ^ (32 - n) = unat p div 2 ^ (32 - n)"
    by (simp only: word_unat_eq_iff unat_drop_bit_eq) (simp only: drop_bit_eq_div)
  finally show ?thesis by simp
qed

lemma prefix_Contains_valid: "prefix_Contains p a \<Longrightarrow> a \<noteq> AddrZero"
  by (cases "(p, a)" rule: prefix_Contains.cases) auto

subsection \<open>The text form of IPv4 addresses is parsed back\<close>

lemma ipv4_fields_octet:
  assumes "n < 256"
  obtains d where "0 < d" and "\<And>r fs. ipv4_fields (fmt_nat n @ r) 0 0 fs = ipv4_fields r n d fs"
proof -
  consider "n < 10" | "10 \<le> n" "n < 100" | "100 \<le> n" by linarith
  then show thesis
  proof cases
    case 1
    then show thesis by (intro that [of "Suc 0"]) (simp_all add: fmt_nat.simps)
  next
    case 2
    then have "n div 10 < 10" "0 < n div 10" by auto
    with 2 assms show thesis
      by (intro that [of "Suc (Suc 0)"])
        (simp_all add: fmt_nat.simps [of n] fmt_nat.simps [of "n div 10"])
  next
    case 3
    with assms have "n div 10 div 10 < 10" "0 < n div 10 div 10" "n div 10 \<ge> 10" "n div 10 < 100"
      by auto
    with 3 assms show thesis
      by (intro that [of "Suc (Suc (Suc 0))"])
        (simp_all add: fmt_nat.simps [of n] fmt_nat.simps [of "n div 10"]
          fmt_nat.simps [of "n div 10 div 10"])
  qed
qed

lemma dot_not_digit [simp]: "\<not> is_digit (CHR ''.'')"
  by (simp add: is_digit_def)

lemma ipv4_fields_last:
  assumes "n < 256" and "length fs = 3"
  shows "ipv4_fields (fmt_nat n) 0 0 fs = Some (fs @ [of_nat n])"
proof -
  obtain d where "\<And>r fs. ipv4_fields (fmt_nat n @ r) 0 0 fs = ipv4_fields r n d fs"
    using ipv4_fields_octet [OF assms(1)] by blast
  from this [of "[]" fs] assms(2) show ?thesis by simp
qed

lemma ipv4_fields_dot:
  assumes "n < 256" and "length fs < 3" and "r \<noteq> []"
  shows "ipv4_fields (fmt_nat n @ CHR ''.'' # r) 0 0 fs = ipv4_fields r 0 0 (fs @ [of_nat n])"
proof -
  obtain d where "0 < d" "\<And>r fs. ipv4_fields (fmt_nat n @ r) 0 0 fs = ipv4_fields r n d fs"
    using ipv4_fields_octet [OF assms(1)] by blast
  with assms(2,3) show ?thesis by simp
qed

lemma ipv4_fields_dotted: "ipv4_fields (dotted [a, b, c, d]) 0 0 [] = Some [a, b, c, d]"
  by (simp add: ipv4_fields_dot ipv4_fields_last)

lemma find_skip_digits:
  "\<forall>c \<in> set s. is_digit c \<Longrightarrow>
   find (\<lambda>c. c = CHR ''.'' \<or> c = CHR '':'' \<or> c = CHR ''%'') (s @ CHR ''.'' # r) = Some (CHR ''.'')"
  by (induction s) (auto simp: is_digit_def)

lemma parse_addr_dotted: "parse_addr (dotted [a, b, c, d]) = Some (Addr4 (be_word [a, b, c, d]))"
proof -
  have "find (\<lambda>c. c = CHR ''.'' \<or> c = CHR '':'' \<or> c = CHR ''%'') (dotted [a, b, c, d]) = Some (CHR ''.'')"
    by (simp only: dotted.simps) (rule find_skip_digits [OF fmt_nat_digits])
  then show ?thesis
    by (simp only: parse_addr_def parse_ipv4_def ipv4_fields_dotted) simp
qed

lemma ipv4_string_dotted:
  "ipv4_string w = dotted [ucast (drop_bit 24 w), ucast (drop_bit 16 w), ucast (drop_bit 8 w), ucast w]"
  by (simp add: ipv4_string_def be_bytes4)

lemma parse_addr_String4 [simp]: "parse_addr (addr_String (Addr4 w)) = Some (Addr4 w)"
  using be_word_be_bytes4 [of w]
  by (simp only: addr_String.simps ipv4_string_dotted parse_addr_dotted be_bytes4)

lemma addr_String4_inject [simp]: "addr_String (Addr4 v) = addr_String (Addr4 w) \<longleftrightarrow> v = w"
  by (metis addr.inject(1) option.inject parse_addr_String4)

end
