(* ===== verification/Go_Errors.thy ===== *)
theory Go_Errors
  imports Go_Encoding
begin

text \<open>
  Go's \<open>error\<close> values. The interface is open; the constructors below are the dynamic types
  that gretun creates or inspects: plain and formatted errors, errors wrapped with
  \<open>%w\<close>, the lists of \<open>errors.Join\<close>, the two context errors, \<open>syscall.Errno\<close>, and the six error structs of
  \<open>internal/tunnel/errors.go\<close>. A nil error is the constructor \<open>Inr\<close> of the result
  (or \<open>None\<close> where a function returns only an error).
\<close>

datatype fmt_arg = AStr string | AInt int

datatype goerror =
    EMsg string
  | EFmt string "fmt_arg list"
  | EWrap string "fmt_arg list" goerror
  | EJoin "goerror list"
  | ECanceled
  | EDeadlineExceeded
  | EErrno nat
  | TunnelError string string string "goerror option"
  | TunnelExistsError string
  | TunnelNotFoundError string
  | ValidationError string string string
  | PermissionError string string string
  | InvalidTypeError string string string

type_synonym 'a res = "goerror + 'a"

text \<open>The state of a \<open>context.Context\<close> as a function sees it: \<open>ctx.Err()\<close>, nil while
  the context is alive.\<close>

type_synonym ctx = "goerror option"

abbreviation background :: ctx where
  "background \<equiv> None"

text \<open>Sequencing of fallible calls: the first error ends the function.\<close>

definition bind_res :: "'a res \<Rightarrow> ('a \<Rightarrow> 'b res) \<Rightarrow> 'b res" where
  "bind_res r f = (case r of Inl e \<Rightarrow> Inl e | Inr x \<Rightarrow> f x)"

lemma bind_res_simps [simp]:
  "bind_res (Inl e) f = Inl e"
  "bind_res (Inr x) f = f x"
  by (simp_all add: bind_res_def)

lemma bind_res_eq_Inr_iff: "bind_res r f = Inr y \<longleftrightarrow> (\<exists>x. r = Inr x \<and> f x = Inr y)"
  by (cases r) simp_all

end
