(* ===== verification/Coord_Store.thy ===== *)
theory Coord_Store
  imports Go_Net Go_Errors "HOL-Library.AList" "HOL-Library.Multiset"
begin

text \<open>
  The coordinator's state, \<open>internal/coord/types.go\<close> and \<open>internal/coord/store.go\<close>: the
  peer registry with tunnel address allocation, and the per-recipient signal queues.
  Go maps are association lists with distinct keys; channels are numbers, with the closed
  ones recorded, so that a wake-up is visible and closing a channel twice would be. Every
  operation runs under one of the store's mutexes and is one step; the two long polls are
  split at the point where they leave the mutex and block on a channel.
\<close>

section \<open>Data\<close>

type_synonym key32 = "byte list"

record endpoint =
  ep_Addr :: addrport
  ep_Source :: string

record peer =
  NodeKey :: "byte list"
  DiscoKey :: key32
  Name :: string
  TunnelIP :: addr
  Endpoints :: "endpoint list"
  UpdatedAt :: gotime

record envelope =
  From :: key32
  Sealed :: "byte list"
  Enqueue :: gotime

type_synonym chan = nat

record memstore =
  pool :: prefix
  peers :: "(string \<times> peer) list"
  byTunnel :: "(string \<times> string) list"
  peersEtag :: string
  peersBroad :: chan
  signals :: "(key32 \<times> envelope list) list"
  signalWakes :: "(key32 \<times> chan) list"
  maxQueueDepth :: nat
  maxAge :: duration
  nextChan :: chan
  closedChans :: "chan list"

text \<open>The hash function is an argument of the code that computes an etag.\<close>

type_synonym hash_fn = "byte list \<Rightarrow> byte list"

section \<open>Etags\<close>

text \<open>\<open>time.Format(RFC3339Nano)\<close> in UTC: the proleptic Gregorian date of a day number
  counted from January 1, year 1, the clock time, and the fraction of a second without
  trailing zeros.\<close>

definition civil_date :: "int \<Rightarrow> int \<times> int \<times> int" where
  "civil_date days =
     (let z = days + 306;
          era = z div 146097;
          doe = z mod 146097;
          yoe = (doe - doe div 1460 + doe div 36524 - doe div 146096) div 365;
          doy = doe - (365 * yoe + yoe div 4 - yoe div 100);
          mp = (5 * doy + 2) div 153;
          d = doy - (153 * mp + 2) div 5 + 1;
          m = (if mp < 10 then mp + 3 else mp - 9);
          y = yoe + era * 400 + (if m \<le> 2 then 1 else 0)
      in (y, m, d))"

definition pad_int :: "nat \<Rightarrow> int \<Rightarrow> string" where
  "pad_int w i = (let s = fmt_int i in replicate (w - length s) (CHR ''0'') @ s)"

definition nano_suffix :: "int \<Rightarrow> string" where
  "nano_suffix ns =
     (if ns = 0 then []
      else CHR ''.'' # rev (dropWhile (\<lambda>c. c = CHR ''0'') (rev (pad_int 9 ns))))"

definition rfc3339nano :: "gotime \<Rightarrow> string" where
  "rfc3339nano t =
     (let secs = t div second;
          day = secs div 86400;
          sod = secs mod 86400;
          (y, m, d) = civil_date day
      in pad_int 4 y @ ''-'' @ pad_int 2 m @ ''-'' @ pad_int 2 d @ ''T'' @
         pad_int 2 (sod div 3600) @ '':'' @ pad_int 2 (sod div 60 mod 60) @ '':'' @
         pad_int 2 (sod mod 60) @ nano_suffix (t mod second) @ ''Z'')"

definition newEtag :: "hash_fn \<Rightarrow> gotime \<Rightarrow> string" where
  "newEtag sha256 now = hex_encode (take 8 (sha256 (str_bytes (rfc3339nano now))))"

definition NewMemStore :: "hash_fn \<Rightarrow> gotime \<Rightarrow> prefix \<Rightarrow> memstore" where
  "NewMemStore sha256 now p =
     \<lparr>pool = p, peers = [], byTunnel = [], peersEtag = newEtag sha256 now, peersBroad = 0,
      signals = [], signalWakes = [], maxQueueDepth = 64, maxAge = 30 * second,
      nextChan = 1, closedChans = []\<rparr>"

definition close_chan :: "chan \<Rightarrow> memstore \<Rightarrow> memstore" where
  "close_chan c s = s\<lparr>closedChans := c # closedChans s\<rparr>"

definition bumpEtagLocked :: "hash_fn \<Rightarrow> gotime \<Rightarrow> memstore \<Rightarrow> memstore" where
  "bumpEtagLocked sha256 now s =
     close_chan (peersBroad s)
       (s\<lparr>peersEtag := newEtag sha256 now, peersBroad := nextChan s, nextChan := Suc (nextChan s)\<rparr>)"

section \<open>Registration and address allocation\<close>

definition base64Encode :: "byte list \<Rightarrow> string" where
  "base64Encode b = hex_encode b"

fun addr_room :: "addr \<Rightarrow> nat" where
  "addr_room AddrZero = 0"
| "addr_room (Addr4 w) = 2 ^ 32 - unat w"
| "addr_room (Addr6 w z) = 2 ^ 128 - unat w"

lemma addr_room_Next: "a \<noteq> AddrZero \<Longrightarrow> addr_room (addr_Next a) < addr_room a"
proof (cases a)
  case (Addr4 w)
  have "unat w < 2 ^ 32" using unsigned_less [of w, where 'a = nat] by simp
  with Addr4 show ?thesis by (auto simp: unatSuc add.commute [of w])
next
  case (Addr6 w z)
  have "unat w < 2 ^ 128" using unsigned_less [of w, where 'a = nat] by simp
  with Addr6 show ?thesis by (auto simp: unatSuc add.commute [of w])
qed simp

function alloc_loop :: "prefix \<Rightarrow> (string \<times> string) list \<Rightarrow> addr \<Rightarrow> addr option" where
  "alloc_loop p taken nxt =
     (if prefix_Contains p nxt then
        (if map_of taken (addr_String nxt) = None then
           (if \<not> prefix_Contains p (addr_Next nxt) then None else Some nxt)
         else alloc_loop p taken (addr_Next nxt))
      else None)"
  by pat_completeness auto
termination
  by (relation "measure (\<lambda>(p, taken, nxt). addr_room nxt)")
    (auto intro: addr_room_Next dest: prefix_Contains_valid)

declare alloc_loop.simps [simp del]

definition pool_base :: "prefix \<Rightarrow> addr" where
  "pool_base p = (case p of Prefix a n \<Rightarrow> a | PrefixInvalid \<Rightarrow> AddrZero)"

definition allocateIPLocked :: "memstore \<Rightarrow> addr res" where
  "allocateIPLocked s =
     (case alloc_loop (pool s) (byTunnel s) (addr_Next (pool_base (pool s))) of
        Some a \<Rightarrow> Inr a
      | None \<Rightarrow> Inl (EMsg ''tunnel IP pool exhausted''))"

text \<open>The two clock readings of the source are two arguments: the one stored in the peer
  and the one the etag is made from.\<close>

definition Register ::
  "hash_fn \<Rightarrow> gotime \<Rightarrow> gotime \<Rightarrow> ctx \<Rightarrow> peer \<Rightarrow> memstore \<Rightarrow> addr res \<times> memstore" where
  "Register sha256 now etagNow ctx p s =
     (case ctx of
        Some e \<Rightarrow> (Inl e, s)
      | None \<Rightarrow>
          (if length (NodeKey p) \<noteq> 32 then
             (Inl (EFmt ''invalid node key length %d'' [AInt (int (length (NodeKey p)))]), s)
           else
             (let keyB64 = base64Encode (NodeKey p) in
              case map_of (peers s) keyB64 of
                Some existing \<Rightarrow>
                  (Inr (TunnelIP existing),
                   bumpEtagLocked sha256 etagNow
                     (s\<lparr>peers := AList.update keyB64
                          (existing\<lparr>DiscoKey := DiscoKey p, Name := Name p, UpdatedAt := now\<rparr>)
                          (peers s)\<rparr>))
              | None \<Rightarrow>
                  (case allocateIPLocked s of
                     Inl e \<Rightarrow> (Inl e, s)
                   | Inr ip \<Rightarrow>
                       (Inr ip,
                        bumpEtagLocked sha256 etagNow
                          (s\<lparr>peers := AList.update keyB64 (p\<lparr>TunnelIP := ip, UpdatedAt := now\<rparr>) (peers s),
                             byTunnel := AList.update (addr_String ip) keyB64 (byTunnel s)\<rparr>))))))"

definition SetEndpoints ::
  "hash_fn \<Rightarrow> gotime \<Rightarrow> gotime \<Rightarrow> ctx \<Rightarrow> byte list \<Rightarrow> endpoint list \<Rightarrow> memstore \<Rightarrow> unit res \<times> memstore" where
  "SetEndpoints sha256 now etagNow ctx nodeKey eps s =
     (case ctx of
        Some e \<Rightarrow> (Inl e, s)
      | None \<Rightarrow>
          (let keyB64 = base64Encode nodeKey in
           case map_of (peers s) keyB64 of
             None \<Rightarrow> (Inl (EMsg ''unknown peer''), s)
           | Some p \<Rightarrow>
               (Inr (),
                bumpEtagLocked sha256 etagNow
                  (s\<lparr>peers := AList.update keyB64 (p\<lparr>Endpoints := eps, UpdatedAt := now\<rparr>) (peers s)\<rparr>))))"

text \<open>The loop over the Go map visits the entries in the order of the argument \<open>visit\<close>,
  an arbitrary rearrangement of the map's entries.\<close>

definition Peers_in :: "ctx \<Rightarrow> (string \<times> peer) list \<Rightarrow> memstore \<Rightarrow> (peer list \<times> string) res" where
  "Peers_in ctx visit s =
     (case ctx of
        Some e \<Rightarrow> Inl e
      | None \<Rightarrow> Inr (sort_key TunnelIP (map snd visit), peersEtag s))"

definition Peers :: "ctx \<Rightarrow> memstore \<Rightarrow> (peer list \<times> string) res" where
  "Peers ctx s = Peers_in ctx (peers s) s"

text \<open>What a long poll holds after leaving the mutex: it has returned, or it blocks on a
  channel until the channel is closed or the context fires.\<close>

datatype waiting = Returned | BlockedOn chan

definition WaitForPeersChange :: "string \<Rightarrow> memstore \<Rightarrow> waiting" where
  "WaitForPeersChange since s =
     (if peersEtag s \<noteq> since then Returned else BlockedOn (peersBroad s))"

text \<open>The outcomes the closing \<open>select\<close> can have in a state: none while the poll is
  still blocked, and either one when both the channel and the context are ready.\<close>

definition wait_results :: "ctx \<Rightarrow> waiting \<Rightarrow> memstore \<Rightarrow> unit res list" where
  "wait_results ctx w s =
     (case w of
        Returned \<Rightarrow> [Inr ()]
      | BlockedOn c \<Rightarrow>
          (if c \<in> set (closedChans s) then [Inr ()] else []) @
          (case ctx of Some e \<Rightarrow> [Inl e] | None \<Rightarrow> []))"

section \<open>Signal queues\<close>

definition signals_of :: "memstore \<Rightarrow> key32 \<Rightarrow> envelope list" where
  "signals_of s k = (case map_of (signals s) k of None \<Rightarrow> [] | Some q \<Rightarrow> q)"

definition enqueue_bounded :: "nat \<Rightarrow> 'a list \<Rightarrow> 'a \<Rightarrow> 'a list" where
  "enqueue_bounded depth q x = (if length q \<ge> depth then drop 1 q else q) @ [x]"

text \<open>The code closes the channel right after it has released the lock. Nobody else can reach the
  channel by then, since it is no longer in the map, and a waiter only sees the close a little
  later; it is part of the step here.\<close>

definition EnqueueSignal :: "ctx \<Rightarrow> key32 \<Rightarrow> envelope \<Rightarrow> memstore \<Rightarrow> unit res \<times> memstore" where
  "EnqueueSignal ctx k env s =
     (case ctx of
        Some e \<Rightarrow> (Inl e, s)
      | None \<Rightarrow>
          (let s1 = s\<lparr>signals := AList.update k (enqueue_bounded (maxQueueDepth s) (signals_of s k) env) (signals s),
                      signalWakes := AList.delete k (signalWakes s)\<rparr>
           in (Inr (), case map_of (signalWakes s) k of None \<Rightarrow> s1 | Some w \<Rightarrow> close_chan w s1)))"

definition PopSignals :: "gotime \<Rightarrow> ctx \<Rightarrow> key32 \<Rightarrow> memstore \<Rightarrow> envelope list res \<times> memstore" where
  "PopSignals now ctx k s =
     (case ctx of
        Some e \<Rightarrow> (Inl e, s)
      | None \<Rightarrow>
          (Inr (filter (\<lambda>e. now - maxAge s < Enqueue e) (signals_of s k)),
           s\<lparr>signals := AList.delete k (signals s)\<rparr>))"

definition WaitForSignal :: "key32 \<Rightarrow> memstore \<Rightarrow> waiting \<times> memstore" where
  "WaitForSignal k s =
     (if length (signals_of s k) > 0 then (Returned, s)
      else case map_of (signalWakes s) k of
             Some c \<Rightarrow> (BlockedOn c, s)
           | None \<Rightarrow>
               (BlockedOn (nextChan s),
                s\<lparr>signalWakes := AList.update k (nextChan s) (signalWakes s), nextChan := Suc (nextChan s)\<rparr>))"

section \<open>Steps and reachable stores\<close>

inductive store_step :: "memstore \<Rightarrow> memstore \<Rightarrow> bool" where
  register: "Register h now etagNow ctx p s = (r, s') \<Longrightarrow> store_step s s'"
| set_endpoints: "SetEndpoints h now etagNow ctx k eps s = (r, s') \<Longrightarrow> store_step s s'"
| enqueue: "EnqueueSignal ctx k env s = (r, s') \<Longrightarrow> store_step s s'"
| pop: "PopSignals now ctx k s = (r, s') \<Longrightarrow> store_step s s'"
| wait_signal: "WaitForSignal k s = (w, s') \<Longrightarrow> store_step s s'"

inductive store_reachable :: "memstore \<Rightarrow> bool" where
  start: "store_reachable (NewMemStore h now p)"
| step: "store_reachable s \<Longrightarrow> store_step s s' \<Longrightarrow> store_reachable s'"

definition registry_maps :: "prefix \<Rightarrow> (string \<rightharpoonup> peer) \<Rightarrow> (string \<rightharpoonup> string) \<Rightarrow> bool" where
  "registry_maps pl ps ts \<longleftrightarrow>
     (\<forall>k p. ps k = Some p \<longrightarrow>
        k = base64Encode (NodeKey p) \<and> length (NodeKey p) = 32 \<and>
        prefix_Contains pl (TunnelIP p) \<and> ts (addr_String (TunnelIP p)) = Some k) \<and>
     (\<forall>t k. ts t = Some k \<longrightarrow> (\<exists>p. ps k = Some p \<and> addr_String (TunnelIP p) = t))"

definition registry_wf :: "memstore \<Rightarrow> bool" where
  "registry_wf s \<longleftrightarrow>
     distinct (map fst (peers s)) \<and> distinct (map fst (byTunnel s)) \<and>
     registry_maps (pool s) (map_of (peers s)) (map_of (byTunnel s))"

definition chans_wf :: "memstore \<Rightarrow> bool" where
  "chans_wf s \<longleftrightarrow>
     distinct (closedChans s) \<and> (\<forall>c \<in> set (closedChans s). c < nextChan s) \<and>
     peersBroad s < nextChan s \<and> peersBroad s \<notin> set (closedChans s) \<and>
     (\<forall>k c. map_of (signalWakes s) k = Some c \<longrightarrow>
        c < nextChan s \<and> c \<notin> set (closedChans s) \<and> c \<noteq> peersBroad s) \<and>
     (\<forall>k k' c. map_of (signalWakes s) k = Some c \<and> map_of (signalWakes s) k' = Some c \<longrightarrow> k = k')"

definition queues_wf :: "memstore \<Rightarrow> bool" where
  "queues_wf s \<longleftrightarrow> 0 < maxQueueDepth s \<and> (\<forall>k. length (signals_of s k) \<le> maxQueueDepth s)"

definition store_inv :: "memstore \<Rightarrow> bool" where
  "store_inv s \<longleftrightarrow> registry_wf s \<and> chans_wf s \<and> queues_wf s"

section \<open>Lemmas\<close>

subsection \<open>Frame facts\<close>

lemma bumpEtagLocked_frame [simp]:
  "pool (bumpEtagLocked h t s) = pool s"
  "peers (bumpEtagLocked h t s) = peers s"
  "byTunnel (bumpEtagLocked h t s) = byTunnel s"
  "signals (bumpEtagLocked h t s) = signals s"
  "signalWakes (bumpEtagLocked h t s) = signalWakes s"
  "maxQueueDepth (bumpEtagLocked h t s) = maxQueueDepth s"
  "maxAge (bumpEtagLocked h t s) = maxAge s"
  "closedChans (bumpEtagLocked h t s) = peersBroad s # closedChans s"
  "peersBroad (bumpEtagLocked h t s) = nextChan s"
  "nextChan (bumpEtagLocked h t s) = Suc (nextChan s)"
  "peersEtag (bumpEtagLocked h t s) = newEtag h t"
  by (simp_all add: bumpEtagLocked_def close_chan_def)

lemma close_chan_frame [simp]:
  "pool (close_chan c s) = pool s" "peers (close_chan c s) = peers s"
  "byTunnel (close_chan c s) = byTunnel s" "signals (close_chan c s) = signals s"
  "signalWakes (close_chan c s) = signalWakes s" "peersBroad (close_chan c s) = peersBroad s"
  "peersEtag (close_chan c s) = peersEtag s" "nextChan (close_chan c s) = nextChan s"
  "maxQueueDepth (close_chan c s) = maxQueueDepth s" "maxAge (close_chan c s) = maxAge s"
  "closedChans (close_chan c s) = c # closedChans s"
  by (simp_all add: close_chan_def)

lemma base64Encode_inject [simp]: "base64Encode a = base64Encode b \<longleftrightarrow> a = b"
  by (simp add: base64Encode_def)

subsection \<open>Address allocation\<close>

lemma alloc_loop_Some:
  "alloc_loop p taken nxt = Some ip \<Longrightarrow>
     prefix_Contains p ip \<and> prefix_Contains p (addr_Next ip) \<and> map_of taken (addr_String ip) = None"
proof (induction p taken nxt rule: alloc_loop.induct)
  case (1 p taken nxt)
  then show ?case by (auto simp: alloc_loop.simps [of p taken nxt] split: if_splits)
qed

lemma addr4_above: "Addr4 w < a \<Longrightarrow> a < Addr4 v \<Longrightarrow> \<exists>u. a = Addr4 u \<and> w < u \<and> u < v"
  by (cases a) (auto simp: less_addr_def word_less_nat_alt)

lemma alloc_loop_minimal:
  assumes "alloc_loop p taken (Addr4 w) = Some (Addr4 v)" and "w \<le> u" and "u < v"
  shows "map_of taken (addr_String (Addr4 u)) \<noteq> None"
  using assms
proof (induction p taken "Addr4 w" arbitrary: w rule: alloc_loop.induct)
  case (1 p taken w)
  from "1.prems"(1) have c: "prefix_Contains p (Addr4 w)"
    by (auto simp: alloc_loop.simps [of p taken "Addr4 w"] split: if_splits)
  show ?case
  proof (cases "map_of taken (addr_String (Addr4 w))")
    case None
    with "1.prems" c show ?thesis
      by (auto simp: alloc_loop.simps [of p taken "Addr4 w"] split: if_splits)
  next
    case (Some k)
    with "1.prems"(1) c have rec: "alloc_loop p taken (addr_Next (Addr4 w)) = Some (Addr4 v)"
      by (simp add: alloc_loop.simps [of p taken "Addr4 w"])
    then have ov: "w + 1 \<noteq> 0"
      by (auto simp: alloc_loop.simps [of p taken AddrZero] split: if_splits
          dest: prefix_Contains_valid)
    show ?thesis
    proof (cases "u = w")
      case True
      with Some show ?thesis by simp
    next
      case False
      with "1.prems"(2) ov have "w + 1 \<le> u"
        by (metis inc_le order_le_imp_less_or_eq)
      with "1.hyps" [OF c] Some rec ov "1.prems"(3) show ?thesis by simp
    qed
  qed
qed

lemma prefix_interval4:
  assumes "prefix_Contains (Prefix (Addr4 b) n) (Addr4 u)" and "b \<le> w" and "w \<le> u"
  shows "prefix_Contains (Prefix (Addr4 b) n) (Addr4 w)"
proof -
  let ?k = "2 ^ (32 - n) :: nat"
  have "unat b div ?k \<le> unat w div ?k" "unat w div ?k \<le> unat u div ?k"
    using assms(2,3) by (auto simp: word_le_nat_alt intro: div_le_mono)
  moreover have "unat u div ?k = unat b div ?k" using assms(1) by (simp only: prefix_Contains4)
  ultimately have "unat w div ?k = unat b div ?k" by linarith
  then show ?thesis by (simp only: prefix_Contains4)
qed

lemma word_less_next:
  fixes w u b :: "32 word"
  assumes "w < u" and "b \<le> w"
  shows "w + 1 \<le> u" "w + 1 \<noteq> 0" "b \<le> w + 1"
  using assms by unat_arith+

lemma alloc_loop_None:
  assumes "alloc_loop (Prefix (Addr4 b) n) taken (Addr4 w) = None" and "b \<le> w" and "w \<le> u"
    and "prefix_Contains (Prefix (Addr4 b) n) (Addr4 u)"
    and "prefix_Contains (Prefix (Addr4 b) n) (addr_Next (Addr4 u))"
  shows "map_of taken (addr_String (Addr4 u)) \<noteq> None"
  using assms
proof (induction "Prefix (Addr4 b) n" taken "Addr4 w" arbitrary: w rule: alloc_loop.induct)
  case (1 taken w)
  let ?p = "Prefix (Addr4 b) n"
  have c: "prefix_Contains ?p (Addr4 w)"
    by (rule prefix_interval4 [OF "1.prems"(4,2,3)])
  show ?case
  proof (cases "u = w")
    case True
    with "1.prems" c show ?thesis
      by (auto simp: alloc_loop.simps [of ?p taken "Addr4 w"] split: if_splits)
  next
    case False
    with "1.prems"(3) have nx: "w + 1 \<le> u" "w + 1 \<noteq> 0" "b \<le> w + 1"
      using "1.prems"(2) word_less_next [of w u b] by auto
    then have "prefix_Contains ?p (addr_Next (Addr4 w))"
      using prefix_interval4 [OF "1.prems"(4) nx(3,1)] by simp
    with "1.prems"(1) c have "map_of taken (addr_String (Addr4 w)) \<noteq> None"
      and "alloc_loop ?p taken (addr_Next (Addr4 w)) = None"
      by (auto simp: alloc_loop.simps [of ?p taken "Addr4 w"] split: if_splits)
    with "1.hyps" [OF c] nx "1.prems"(4,5) show ?thesis by simp
  qed
qed

subsection \<open>Every operation keeps the invariant\<close>

lemma allocateIPLocked_Inr:
  "allocateIPLocked s = Inr ip \<Longrightarrow>
     prefix_Contains (pool s) ip \<and> prefix_Contains (pool s) (addr_Next ip) \<and>
     map_of (byTunnel s) (addr_String ip) = None"
  by (auto simp: allocateIPLocked_def dest: alloc_loop_Some split: option.splits)

lemma registry_maps_update:
  assumes "registry_maps pl ps ts" and "ps k = Some p"
    and "NodeKey p' = NodeKey p" and "TunnelIP p' = TunnelIP p"
  shows "registry_maps pl (ps(k \<mapsto> p')) ts"
  using assms unfolding registry_maps_def by (fastforce split: if_splits)

lemma registry_maps_insert:
  assumes "registry_maps pl ps ts" and "length (NodeKey p) = 32" and "k = base64Encode (NodeKey p)"
    and "ps k = None" and "prefix_Contains pl (TunnelIP p)" and "ts (addr_String (TunnelIP p)) = None"
  shows "registry_maps pl (ps(k \<mapsto> p)) (ts(addr_String (TunnelIP p) \<mapsto> k))"
  unfolding registry_maps_def
proof (intro conjI allI impI, goal_cases)
  case (1 k' p')
  with assms show ?case by (auto simp: registry_maps_def split: if_splits)
next
  case (2 k' p')
  with assms show ?case by (auto simp: registry_maps_def split: if_splits)
next
  case (3 k' p')
  with assms show ?case by (auto simp: registry_maps_def split: if_splits)
next
  case (4 k' p')
  with assms show ?case by (force simp: registry_maps_def split: if_splits)
next
  case (5 t k')
  with assms show ?case by (fastforce simp: registry_maps_def split: if_splits)
qed

lemmas alist_simps = update_conv' distinct_update delete_conv' distinct_delete

lemma Register_cases:
  obtains (failed) e where "Register h now et ctx p s = (Inl e, s)"
  | (existing) q where "ctx = None" and "length (NodeKey p) = 32"
      and "map_of (peers s) (base64Encode (NodeKey p)) = Some q"
      and "Register h now et ctx p s = (Inr (TunnelIP q), bumpEtagLocked h et
        (s\<lparr>peers := AList.update (base64Encode (NodeKey p))
           (q\<lparr>DiscoKey := DiscoKey p, Name := Name p, UpdatedAt := now\<rparr>) (peers s)\<rparr>))"
  | (fresh) ip where "ctx = None" and "length (NodeKey p) = 32"
      and "map_of (peers s) (base64Encode (NodeKey p)) = None" and "allocateIPLocked s = Inr ip"
      and "Register h now et ctx p s = (Inr ip, bumpEtagLocked h et
        (s\<lparr>peers := AList.update (base64Encode (NodeKey p)) (p\<lparr>TunnelIP := ip, UpdatedAt := now\<rparr>) (peers s),
           byTunnel := AList.update (addr_String ip) (base64Encode (NodeKey p)) (byTunnel s)\<rparr>))"
proof (cases ctx)
  case (Some e)
  then show thesis by (intro failed [of e]) (simp add: Register_def)
next
  case None
  show thesis
  proof (cases "length (NodeKey p) = 32")
    case False
    with None show thesis by (intro failed) (simp add: Register_def)
  next
    case True
    with None show thesis
      by (cases "map_of (peers s) (base64Encode (NodeKey p))"; cases "allocateIPLocked s")
        (auto simp: Register_def Let_def intro: failed existing fresh)
  qed
qed

lemma Register_registry_wf: "registry_wf s \<Longrightarrow> registry_wf (snd (Register h now et ctx p s))"
proof (cases rule: Register_cases [of h now et ctx p s])
  case (existing q)
  then show "registry_wf s \<Longrightarrow> ?thesis"
    by (simp add: registry_wf_def alist_simps registry_maps_update)
next
  case (fresh ip)
  then show "registry_wf s \<Longrightarrow> ?thesis"
    using registry_maps_insert [where p = "p\<lparr>TunnelIP := ip, UpdatedAt := now\<rparr>"]
    by (simp add: registry_wf_def alist_simps allocateIPLocked_Inr)
qed simp

lemma SetEndpoints_registry_wf:
  "registry_wf s \<Longrightarrow> registry_wf (snd (SetEndpoints h now et ctx k eps s))"
  by (auto simp: SetEndpoints_def registry_wf_def Let_def alist_simps
      intro!: registry_maps_update split: option.splits)

lemma chans_wf_bump: "chans_wf s \<Longrightarrow> chans_wf (bumpEtagLocked h t s)"
  by (auto simp: chans_wf_def less_Suc_eq)

lemma chans_wf_registry [simp]:
  "chans_wf (s\<lparr>peers := x\<rparr>) = chans_wf s"
  "chans_wf (s\<lparr>peers := x, byTunnel := y\<rparr>) = chans_wf s"
  "chans_wf (s\<lparr>signals := z\<rparr>) = chans_wf s"
  by (simp_all add: chans_wf_def)

lemma Register_chans_wf: "chans_wf s \<Longrightarrow> chans_wf (snd (Register h now et ctx p s))"
  by (cases rule: Register_cases [of h now et ctx p s]) (simp_all add: chans_wf_bump)

lemma SetEndpoints_chans_wf: "chans_wf s \<Longrightarrow> chans_wf (snd (SetEndpoints h now et ctx k eps s))"
  by (auto simp: SetEndpoints_def Let_def chans_wf_bump split: option.splits)

lemma EnqueueSignal_chans_wf: "chans_wf s \<Longrightarrow> chans_wf (snd (EnqueueSignal ctx k env s))"
  unfolding chans_wf_def
  by (auto simp: EnqueueSignal_def Let_def alist_simps split: option.splits if_splits)

lemma WaitForSignal_chans_wf: "chans_wf s \<Longrightarrow> chans_wf (snd (WaitForSignal k s))"
  unfolding chans_wf_def
  by (auto simp: WaitForSignal_def alist_simps less_Suc_eq split: option.splits if_splits)

lemma signals_of_simps [simp]:
  "signals_of (s\<lparr>peers := x\<rparr>) = signals_of s"
  "signals_of (s\<lparr>peers := x, byTunnel := y\<rparr>) = signals_of s"
  "signals_of (s\<lparr>signalWakes := z, nextChan := n\<rparr>) = signals_of s"
  "signals_of (bumpEtagLocked h t s) = signals_of s"
  "signals_of (close_chan c s) = signals_of s"
  "signals_of (s\<lparr>signals := AList.update k q (signals s), signalWakes := z\<rparr>) = (signals_of s)(k := q)"
  "signals_of (s\<lparr>signals := AList.delete k (signals s)\<rparr>) = (signals_of s)(k := [])"
  by (auto simp: signals_of_def alist_simps)

lemma length_enqueue_bounded: "0 < d \<Longrightarrow> length q \<le> d \<Longrightarrow> length (enqueue_bounded d q x) \<le> d"
  by (auto simp: enqueue_bounded_def)

lemma queues_wf_cong:
  "maxQueueDepth s' = maxQueueDepth s \<Longrightarrow> signals_of s' = signals_of s \<Longrightarrow> queues_wf s' = queues_wf s"
  by (simp add: queues_wf_def)

lemma Register_frame [simp]:
  "maxQueueDepth (snd (Register h now et ctx p s)) = maxQueueDepth s"
  "maxAge (snd (Register h now et ctx p s)) = maxAge s"
  "pool (snd (Register h now et ctx p s)) = pool s"
  "signals_of (snd (Register h now et ctx p s)) = signals_of s"
  "signalWakes (snd (Register h now et ctx p s)) = signalWakes s"
  by (cases rule: Register_cases [of h now et ctx p s]; simp)+

lemma SetEndpoints_frame [simp]:
  "maxQueueDepth (snd (SetEndpoints h now et ctx k eps s)) = maxQueueDepth s"
  "maxAge (snd (SetEndpoints h now et ctx k eps s)) = maxAge s"
  "pool (snd (SetEndpoints h now et ctx k eps s)) = pool s"
  "byTunnel (snd (SetEndpoints h now et ctx k eps s)) = byTunnel s"
  "signals_of (snd (SetEndpoints h now et ctx k eps s)) = signals_of s"
  "signalWakes (snd (SetEndpoints h now et ctx k eps s)) = signalWakes s"
  by (simp_all add: SetEndpoints_def Let_def split: option.splits)

lemma EnqueueSignal_frame [simp]:
  "maxQueueDepth (snd (EnqueueSignal ctx k env s)) = maxQueueDepth s"
  "maxAge (snd (EnqueueSignal ctx k env s)) = maxAge s"
  "pool (snd (EnqueueSignal ctx k env s)) = pool s"
  "peers (snd (EnqueueSignal ctx k env s)) = peers s"
  "byTunnel (snd (EnqueueSignal ctx k env s)) = byTunnel s"
  "peersEtag (snd (EnqueueSignal ctx k env s)) = peersEtag s"
  "peersBroad (snd (EnqueueSignal ctx k env s)) = peersBroad s"
  by (simp_all add: EnqueueSignal_def Let_def split: option.splits)

lemma PopSignals_frame [simp]:
  "maxQueueDepth (snd (PopSignals now ctx k s)) = maxQueueDepth s"
  "maxAge (snd (PopSignals now ctx k s)) = maxAge s"
  "pool (snd (PopSignals now ctx k s)) = pool s"
  "peers (snd (PopSignals now ctx k s)) = peers s"
  "byTunnel (snd (PopSignals now ctx k s)) = byTunnel s"
  "peersEtag (snd (PopSignals now ctx k s)) = peersEtag s"
  "peersBroad (snd (PopSignals now ctx k s)) = peersBroad s"
  "signalWakes (snd (PopSignals now ctx k s)) = signalWakes s"
  "closedChans (snd (PopSignals now ctx k s)) = closedChans s"
  "nextChan (snd (PopSignals now ctx k s)) = nextChan s"
  by (simp_all add: PopSignals_def split: option.splits)

lemma WaitForSignal_frame [simp]:
  "maxQueueDepth (snd (WaitForSignal k s)) = maxQueueDepth s"
  "maxAge (snd (WaitForSignal k s)) = maxAge s"
  "pool (snd (WaitForSignal k s)) = pool s"
  "peers (snd (WaitForSignal k s)) = peers s"
  "byTunnel (snd (WaitForSignal k s)) = byTunnel s"
  "peersEtag (snd (WaitForSignal k s)) = peersEtag s"
  "peersBroad (snd (WaitForSignal k s)) = peersBroad s"
  "signals_of (snd (WaitForSignal k s)) = signals_of s"
  "closedChans (snd (WaitForSignal k s)) = closedChans s"
  by (simp_all add: WaitForSignal_def split: option.splits)

lemma signals_of_EnqueueSignal [simp]:
  "signals_of (snd (EnqueueSignal background k env s)) =
     (signals_of s)(k := enqueue_bounded (maxQueueDepth s) (signals_of s k) env)"
  by (auto simp: EnqueueSignal_def Let_def split: option.splits)

lemma signals_of_PopSignals [simp]:
  "signals_of (snd (PopSignals now background k s)) = (signals_of s)(k := [])"
  by (simp add: PopSignals_def)

lemma EnqueueSignal_queues_wf: "queues_wf s \<Longrightarrow> queues_wf (snd (EnqueueSignal ctx k env s))"
  by (cases ctx) (simp_all add: queues_wf_def length_enqueue_bounded EnqueueSignal_def [of "Some _"])

lemma PopSignals_queues_wf: "queues_wf s \<Longrightarrow> queues_wf (snd (PopSignals now ctx k s))"
  by (cases ctx) (simp_all add: queues_wf_def PopSignals_def [of _ "Some _"])

lemma registry_wf_cong:
  "peers s' = peers s \<Longrightarrow> byTunnel s' = byTunnel s \<Longrightarrow> pool s' = pool s \<Longrightarrow> registry_wf s' = registry_wf s"
  by (simp add: registry_wf_def)

lemma chans_wf_PopSignals: "chans_wf s \<Longrightarrow> chans_wf (snd (PopSignals now ctx k s))"
  by (simp add: chans_wf_def)

lemma store_inv_Register: "store_inv s \<Longrightarrow> store_inv (snd (Register h now et ctx p s))"
  by (simp add: store_inv_def Register_registry_wf Register_chans_wf queues_wf_cong [of "snd (Register h now et ctx p s)" s])

lemma store_inv_SetEndpoints: "store_inv s \<Longrightarrow> store_inv (snd (SetEndpoints h now et ctx k eps s))"
  by (simp add: store_inv_def SetEndpoints_registry_wf SetEndpoints_chans_wf
      queues_wf_cong [of "snd (SetEndpoints h now et ctx k eps s)" s])

lemma store_inv_EnqueueSignal: "store_inv s \<Longrightarrow> store_inv (snd (EnqueueSignal ctx k env s))"
  by (simp add: store_inv_def EnqueueSignal_queues_wf EnqueueSignal_chans_wf
      registry_wf_cong [of "snd (EnqueueSignal ctx k env s)" s])

lemma store_inv_PopSignals: "store_inv s \<Longrightarrow> store_inv (snd (PopSignals now ctx k s))"
  by (simp add: store_inv_def PopSignals_queues_wf chans_wf_PopSignals
      registry_wf_cong [of "snd (PopSignals now ctx k s)" s])

lemma store_inv_WaitForSignal: "store_inv s \<Longrightarrow> store_inv (snd (WaitForSignal k s))"
  by (simp add: store_inv_def WaitForSignal_chans_wf registry_wf_cong [of "snd (WaitForSignal k s)" s]
      queues_wf_cong [of "snd (WaitForSignal k s)" s])

lemma store_inv_NewMemStore: "store_inv (NewMemStore h now p)"
  by (simp add: store_inv_def NewMemStore_def registry_wf_def registry_maps_def chans_wf_def
      queues_wf_def signals_of_def)

lemmas store_inv_ops = store_inv_Register store_inv_SetEndpoints store_inv_EnqueueSignal
  store_inv_PopSignals store_inv_WaitForSignal

lemma store_step_inv: "store_step s s' \<Longrightarrow> store_inv s \<Longrightarrow> store_inv s'"
  by (induction rule: store_step.induct) (metis store_inv_ops snd_conv)+

lemma store_reachable_inv: "store_reachable s \<Longrightarrow> store_inv s"
  by (induction rule: store_reachable.induct) (auto intro: store_inv_NewMemStore store_step_inv)

section \<open>The bounded queue as an interface\<close>

lemma drop_window_snoc:
  assumes "0 < d"
  shows "drop (Suc (length (drop (length ys - d) ys)) - d) (drop (length ys - d) ys @ [x]) =
    drop (length (ys @ [x]) - d) (ys @ [x])"
proof (cases "length ys < d")
  case False
  with assms have "Suc (length ys - (length ys - d)) - d = 1" by simp
  with False assms show ?thesis by (simp add: Suc_diff_le)
qed simp

text \<open>What a relay queue promises: an enqueue appends, and a full queue forgets its oldest
  element. The client lemma says what any burst of enqueues leaves in the queue.\<close>

locale bounded_fifo =
  fixes enq :: "'q \<Rightarrow> 'a \<Rightarrow> 'q" and contents :: "'q \<Rightarrow> 'a list" and inv :: "'q \<Rightarrow> bool" and depth :: nat
  assumes depth_pos: "0 < depth"
    and inv_enq: "inv q \<Longrightarrow> inv (enq q x)"
    and contents_enq: "inv q \<Longrightarrow> contents (enq q x) = enqueue_bounded depth (contents q) x"
    and bounded: "inv q \<Longrightarrow> length (contents q) \<le> depth"
begin

lemma contents_enq_drop:
  "inv q \<Longrightarrow> contents (enq q x) = drop (Suc (length (contents q)) - depth) (contents q @ [x])"
  using bounded [of q] depth_pos by (auto simp: contents_enq enqueue_bounded_def)

lemma contents_burst:
  "inv q \<Longrightarrow> inv (foldl enq q xs) \<and>
     contents (foldl enq q xs) = drop (length (contents q @ xs) - depth) (contents q @ xs)"
proof (induction xs rule: rev_induct)
  case Nil
  then show ?case using bounded [of q] by simp
next
  case (snoc x xs)
  then have "inv (foldl enq q xs)" by simp
  with snoc have "contents (foldl enq q (xs @ [x])) =
      drop (Suc (length (drop (length (contents q @ xs) - depth) (contents q @ xs))) - depth)
        (drop (length (contents q @ xs) - depth) (contents q @ xs) @ [x])"
    by (simp only: foldl_append foldl.simps contents_enq_drop)
  also have "\<dots> = drop (length ((contents q @ xs) @ [x]) - depth) ((contents q @ xs) @ [x])"
    by (rule drop_window_snoc [OF depth_pos])
  finally show ?case using \<open>inv (foldl enq q xs)\<close> by (simp add: inv_enq)
qed

end

interpretation sigq: bounded_fifo "\<lambda>s env. snd (EnqueueSignal background k env s)"
  "\<lambda>s. signals_of s k" "\<lambda>s. store_inv s \<and> maxQueueDepth s = Suc d" "Suc d" for k d
proof unfold_locales
  fix s assume "store_inv s \<and> maxQueueDepth s = Suc d"
  then show "length (signals_of s k) \<le> Suc d"
    by (metis store_inv_def queues_wf_def)
qed (simp_all add: store_inv_EnqueueSignal)

section \<open>Facts about runs\<close>

lemma rtranclp_store_inv: "store_step\<^sup>*\<^sup>* s s' \<Longrightarrow> store_inv s \<Longrightarrow> store_inv s'"
  by (induction rule: rtranclp_induct) (auto intro: store_step_inv)

definition ip_of_key :: "memstore \<Rightarrow> string \<Rightarrow> addr option" where
  "ip_of_key s k = map_option TunnelIP (map_of (peers s) k)"

lemma Register_ip_of_key:
  "ip_of_key s k = Some ip \<Longrightarrow> ip_of_key (snd (Register h now et ctx p s)) k = Some ip"
  by (cases rule: Register_cases [of h now et ctx p s]) (auto simp: ip_of_key_def alist_simps)

lemma SetEndpoints_ip_of_key:
  "ip_of_key s k = Some ip \<Longrightarrow> ip_of_key (snd (SetEndpoints h now et ctx nk eps s)) k = Some ip"
  by (auto simp: SetEndpoints_def Let_def ip_of_key_def alist_simps split: option.splits)

lemma store_step_ip_of_key: "store_step s s' \<Longrightarrow> ip_of_key s k = Some ip \<Longrightarrow> ip_of_key s' k = Some ip"
proof (induction rule: store_step.induct)
  case (register h now etagNow ctx p s r s')
  then show ?case by (metis Register_ip_of_key snd_conv)
next
  case (set_endpoints h now etagNow ctx k eps s r s')
  then show ?case by (metis SetEndpoints_ip_of_key snd_conv)
next
  case (enqueue ctx k env s r s')
  then show ?case by (metis EnqueueSignal_frame(4) ip_of_key_def snd_conv)
next
  case (pop now ctx k s r s')
  then show ?case by (metis PopSignals_frame(4) ip_of_key_def snd_conv)
next
  case (wait_signal k s w s')
  then show ?case by (metis WaitForSignal_frame(4) ip_of_key_def snd_conv)
qed

lemma rtranclp_ip_of_key: "store_step\<^sup>*\<^sup>* s s' \<Longrightarrow> ip_of_key s k = Some ip \<Longrightarrow> ip_of_key s' k = Some ip"
  by (induction rule: rtranclp_induct) (auto intro: store_step_ip_of_key)

lemma Register_Inr_ip:
  "Register h now et ctx p s = (Inr ip, s') \<Longrightarrow>
     ctx = background \<and> length (NodeKey p) = 32 \<and> ip_of_key s' (base64Encode (NodeKey p)) = Some ip"
  by (cases rule: Register_cases [of h now et ctx p s]) (auto simp: ip_of_key_def alist_simps)

lemma Register_known_ip:
  "ip_of_key s (base64Encode (NodeKey p)) = Some ip \<Longrightarrow> length (NodeKey p) = 32 \<Longrightarrow>
     fst (Register h now et background p s) = Inr ip"
  by (auto simp: Register_def ip_of_key_def Let_def)

text \<open>A poll blocked on a channel: the channel is closed, or nothing it waits for has
  happened yet.\<close>

definition signal_pending :: "key32 \<Rightarrow> chan \<Rightarrow> memstore \<Rightarrow> bool" where
  "signal_pending k c s \<longleftrightarrow>
     c \<in> set (closedChans s) \<or> map_of (signalWakes s) k = Some c \<and> signals_of s k = []"

definition peers_pending :: "(string \<times> peer) list \<Rightarrow> chan \<Rightarrow> memstore \<Rightarrow> bool" where
  "peers_pending ps c s \<longleftrightarrow> c \<in> set (closedChans s) \<or> peersBroad s = c \<and> peers s = ps"

lemma Register_pending:
  "signal_pending k c s \<Longrightarrow> signal_pending k c (snd (Register h now et ctx p s))"
  "peers_pending ps c s \<Longrightarrow> peers_pending ps c (snd (Register h now et ctx p s))"
  by (cases rule: Register_cases [of h now et ctx p s];
      auto simp: signal_pending_def peers_pending_def)+

lemma SetEndpoints_pending:
  "signal_pending k c s \<Longrightarrow> signal_pending k c (snd (SetEndpoints h now et ctx nk eps s))"
  "peers_pending ps c s \<Longrightarrow> peers_pending ps c (snd (SetEndpoints h now et ctx nk eps s))"
  by (auto simp: SetEndpoints_def Let_def signal_pending_def peers_pending_def split: option.splits)

lemma EnqueueSignal_pending:
  "signal_pending k c s \<Longrightarrow> signal_pending k c (snd (EnqueueSignal ctx k' env s))"
  "peers_pending ps c s \<Longrightarrow> peers_pending ps c (snd (EnqueueSignal ctx k' env s))"
  by (cases "k' = k"; auto simp: EnqueueSignal_def Let_def signal_pending_def peers_pending_def
      alist_simps split: option.splits)+

lemma PopSignals_pending:
  "signal_pending k c s \<Longrightarrow> signal_pending k c (snd (PopSignals now ctx k' s))"
  "peers_pending ps c s \<Longrightarrow> peers_pending ps c (snd (PopSignals now ctx k' s))"
  by (auto simp: PopSignals_def signal_pending_def peers_pending_def split: option.splits)

lemma WaitForSignal_pending:
  "signal_pending k c s \<Longrightarrow> signal_pending k c (snd (WaitForSignal k' s))"
  "peers_pending ps c s \<Longrightarrow> peers_pending ps c (snd (WaitForSignal k' s))"
  by (auto simp: WaitForSignal_def signal_pending_def peers_pending_def alist_simps
      split: option.splits)

lemmas pending_ops = Register_pending SetEndpoints_pending EnqueueSignal_pending
  PopSignals_pending WaitForSignal_pending

lemma store_step_pending:
  "store_step s s' \<Longrightarrow> signal_pending k c s \<Longrightarrow> signal_pending k c s'"
  "store_step s s' \<Longrightarrow> peers_pending ps c s \<Longrightarrow> peers_pending ps c s'"
  by (induction rule: store_step.induct) (metis pending_ops snd_conv)+

lemma rtranclp_pending:
  "store_step\<^sup>*\<^sup>* s s' \<Longrightarrow> signal_pending k c s \<Longrightarrow> signal_pending k c s'"
  "store_step\<^sup>*\<^sup>* s s' \<Longrightarrow> peers_pending ps c s \<Longrightarrow> peers_pending ps c s'"
  by (induction rule: rtranclp_induct) (auto intro: store_step_pending)

lemma WaitForSignal_blocked: "WaitForSignal k s = (BlockedOn c, s') \<Longrightarrow> signal_pending k c s'"
  by (auto simp: WaitForSignal_def signal_pending_def alist_simps split: if_splits option.splits)

lemma WaitForPeersChange_blocked: "WaitForPeersChange since s = BlockedOn c \<Longrightarrow> peers_pending (peers s) c s"
  by (auto simp: WaitForPeersChange_def peers_pending_def split: if_splits)

lemma inj_TunnelIP: "registry_wf s \<Longrightarrow> inj_on TunnelIP (snd ` set (peers s))"
  by (rule inj_onI) (auto simp: registry_wf_def registry_maps_def,
   metis map_of_eq_Some_iff option.inject)

lemma registry_wfD:
  "registry_wf s \<Longrightarrow> map_of (peers s) k = Some p \<Longrightarrow>
     k = base64Encode (NodeKey p) \<and> length (NodeKey p) = 32 \<and> prefix_Contains (pool s) (TunnelIP p)"
  unfolding registry_wf_def registry_maps_def by blast

section \<open>Concrete stores for the witnesses\<close>

definition demo_hash :: hash_fn where
  "demo_hash bs = map (\<lambda>i. of_nat (length bs + i)) [0..<32]"

definition demo_pool :: prefix where
  "demo_pool = Prefix (Addr4 0x0A000000) 30"

definition demo_peer :: "byte \<Rightarrow> peer" where
  "demo_peer b = \<lparr>NodeKey = replicate 32 b, DiscoKey = replicate 32 (b + 100), Name = ''n'',
     TunnelIP = AddrZero, Endpoints = [], UpdatedAt = 0\<rparr>"

definition demo_empty :: memstore where
  "demo_empty = NewMemStore demo_hash 0 demo_pool"

definition demo_one :: memstore where
  "demo_one = snd (Register demo_hash 5 5 background (demo_peer 1) demo_empty)"

lemma demo_alloc: "allocateIPLocked demo_empty = Inr (Addr4 0x0A000001)"
  by (simp add: demo_empty_def NewMemStore_def allocateIPLocked_def demo_pool_def pool_base_def
      alloc_loop.simps)

lemma demo_fields [simp]:
  "peers demo_empty = []" "byTunnel demo_empty = []" "pool demo_empty = demo_pool"
  "NodeKey (demo_peer b) = replicate 32 b" "DiscoKey (demo_peer b) = replicate 32 (b + 100)"
  by (simp_all add: demo_empty_def NewMemStore_def demo_peer_def)

lemma demo_one_eq:
  "demo_one = bumpEtagLocked demo_hash 5 (demo_empty\<lparr>
     peers := [(base64Encode (replicate 32 1), (demo_peer 1)\<lparr>TunnelIP := Addr4 0x0A000001, UpdatedAt := 5\<rparr>)],
     byTunnel := [(addr_String (Addr4 0x0A000001), base64Encode (replicate 32 1))]\<rparr>)"
  by (simp add: demo_one_def Register_def demo_alloc Let_def del: addr_String.simps)

lemma demo_register: "Register demo_hash 5 5 background (demo_peer 1) demo_empty = (Inr (Addr4 0x0A000001), demo_one)"
  by (simp add: demo_one_def Register_def demo_alloc Let_def del: addr_String.simps)

lemma demo_reachable: "store_reachable demo_empty" "store_reachable demo_one"
proof -
  show e: "store_reachable demo_empty"
    unfolding demo_empty_def by (rule store_reachable.start)
  show "store_reachable demo_one"
    by (rule store_reachable.step [OF e store_step.register [OF demo_register]])
qed

section \<open>Properties\<close>

text \<open>C1: In every store reachable from the empty one by the operations, two registry entries
  with the same tunnel address are the same entry; the address lies in the pool and the
  entry is filed under its own 32-byte node key.\<close>

theorem registry_addresses_unique:
  assumes "store_reachable s" and "(k1, p1) \<in> set (peers s)" and "(k2, p2) \<in> set (peers s)"
    and "TunnelIP p1 = TunnelIP p2"
  shows "k1 = k2 \<and> p1 = p2 \<and> prefix_Contains (pool s) (TunnelIP p1) \<and>
    k1 = base64Encode (NodeKey p1) \<and> length (NodeKey p1) = 32"
proof -
  have wf: "registry_wf s" using store_reachable_inv [OF assms(1)] by (simp add: store_inv_def)
  then have k: "map_of (peers s) k1 = Some p1" "map_of (peers s) k2 = Some p2"
    using assms(2,3) by (simp_all add: registry_wf_def)
  then have "p1 = p2"
    using inj_onD [OF inj_TunnelIP [OF wf] assms(4)] assms(2,3) by force
  with registry_wfD [OF wf k(1)] registry_wfD [OF wf k(2)] show ?thesis by metis
qed

theorem registry_addresses_unique_witness:
  "store_reachable demo_one \<and>
   (\<exists>k p. (k, p) \<in> set (peers demo_one) \<and> prefix_Contains (pool demo_one) (TunnelIP p) \<and> length (NodeKey p) = 32)"
proof -
  have "\<exists>k p. (k, p) \<in> set (peers demo_one)"
    by (simp add: demo_one_eq)
  then obtain k p where kp: "(k, p) \<in> set (peers demo_one)" by blast
  from registry_addresses_unique [OF demo_reachable(2) kp kp refl] kp demo_reachable(2)
  show ?thesis by blast
qed

text \<open>C13: A node keeps its tunnel address: once a registration has returned an address, any
  later registration of the same node key returns the same address, whatever
  registrations, endpoint updates and signals came between.\<close>

theorem tunnel_ip_stable:
  assumes "Register h now et ctx p s = (Inr ip, s1)" and "store_step\<^sup>*\<^sup>* s1 s2"
    and "NodeKey p' = NodeKey p"
  shows "fst (Register h' now' et' background p' s2) = Inr ip"
proof -
  from Register_Inr_ip [OF assms(1)] have "length (NodeKey p) = 32"
    and "ip_of_key s1 (base64Encode (NodeKey p)) = Some ip" by auto
  with rtranclp_ip_of_key [OF assms(2)] assms(3) show ?thesis
    by (simp add: Register_known_ip)
qed

theorem tunnel_ip_stable_witness:
  "fst (Register demo_hash 9 9 background ((demo_peer 1)\<lparr>Name := ''renamed''\<rparr>) demo_one) = Inr (Addr4 0x0A000001)"
  by (rule tunnel_ip_stable [OF demo_register rtranclp.rtrancl_refl]) simp

subsection \<open>The allocation on IPv4 pools\<close>

definition free_host :: "memstore \<Rightarrow> 32 word \<Rightarrow> bool" where
  "free_host s a \<longleftrightarrow> prefix_Contains (pool s) (Addr4 a) \<and> prefix_Contains (pool s) (addr_Next (Addr4 a)) \<and>
     map_of (byTunnel s) (addr_String (Addr4 a)) = None"

definition least_free_host :: "memstore \<Rightarrow> 32 word \<Rightarrow> 32 word \<Rightarrow> bool" where
  "least_free_host s b a \<longleftrightarrow> b < a \<and> free_host s a \<and> (\<forall>u. b < u \<and> u < a \<longrightarrow> \<not> free_host s u)"

lemma least_free_host_unique: "least_free_host s b a \<Longrightarrow> least_free_host s b a' \<Longrightarrow> a = a'"
  unfolding least_free_host_def by (metis linorder_neqE)

lemma alloc_start_above: "addr_Next (Addr4 b) = Addr4 w \<Longrightarrow> b < w \<and> (\<forall>u. b < u \<longrightarrow> w \<le> u)"
  by (auto split: if_splits intro: word_less_next(1) [OF _ order_refl]) unat_arith

lemma alloc_loop_ge: "alloc_loop p taken (Addr4 w) = Some (Addr4 a) \<Longrightarrow> w \<le> a"
proof (induction p taken "Addr4 w" arbitrary: w rule: alloc_loop.induct)
  case (1 p taken w)
  show ?case
  proof (cases "map_of taken (addr_String (Addr4 w)) = None")
    case True
    with "1.prems" show ?thesis
      by (auto simp: alloc_loop.simps [of p taken "Addr4 w"] split: if_splits)
  next
    case False
    with "1.prems" have c: "prefix_Contains p (Addr4 w)"
      and rec: "alloc_loop p taken (addr_Next (Addr4 w)) = Some (Addr4 a)"
      by (simp_all add: alloc_loop.simps [of p taken "Addr4 w"] split: if_splits)
    then have ov: "w + 1 \<noteq> 0"
      by (auto simp: alloc_loop.simps [of p taken AddrZero] split: if_splits dest: prefix_Contains_valid)
    with "1.hyps" [OF c] False rec have "w + 1 \<le> a" by simp
    with ov show ?thesis by unat_arith
  qed
qed

lemma alloc_Some:
  assumes "pool s = Prefix (Addr4 b) n"
    and "alloc_loop (pool s) (byTunnel s) (addr_Next (Addr4 b)) = Some ip"
  shows "\<exists>a. ip = Addr4 a \<and> least_free_host s b a"
proof -
  note hit = alloc_loop_Some [OF assms(2)]
  obtain a where a: "ip = Addr4 a" using hit assms(1) by (cases ip) auto
  obtain w where w: "addr_Next (Addr4 b) = Addr4 w"
    using assms by (cases "b + 1 = 0") (auto simp: alloc_loop.simps [of _ _ AddrZero])
  note loop = assms(2) [unfolded w a]
  have "b < a" using alloc_start_above [OF w] alloc_loop_ge [OF loop] by auto
  moreover have "\<not> free_host s u" if "b < u" "u < a" for u
    using alloc_loop_minimal [OF loop _ that(2)] alloc_start_above [OF w] that(1)
    by (auto simp: free_host_def)
  ultimately show ?thesis using hit a by (auto simp: least_free_host_def free_host_def)
qed

lemma alloc_None:
  assumes "pool s = Prefix (Addr4 b) n"
    and "alloc_loop (pool s) (byTunnel s) (addr_Next (Addr4 b)) = None" and "b < a"
  shows "\<not> free_host s a"
proof -
  have "b + 1 \<noteq> 0" using word_less_next(2) [OF assms(3) order_refl] .
  then have w: "addr_Next (Addr4 b) = Addr4 (b + 1)" by simp
  from alloc_loop_None [of b n "byTunnel s" "b + 1" a] assms w alloc_start_above [OF w]
  show ?thesis by (auto simp: free_host_def)
qed

text \<open>C14: On an IPv4 pool the allocation returns the least address above the pool's base that is
  in the pool, is not the pool's last address and is not taken, and it reports exhaustion
  exactly when there is no such address.\<close>

theorem allocation_least:
  assumes "pool s = Prefix (Addr4 b) n"
  shows "(allocateIPLocked s = Inr ip \<longleftrightarrow> (\<exists>a. ip = Addr4 a \<and> least_free_host s b a)) \<and>
    ((\<exists>e. allocateIPLocked s = Inl e) \<longleftrightarrow> (\<forall>a. b < a \<longrightarrow> \<not> free_host s a))"
proof (cases "alloc_loop (pool s) (byTunnel s) (addr_Next (Addr4 b))")
  case None
  with alloc_None [OF assms] show ?thesis
    by (auto simp: allocateIPLocked_def assms pool_base_def least_free_host_def)
next
  case (Some ip')
  from alloc_Some [OF assms Some] obtain a where a: "ip' = Addr4 a" "least_free_host s b a" by blast
  have "allocateIPLocked s = Inr (Addr4 a)"
    using Some a(1) by (simp add: allocateIPLocked_def assms pool_base_def)
  with a show ?thesis
    by (auto dest: least_free_host_unique) (auto simp: least_free_host_def)
qed

theorem allocation_least_witness:
  "pool demo_empty = Prefix (Addr4 0x0A000000) 30 \<and> least_free_host demo_empty 0x0A000000 0x0A000001"
proof -
  have p: "pool demo_empty = Prefix (Addr4 0x0A000000) 30" by (simp add: demo_pool_def)
  from allocation_least [OF p, of "Addr4 0x0A000001"] demo_alloc p show ?thesis by auto
qed

subsection \<open>Listing, long polls and the relay queue\<close>

lemma distinct_peers: "registry_wf s \<Longrightarrow> distinct (map snd (peers s)) \<and> inj_on TunnelIP (set (map snd (peers s)))"
proof -
  assume wf: "registry_wf s"
  have "inj_on snd (set (peers s))"
  proof (rule inj_onI)
    fix x y assume xy: "x \<in> set (peers s)" "y \<in> set (peers s)" "snd x = snd y"
    have "map_of (peers s) (fst x) = Some (snd x)" "map_of (peers s) (fst y) = Some (snd y)"
      using wf xy(1,2) by (simp_all add: registry_wf_def)
    with xy(3) registry_wfD [OF wf] show "x = y" by (metis prod.collapse)
  qed
  with wf inj_TunnelIP [OF wf] show ?thesis
    by (simp add: distinct_map registry_wf_def)
qed

lemma Peers_listing:
  assumes "registry_wf s"
  shows "\<exists>ps. Peers background s = Inr (ps, peersEtag s) \<and> sorted_wrt (<) (map TunnelIP ps) \<and>
    set ps = snd ` set (peers s)"
proof -
  have "distinct (map TunnelIP (sort_key TunnelIP (map snd (peers s))))"
    using distinct_peers [OF assms] by (simp add: distinct_map)
  then have "sorted_wrt (<) (map TunnelIP (sort_key TunnelIP (map snd (peers s))))"
    by (simp add: strict_sorted_iff)
  then show ?thesis by (simp add: Peers_def Peers_in_def)
qed

text \<open>Although Go visits a map in an arbitrary order, the peer list that \<open>Peers\<close> returns does not
  depend on that order: every rearrangement of the registry's entries gives the same list,
  strictly increasing in the tunnel address.\<close>

theorem peers_listing_deterministic:
  assumes "store_reachable s" and "mset visit = mset (peers s)"
  shows "Peers_in background visit s = Peers background s \<and>
    (\<exists>ps. Peers background s = Inr (ps, peersEtag s) \<and> sorted_wrt (<) (map TunnelIP ps) \<and>
          set ps = snd ` set (peers s))"
proof -
  have wf: "registry_wf s" using store_reachable_inv [OF assms(1)] by (simp add: store_inv_def)
  note d = distinct_peers [OF wf]
  let ?ps = "sort_key TunnelIP (map snd (peers s))"
  have m: "mset (map snd visit) = mset (map snd (peers s))"
    using assms(2) by simp
  have "sort_key TunnelIP (map snd visit) = ?ps"
    by (rule sort_key_inj_key_eq) (use d m mset_eq_setD [OF m] in auto)
  with Peers_listing [OF wf] show ?thesis by (simp add: Peers_def Peers_in_def)
qed

theorem peers_listing_deterministic_witness:
  "store_reachable demo_one \<and> Peers_in background (rev (peers demo_one)) demo_one = Peers background demo_one"
  using peers_listing_deterministic [OF demo_reachable(2), of "rev (peers demo_one)"] demo_reachable(2) by simp

text \<open>C15: No wake-up is lost for signals: if a poll for a recipient blocks on a channel and some
  later state has an envelope queued for that recipient, the channel has been closed, so
  the poll can return without an error.\<close>

theorem signal_wakeup:
  assumes "WaitForSignal k s = (BlockedOn c, s1)" and "store_step\<^sup>*\<^sup>* s1 s2"
    and "signals_of s2 k \<noteq> []"
  shows "Inr () \<in> set (wait_results ctx (BlockedOn c) s2)"
  using rtranclp_pending(1) [OF assms(2) WaitForSignal_blocked [OF assms(1)]] assms(3)
  by (simp add: signal_pending_def wait_results_def)

definition demo_env :: envelope where
  "demo_env = \<lparr>From = replicate 32 0, Sealed = [1, 2, 3], Enqueue = 7\<rparr>"

theorem signal_wakeup_witness:
  "\<exists>c s1. WaitForSignal [9] demo_one = (BlockedOn c, s1) \<and>
     Inr () \<in> set (wait_results background (BlockedOn c) (snd (EnqueueSignal background [9] demo_env s1)))"
proof -
  have w: "WaitForSignal [9] demo_one = (BlockedOn (nextChan demo_one), snd (WaitForSignal [9] demo_one))"
    by (simp add: WaitForSignal_def signals_of_def demo_one_eq) (simp add: demo_empty_def NewMemStore_def)
  let ?s1 = "snd (WaitForSignal [9] demo_one)"
  let ?s2 = "snd (EnqueueSignal background [9] demo_env ?s1)"
  have "store_step\<^sup>*\<^sup>* ?s1 ?s2"
    by (rule r_into_rtranclp, rule store_step.enqueue) (rule surjective_pairing)
  moreover have "signals_of ?s2 [9] \<noteq> []" by (simp add: enqueue_bounded_def)
  ultimately show ?thesis using signal_wakeup [OF w] w by blast
qed

text \<open>C16: No wake-up is lost for the registry: a poll that blocked because the etag was current is
  released by every change of the registry.\<close>

theorem peers_wakeup:
  assumes "WaitForPeersChange since s = BlockedOn c" and "store_step\<^sup>*\<^sup>* s s2" and "peers s2 \<noteq> peers s"
  shows "Inr () \<in> set (wait_results ctx (BlockedOn c) s2)"
  using rtranclp_pending(2) [OF assms(2) WaitForPeersChange_blocked [OF assms(1)]] assms(3)
  by (simp add: peers_pending_def wait_results_def)

theorem peers_wakeup_witness:
  "\<exists>c. WaitForPeersChange (peersEtag demo_empty) demo_empty = BlockedOn c \<and>
     Inr () \<in> set (wait_results background (BlockedOn c) demo_one)"
proof -
  have w: "WaitForPeersChange (peersEtag demo_empty) demo_empty = BlockedOn (peersBroad demo_empty)"
    by (simp add: WaitForPeersChange_def)
  have "store_step\<^sup>*\<^sup>* demo_empty demo_one"
    by (rule r_into_rtranclp, rule store_step.register, rule demo_register)
  moreover have "peers demo_one \<noteq> peers demo_empty" by (simp add: demo_one_eq)
  ultimately show ?thesis using peers_wakeup [OF w] w by blast
qed

text \<open>C17: In no reachable store has a channel been closed twice, and the channels that the next
  operation may close (the registry broadcast and every registered wake channel) are still
  open, so \<open>close\<close> never panics.\<close>

theorem channels_closed_once:
  assumes "store_reachable s"
  shows "distinct (closedChans s) \<and> peersBroad s \<notin> set (closedChans s) \<and>
    (\<forall>k c. map_of (signalWakes s) k = Some c \<longrightarrow> c \<notin> set (closedChans s) \<and> c \<noteq> peersBroad s)"
  using store_reachable_inv [OF assms] by (auto simp: store_inv_def chans_wf_def)

theorem channels_closed_once_witness:
  "store_reachable demo_one \<and> distinct (closedChans demo_one) \<and> peersBroad demo_one \<notin> set (closedChans demo_one)"
  using channels_closed_once [OF demo_reachable(2)] demo_reachable(2) by simp

definition enqueue_all :: "key32 \<Rightarrow> envelope list \<Rightarrow> memstore \<Rightarrow> memstore" where
  "enqueue_all k envs s = foldl (\<lambda>s env. snd (EnqueueSignal background k env s)) s envs"

lemma enqueue_all_frame: "maxAge (enqueue_all k envs s) = maxAge s"
  by (induction envs rule: rev_induct) (simp_all add: enqueue_all_def)

lemma enqueue_all_other: "k' \<noteq> k \<Longrightarrow> signals_of (enqueue_all k envs s) k' = signals_of s k'"
  by (induction envs rule: rev_induct) (simp_all add: enqueue_all_def)

lemma enqueue_all_contents:
  assumes "store_inv s" and "signals_of s k = []"
  shows "signals_of (enqueue_all k envs s) k = drop (length envs - maxQueueDepth s) envs"
proof -
  from assms(1) obtain d where "maxQueueDepth s = Suc d"
    by (metis gr0_implies_Suc queues_wf_def store_inv_def)
  with assms show ?thesis
    using sigq.contents_burst [of s d k envs] by (simp add: enqueue_all_def)
qed

text \<open>C18: A burst of signals to one recipient is a bounded queue: from a store whose queue for the
  recipient is empty, any number of enqueues followed by a pop yields, in order of
  arrival, those of the last \<open>maxQueueDepth\<close> envelopes that are younger than \<open>maxAge\<close>; a second pop
  yields nothing, and the queues of other recipients are untouched.\<close>

theorem relay_burst:
  assumes "store_reachable s" and "signals_of s k = []"
    and "PopSignals now background k (enqueue_all k envs s) = (r, s')"
  shows "r = Inr (filter (\<lambda>e. now - maxAge s < Enqueue e) (drop (length envs - maxQueueDepth s) envs)) \<and>
    fst (PopSignals now' background k s') = Inr [] \<and>
    (\<forall>k'. k' \<noteq> k \<longrightarrow> signals_of s' k' = signals_of s k')"
proof -
  have "signals_of (enqueue_all k envs s) k = drop (length envs - maxQueueDepth s) envs"
    by (rule enqueue_all_contents [OF store_reachable_inv [OF assms(1)] assms(2)])
  with assms(3) show ?thesis
    by (auto simp: PopSignals_def enqueue_all_frame enqueue_all_other)
qed

theorem relay_burst_witness:
  "fst (PopSignals 8 background [9] (enqueue_all [9] (replicate 70 demo_env) demo_one)) = Inr (replicate 64 demo_env)"
proof -
  let ?pop = "PopSignals 8 background [9] (enqueue_all [9] (replicate 70 demo_env) demo_one)"
  have e: "signals_of demo_one [9] = []" "maxQueueDepth demo_one = 64" "maxAge demo_one = 30 * second"
    by (simp_all add: demo_one_eq signals_of_def) (simp_all add: demo_empty_def NewMemStore_def)
  from relay_burst [OF demo_reachable(2) e(1) surjective_pairing [of ?pop]] e
  show ?thesis by (simp add: demo_env_def time_defs)
qed

text \<open>The etag is a function of the clock only: two registrations of different nodes whose etag is
  made from the same clock reading leave the same etag, so a poll that presents the etag
  of the first blocks although the registry has changed since.\<close>

theorem etag_collision_hides_change:
  assumes "Register h now1 t background p s = (Inr ip1, s1)"
    and "Register h now2 t background q s1 = (Inr ip2, s2)"
    and "map_of (peers s1) (base64Encode (NodeKey q)) = None"
  shows "peers s2 \<noteq> peers s1 \<and> WaitForPeersChange (peersEtag s1) s2 = BlockedOn (peersBroad s2)"
proof -
  have "peersEtag s1 = newEtag h t"
    using assms(1) by (cases rule: Register_cases [of h now1 t background p s]) auto
  moreover have "peersEtag s2 = newEtag h t"
    using assms(2) by (cases rule: Register_cases [of h now2 t background q s1]) auto
  moreover have "map_of (peers s2) (base64Encode (NodeKey q)) \<noteq> None"
    using Register_Inr_ip [OF assms(2)] by (auto simp: ip_of_key_def)
  ultimately show ?thesis using assms(3) by (auto simp: WaitForPeersChange_def)
qed

definition demo_two :: memstore where
  "demo_two = snd (Register demo_hash 6 5 background (demo_peer 2) demo_one)"

lemma demo_register_two:
  "Register demo_hash 6 5 background (demo_peer 2) demo_one = (Inr (Addr4 0x0A000002), demo_two)"
proof -
  have "allocateIPLocked demo_one = Inr (Addr4 0x0A000002)"
    by (simp add: demo_one_eq allocateIPLocked_def demo_pool_def pool_base_def alloc_loop.simps
        del: addr_String.simps)
  then show ?thesis
    by (simp add: demo_two_def Register_def Let_def demo_one_eq [THEN arg_cong, of peers])
qed

theorem etag_collision_witness:
  "WaitForPeersChange (peersEtag demo_one) demo_two = BlockedOn (peersBroad demo_two) \<and> peers demo_two \<noteq> peers demo_one"
  using etag_collision_hides_change [OF demo_register demo_register_two] by (simp add: demo_one_eq)

end
