(* ===== verification/Coord_Spec.thy ===== *)
theory Coord_Spec
  imports Coord_Store
begin

text \<open>
  What the coordinator's store promises, and that \<open>MemStore\<close> keeps it. The specification is a
  directory of nodes and a mailbox per recipient: no index by address, no text keys, no
  channels and no etags. A node gets the least assignable address of an IPv4 pool and keeps
  it; a mailbox keeps the last envelopes; a listing is ordered by address. The refinement
  theorem says that every sequence of calls of the store, with its answers, is a sequence of
  the specification.
\<close>

section \<open>The specification\<close>

record directory =
  dir_base :: u32
  dir_len :: nat
  dir_nodes :: "key32 \<rightharpoonup> peer"
  dir_mail :: "key32 \<Rightarrow> envelope list"
  dir_depth :: nat
  dir_age :: duration

definition in_pool :: "directory \<Rightarrow> addr \<Rightarrow> bool" where
  "in_pool d a = prefix_Contains (Prefix (Addr4 (dir_base d)) (dir_len d)) a"

text \<open>An address is assignable when it lies in the pool above the base, is not the last one and no
  node has it.\<close>

definition assignable :: "directory \<Rightarrow> u32 \<Rightarrow> bool" where
  "assignable d a =
     (dir_base d < a \<and> in_pool d (Addr4 a) \<and> in_pool d (addr_Next (Addr4 a)) \<and>
      (\<forall>k p. dir_nodes d k = Some p \<longrightarrow> TunnelIP p \<noteq> Addr4 a))"

datatype store_op =
    Op_Register peer
  | Op_SetEndpoints key32 "endpoint list"
  | Op_Enqueue key32 envelope
  | Op_Pop key32
  | Op_Peers
  | Op_Wait key32

datatype store_out =
    Out_Addr addr
  | Out_Fail
  | Out_Done
  | Out_Mail "envelope list"
  | Out_Peers "peer list"
  | Out_Ready bool

inductive spec_step :: "gotime \<Rightarrow> store_op \<Rightarrow> directory \<Rightarrow> store_out \<Rightarrow> directory \<Rightarrow> bool" for now where
  bad_key: "length (NodeKey p) \<noteq> 32 \<Longrightarrow> spec_step now (Op_Register p) d Out_Fail d"
| known: "length (NodeKey p) = 32 \<Longrightarrow> dir_nodes d (NodeKey p) = Some q \<Longrightarrow>
    spec_step now (Op_Register p) d (Out_Addr (TunnelIP q))
      (d\<lparr>dir_nodes := (dir_nodes d)(NodeKey p \<mapsto> q\<lparr>DiscoKey := DiscoKey p, Name := Name p, UpdatedAt := now\<rparr>)\<rparr>)"
| assign: "length (NodeKey p) = 32 \<Longrightarrow> dir_nodes d (NodeKey p) = None \<Longrightarrow>
    assignable d a \<Longrightarrow> (\<And>u. assignable d u \<Longrightarrow> a \<le> u) \<Longrightarrow>
    spec_step now (Op_Register p) d (Out_Addr (Addr4 a))
      (d\<lparr>dir_nodes := (dir_nodes d)(NodeKey p \<mapsto> p\<lparr>TunnelIP := Addr4 a, UpdatedAt := now\<rparr>)\<rparr>)"
| full: "length (NodeKey p) = 32 \<Longrightarrow> dir_nodes d (NodeKey p) = None \<Longrightarrow> (\<And>u. \<not> assignable d u) \<Longrightarrow>
    spec_step now (Op_Register p) d Out_Fail d"
| unknown: "dir_nodes d k = None \<Longrightarrow> spec_step now (Op_SetEndpoints k eps) d Out_Fail d"
| endpoints: "dir_nodes d k = Some p \<Longrightarrow>
    spec_step now (Op_SetEndpoints k eps) d Out_Done
      (d\<lparr>dir_nodes := (dir_nodes d)(k \<mapsto> p\<lparr>Endpoints := eps, UpdatedAt := now\<rparr>)\<rparr>)"
| post: "spec_step now (Op_Enqueue k env) d Out_Done
      (d\<lparr>dir_mail := (dir_mail d)(k := drop (Suc (length (dir_mail d k)) - dir_depth d) (dir_mail d k @ [env]))\<rparr>)"
| collect: "spec_step now (Op_Pop k) d (Out_Mail (filter (\<lambda>e. now - dir_age d < Enqueue e) (dir_mail d k)))
      (d\<lparr>dir_mail := (dir_mail d)(k := [])\<rparr>)"
| listing: "sorted_wrt (<) (map TunnelIP ps) \<Longrightarrow> set ps = ran (dir_nodes d) \<Longrightarrow>
    spec_step now Op_Peers d (Out_Peers ps) d"
| ready: "spec_step now (Op_Wait k) d (Out_Ready (dir_mail d k \<noteq> [])) d"

inductive spec_run :: "(gotime \<times> store_op) list \<Rightarrow> directory \<Rightarrow> store_out list \<Rightarrow> directory \<Rightarrow> bool" where
  done_: "spec_run [] d [] d"
| call: "spec_step now op d r d' \<Longrightarrow> spec_run ops d' outs d'' \<Longrightarrow> spec_run ((now, op) # ops) d (r # outs) d''"

section \<open>The store's calls\<close>

definition res_out :: "('a \<Rightarrow> store_out) \<Rightarrow> 'a res \<Rightarrow> store_out" where
  "res_out f r = (case r of Inl _ \<Rightarrow> Out_Fail | Inr x \<Rightarrow> f x)"

text \<open>A call with the clock of its record and the clock of its etag.\<close>

fun exec_op :: "hash_fn \<Rightarrow> gotime \<Rightarrow> gotime \<Rightarrow> store_op \<Rightarrow> memstore \<Rightarrow> store_out \<times> memstore" where
  "exec_op h now et (Op_Register p) s = apfst (res_out Out_Addr) (Register h now et background p s)"
| "exec_op h now et (Op_SetEndpoints k eps) s = apfst (res_out (\<lambda>_. Out_Done)) (SetEndpoints h now et background k eps s)"
| "exec_op h now et (Op_Enqueue k env) s = apfst (res_out (\<lambda>_. Out_Done)) (EnqueueSignal background k env s)"
| "exec_op h now et (Op_Pop k) s = apfst (res_out Out_Mail) (PopSignals now background k s)"
| "exec_op h now et Op_Peers s = (res_out (Out_Peers \<circ> fst) (Peers background s), s)"
| "exec_op h now et (Op_Wait k) s = apfst (\<lambda>w. Out_Ready (w = Returned)) (WaitForSignal k s)"

fun exec_run :: "hash_fn \<Rightarrow> (gotime \<times> gotime \<times> store_op) list \<Rightarrow> memstore \<Rightarrow> store_out list \<times> memstore" where
  "exec_run h [] s = ([], s)"
| "exec_run h ((now, et, op) # ops) s =
     (let (r, s1) = exec_op h now et op s; (outs, s2) = exec_run h ops s1 in (r # outs, s2))"

section \<open>Refinement\<close>

definition abs_store :: "u32 \<Rightarrow> nat \<Rightarrow> memstore \<Rightarrow> directory" where
  "abs_store b n s =
     \<lparr>dir_base = b, dir_len = n, dir_nodes = (\<lambda>k. map_of (peers s) (base64Encode k)),
      dir_mail = signals_of s, dir_depth = maxQueueDepth s, dir_age = maxAge s\<rparr>"

lemma abs_store_fields [simp]:
  "dir_base (abs_store b n s) = b" "dir_len (abs_store b n s) = n"
  "dir_nodes (abs_store b n s) k = map_of (peers s) (base64Encode k)"
  "dir_mail (abs_store b n s) = signals_of s"
  "dir_depth (abs_store b n s) = maxQueueDepth s" "dir_age (abs_store b n s) = maxAge s"
  by (simp_all add: abs_store_def)

lemma nodes_update: "(\<lambda>k. map_of (AList.update (base64Encode k0) q ps) (base64Encode k)) =
    (\<lambda>k. map_of ps (base64Encode k))(k0 \<mapsto> q)"
  by (auto simp: update_conv' fun_eq_iff)

lemma assignable_iff_free:
  assumes "registry_wf s" and "pool s = Prefix (Addr4 b) n"
  shows "assignable (abs_store b n s) a \<longleftrightarrow> b < a \<and> free_host s a"
proof -
  have maps: "registry_maps (pool s) (map_of (peers s)) (map_of (byTunnel s))"
    using assms(1) by (simp add: registry_wf_def)
  have "map_of (byTunnel s) (addr_String (Addr4 a)) = None \<longleftrightarrow>
      (\<forall>k p. map_of (peers s) (base64Encode k) = Some p \<longrightarrow> TunnelIP p \<noteq> Addr4 a)" (is "?l \<longleftrightarrow> ?r")
  proof
    assume ?l
    with maps show ?r by (fastforce simp: registry_maps_def)
  next
    assume r: ?r
    show ?l
    proof (rule ccontr)
      assume "\<not> ?l"
      then obtain k p where p: "map_of (peers s) k = Some p" "addr_String (TunnelIP p) = addr_String (Addr4 a)"
        using maps by (fastforce simp: registry_maps_def)
      with registry_wfD [OF assms(1)] assms(2) obtain w where "TunnelIP p = Addr4 w" "k = base64Encode (NodeKey p)"
        by (cases "TunnelIP p") force+
      with p r show False by (simp del: addr_String.simps)
    qed
  qed
  then show ?thesis
    by (simp add: assignable_def free_host_def in_pool_def abs_store_def assms(2))
qed

lemma Register_spec:
  assumes "registry_wf s" and "pool s = Prefix (Addr4 b) n"
    and "Register h now et background p s = (r, s')"
  shows "spec_step now (Op_Register p) (abs_store b n s) (res_out Out_Addr r) (abs_store b n s')"
proof (cases "length (NodeKey p) = 32")
  case False
  then show ?thesis using assms(3) by (auto simp: Register_def res_out_def intro: bad_key)
next
  case len: True
  let ?k = "base64Encode (NodeKey p)"
  show ?thesis
  proof (cases "map_of (peers s) ?k")
    case (Some q)
    then have r: "r = Inr (TunnelIP q)" and
      s: "abs_store b n s' = (abs_store b n s)\<lparr>dir_nodes := (dir_nodes (abs_store b n s))
         (NodeKey p \<mapsto> q\<lparr>DiscoKey := DiscoKey p, Name := Name p, UpdatedAt := now\<rparr>)\<rparr>"
      using assms(3) len
      by (auto simp: Register_def Let_def abs_store_def nodes_update signals_of_def)
    show ?thesis unfolding r s res_out_def sum.case by (rule known) (simp_all add: len Some)
  next
    case None
    show ?thesis
    proof (cases "alloc_loop (pool s) (byTunnel s) (addr_Next (Addr4 b))")
      case full: None
      then have r: "r = Inl (EMsg ''tunnel IP pool exhausted'')" and s: "s' = s"
        using assms(2,3) len None by (simp_all add: Register_def Let_def allocateIPLocked_def pool_base_def)
      have "\<not> assignable (abs_store b n s) u" for u
        using alloc_None [OF assms(2) full] assignable_iff_free [OF assms(1,2)] by blast
      then show ?thesis unfolding r s res_out_def sum.case by (intro spec_step.full) (simp_all add: len None)
    next
      case found: (Some ip)
      from alloc_Some [OF assms(2) found] obtain a where a: "ip = Addr4 a" "least_free_host s b a" by blast
      have r: "r = Inr (Addr4 a)" and
        s: "abs_store b n s' = (abs_store b n s)\<lparr>dir_nodes := (dir_nodes (abs_store b n s))
           (NodeKey p \<mapsto> p\<lparr>TunnelIP := Addr4 a, UpdatedAt := now\<rparr>)\<rparr>"
        using assms(2,3) len None found a(1)
        by (auto simp: Register_def Let_def allocateIPLocked_def pool_base_def abs_store_def nodes_update
            signals_of_def)
      have "assignable (abs_store b n s) a" and "\<And>u. assignable (abs_store b n s) u \<Longrightarrow> a \<le> u"
        using a(2) assignable_iff_free [OF assms(1,2)] by (auto simp: least_free_host_def not_less)
      then show ?thesis unfolding r s res_out_def sum.case by (intro assign) (simp_all add: len None)
    qed
  qed
qed

lemma SetEndpoints_spec:
  assumes "SetEndpoints h now et background k eps s = (r, s')"
  shows "spec_step now (Op_SetEndpoints k eps) (abs_store b n s) (res_out (\<lambda>_. Out_Done) r) (abs_store b n s')"
proof (cases "map_of (peers s) (base64Encode k)")
  case None
  then show ?thesis
    using assms by (auto simp: SetEndpoints_def Let_def res_out_def abs_store_def intro!: unknown)
next
  case (Some p)
  then have r: "r = Inr ()" and s: "abs_store b n s' = (abs_store b n s)\<lparr>dir_nodes := (dir_nodes (abs_store b n s))
      (k \<mapsto> p\<lparr>Endpoints := eps, UpdatedAt := now\<rparr>)\<rparr>"
    using assms by (auto simp: SetEndpoints_def Let_def abs_store_def nodes_update signals_of_def)
  show ?thesis unfolding r s res_out_def sum.case by (rule endpoints) (simp add: Some)
qed

lemma enqueue_bounded_window:
  "length q \<le> d \<Longrightarrow> 0 < d \<Longrightarrow> enqueue_bounded d q x = drop (Suc (length q) - d) (q @ [x])"
  by (auto simp: enqueue_bounded_def Suc_diff_le)

lemma Enqueue_spec:
  assumes "queues_wf s"
  shows "spec_step now (Op_Enqueue k env) (abs_store b n s) Out_Done
    (abs_store b n (snd (EnqueueSignal background k env s)))"
proof -
  have "abs_store b n (snd (EnqueueSignal background k env s)) =
      (abs_store b n s)\<lparr>dir_mail := (dir_mail (abs_store b n s))
        (k := drop (Suc (length (dir_mail (abs_store b n s) k)) - dir_depth (abs_store b n s))
          (dir_mail (abs_store b n s) k @ [env]))\<rparr>"
    using assms by (simp add: abs_store_def queues_wf_def enqueue_bounded_window)
  then show ?thesis by (simp only: post)
qed

lemma Pop_spec:
  "spec_step now (Op_Pop k) (abs_store b n s) (res_out Out_Mail (fst (PopSignals now background k s)))
     (abs_store b n (snd (PopSignals now background k s)))"
proof -
  have "abs_store b n (snd (PopSignals now background k s)) =
      (abs_store b n s)\<lparr>dir_mail := (dir_mail (abs_store b n s))(k := [])\<rparr>"
    by (simp add: abs_store_def)
  moreover have "res_out Out_Mail (fst (PopSignals now background k s)) =
      Out_Mail (filter (\<lambda>e. now - dir_age (abs_store b n s) < Enqueue e) (dir_mail (abs_store b n s) k))"
    by (simp add: PopSignals_def res_out_def)
  ultimately show ?thesis by (simp only: collect)
qed

lemma Wait_spec:
  "spec_step now (Op_Wait k) (abs_store b n s) (Out_Ready (fst (WaitForSignal k s) = Returned))
     (abs_store b n (snd (WaitForSignal k s)))"
proof -
  have "abs_store b n (snd (WaitForSignal k s)) = abs_store b n s"
    by (simp add: abs_store_def)
  moreover have "fst (WaitForSignal k s) = Returned \<longleftrightarrow> dir_mail (abs_store b n s) k \<noteq> []"
    by (simp add: WaitForSignal_def split: option.split)
  ultimately show ?thesis by (simp only: ready)
qed

lemma Peers_spec:
  assumes "registry_wf s"
  shows "spec_step now Op_Peers (abs_store b n s) (res_out (Out_Peers \<circ> fst) (Peers background s)) (abs_store b n s)"
proof -
  obtain ps where ps: "Peers background s = Inr (ps, peersEtag s)" "sorted_wrt (<) (map TunnelIP ps)"
    "set ps = snd ` set (peers s)"
    using Peers_listing [OF assms] by blast
  have "ran (dir_nodes (abs_store b n s)) = ran (map_of (peers s))"
    using registry_wfD [OF assms] by (fastforce simp: ran_def)
  also have "\<dots> = set ps" using assms ps(3) by (simp add: ran_distinct registry_wf_def)
  finally show ?thesis using ps(1,2) by (auto simp: res_out_def intro: listing)
qed

lemma exec_op_spec:
  assumes "store_inv s" and "pool s = Prefix (Addr4 b) n" and "exec_op h now et op s = (r, s')"
  shows "spec_step now op (abs_store b n s) r (abs_store b n s')"
proof -
  have wf: "registry_wf s" "queues_wf s" using assms(1) by (simp_all add: store_inv_def)
  show ?thesis
  proof (cases op)
    case (Op_Register p)
    obtain r0 s0 where x: "Register h now et background p s = (r0, s0)" by fastforce
    with Register_spec [OF wf(1) assms(2) x] Op_Register assms(3) show ?thesis by auto
  next
    case (Op_SetEndpoints k eps)
    obtain r0 s0 where x: "SetEndpoints h now et background k eps s = (r0, s0)" by fastforce
    with SetEndpoints_spec [OF x, of b n] Op_SetEndpoints assms(3) show ?thesis by auto
  next
    case (Op_Enqueue k env)
    then show ?thesis
      using Enqueue_spec [OF wf(2), of now k env b n] assms(3)
      by (cases "EnqueueSignal background k env s") (auto simp: EnqueueSignal_def Let_def res_out_def)
  next
    case (Op_Pop k)
    then show ?thesis using Pop_spec [of now k b n s] assms(3)
      by (cases "PopSignals now background k s") auto
  next
    case Op_Peers
    then show ?thesis using Peers_spec [OF wf(1), of now b n] assms(3) by auto
  next
    case (Op_Wait k)
    then show ?thesis using Wait_spec [of now k b n s] assms(3) by (cases "WaitForSignal k s") auto
  qed
qed

lemma exec_op_inv:
  "store_inv s \<Longrightarrow> store_inv (snd (exec_op h now et op s)) \<and> pool (snd (exec_op h now et op s)) = pool s"
  by (cases op) (simp_all add: store_inv_ops)

lemma exec_run_spec:
  assumes "store_inv s" and "pool s = Prefix (Addr4 b) n" and "exec_run h ops s = (outs, s')"
  shows "spec_run (map (\<lambda>(now, et, op). (now, op)) ops) (abs_store b n s) outs (abs_store b n s')"
  using assms
proof (induction ops arbitrary: s outs)
  case Nil
  then show ?case by (simp add: done_)
next
  case (Cons c ops)
  obtain now et op where c: "c = (now, et, op)" by (cases c) auto
  obtain r s1 where r: "exec_op h now et op s = (r, s1)" by fastforce
  obtain outs1 where o: "exec_run h ops s1 = (outs1, s')" "outs = r # outs1"
    using Cons.prems(3) c r by (auto split: prod.splits)
  have "store_inv s1 \<and> pool s1 = pool s" using exec_op_inv [OF Cons.prems(1), of h now et op] r by simp
  then show ?case
    using Cons.IH [OF _ _ o(1)] exec_op_spec [OF Cons.prems(1,2) r] Cons.prems(2) o(2) c by (auto intro: call)
qed

section \<open>Property\<close>

definition empty_directory :: "u32 \<Rightarrow> nat \<Rightarrow> directory" where
  "empty_directory b n =
     \<lparr>dir_base = b, dir_len = n, dir_nodes = Map.empty, dir_mail = (\<lambda>_. []), dir_depth = 64, dir_age = 30 * second\<rparr>"

text \<open>C2: The store implements its specification: on an IPv4 pool, any sequence of calls of a new
  store, with any clock readings, gives answers that the abstract directory gives too (the
  least free address for a new node, the same address again for a known one, the last 64
  envelopes of a mailbox and of these the ones younger than 30 seconds, listings ordered by
  address), and ends in the corresponding state.\<close>

theorem store_refines_directory:
  assumes "exec_run h ops (NewMemStore h t (Prefix (Addr4 b) n)) = (outs, s')"
  shows "spec_run (map (\<lambda>(now, et, op). (now, op)) ops) (empty_directory b n) outs (abs_store b n s')"
proof -
  have "abs_store b n (NewMemStore h t (Prefix (Addr4 b) n)) = empty_directory b n"
    by (simp add: abs_store_def empty_directory_def NewMemStore_def signals_of_def fun_eq_iff)
  with exec_run_spec [OF store_inv_NewMemStore _ assms] show ?thesis by (simp add: NewMemStore_def)
qed

theorem store_refines_directory_witness:
  "spec_run [(5, Op_Register (demo_peer 1)), (6, Op_Wait [])] (empty_directory 0x0A000000 30)
     [Out_Addr (Addr4 0x0A000001), Out_Ready False] (abs_store 0x0A000000 30 (snd (WaitForSignal [] demo_one)))"
proof -
  have "signals demo_one = []" "signalWakes demo_one = []"
    by (simp_all add: demo_one_eq demo_empty_def NewMemStore_def)
  then have "exec_run demo_hash [(5, 5, Op_Register (demo_peer 1)), (6, 6, Op_Wait [])] demo_empty =
      ([Out_Addr (Addr4 0x0A000001), Out_Ready False], snd (WaitForSignal [] demo_one))"
    by (simp add: demo_register res_out_def WaitForSignal_def signals_of_def)
  from store_refines_directory [OF this [unfolded demo_empty_def demo_pool_def]] show ?thesis by simp
qed

end
