(* ===== verification/Cli_Flags.thy ===== *)
theory Cli_Flags
  imports Go_Errors
begin

text \<open>
  The flags of the commands, \<open>cmd/gretun/commands\<close> and \<open>cmd/gretun-coord\<close>: what each \<open>init\<close>
  function declares and what the run functions read back. The flag library is an argument,
  its getters; a getter fails for a name that is not declared or that was declared with
  another type, and the commands ignore that error. \<open>parsed\<close> says what the library promises
  after a successful parse, and the property shows that the reads agree with the
  declarations.
\<close>

section \<open>Declarations\<close>

datatype flag_value =
    FString string
  | FBool bool
  | FInt int
  | FUint8 byte
  | FUint16 u16
  | FUint32 u32
  | FDuration duration
  | FStringSlice "string list"

fun same_kind :: "flag_value \<Rightarrow> flag_value \<Rightarrow> bool" where
  "same_kind (FString _) (FString _) \<longleftrightarrow> True"
| "same_kind (FBool _) (FBool _) \<longleftrightarrow> True"
| "same_kind (FInt _) (FInt _) \<longleftrightarrow> True"
| "same_kind (FUint8 _) (FUint8 _) \<longleftrightarrow> True"
| "same_kind (FUint16 _) (FUint16 _) \<longleftrightarrow> True"
| "same_kind (FUint32 _) (FUint32 _) \<longleftrightarrow> True"
| "same_kind (FDuration _) (FDuration _) \<longleftrightarrow> True"
| "same_kind (FStringSlice _) (FStringSlice _) \<longleftrightarrow> True"
| "same_kind _ _ \<longleftrightarrow> False"

text \<open>A flag: its name, its default, which also fixes its type, and whether it is required.\<close>

record flag =
  fl_Name :: string
  fl_Default :: flag_value
  fl_Required :: bool

definition optional :: "string \<Rightarrow> flag_value \<Rightarrow> flag" where
  "optional n v = \<lparr>fl_Name = n, fl_Default = v, fl_Required = False\<rparr>"

definition required :: "string \<Rightarrow> flag_value \<Rightarrow> flag" where
  "required n v = \<lparr>fl_Name = n, fl_Default = v, fl_Required = True\<rparr>"

definition root_decls :: "flag list" where
  "root_decls = [optional ''json'' (FBool False), optional ''verbose'' (FBool False)]"

definition create_decls :: "flag list" where
  "create_decls =
     [required ''name'' (FString ''''), required ''local'' (FString ''''), required ''remote'' (FString ''''),
      optional ''key'' (FUint32 0), optional ''ttl'' (FUint8 64), optional ''tunnel-ip'' (FString ''''),
      optional ''encap'' (FString ''none''), optional ''encap-sport'' (FUint16 0),
      optional ''encap-dport'' (FUint16 0), optional ''encap-csum'' (FBool True), optional ''mtu'' (FInt 0)]"

definition delete_decls :: "flag list" where
  "delete_decls = [required ''name'' (FString '''')]"

definition status_decls :: "flag list" where
  "status_decls = [required ''name'' (FString '''')]"

definition probe_decls :: "flag list" where
  "probe_decls =
     [required ''target'' (FString ''''), optional ''count'' (FInt 3),
      optional ''timeout'' (FDuration (2 * second)), optional ''threshold'' (FInt 2)]"

definition health_decls :: "flag list" where
  "health_decls =
     [optional ''watch'' (FBool False), optional ''interval'' (FDuration (5 * second)),
      optional ''concurrency'' (FInt 5), optional ''timeout'' (FDuration (2 * second))]"

definition stun_decls :: "flag list" where
  "stun_decls = [optional ''server'' (FStringSlice []), optional ''timeout'' (FDuration (5 * second))]"

text \<open>\<open>host\<close> is the name of the machine and \<open>def\<close> the directory below \<open>$HOME\<close>.\<close>

definition up_decls :: "string \<Rightarrow> string \<Rightarrow> flag list" where
  "up_decls host def =
     [required ''coordinator'' (FString ''''), optional ''iface'' (FString ''gretun%d''),
      optional ''fou-port'' (FUint16 7777), optional ''node-name'' (FString host),
      optional ''state-dir'' (FString def), optional ''aggressive-punch'' (FBool False),
      optional ''stun-server'' (FStringSlice []), optional ''metrics-addr'' (FString '''')]"

section \<open>Getters\<close>

record flag_env =
  GetString :: "string \<Rightarrow> string \<times> goerror option"
  GetBool :: "string \<Rightarrow> bool \<times> goerror option"
  GetInt :: "string \<Rightarrow> int \<times> goerror option"
  GetUint8 :: "string \<Rightarrow> byte \<times> goerror option"
  GetUint16 :: "string \<Rightarrow> u16 \<times> goerror option"
  GetUint32 :: "string \<Rightarrow> u32 \<times> goerror option"
  GetDuration :: "string \<Rightarrow> duration \<times> goerror option"
  GetStringSlice :: "string \<Rightarrow> string list \<times> goerror option"

fun gets :: "flag_env \<Rightarrow> string \<Rightarrow> flag_value \<Rightarrow> bool" where
  "gets fe n (FString s) \<longleftrightarrow> GetString fe n = (s, None)"
| "gets fe n (FBool b) \<longleftrightarrow> GetBool fe n = (b, None)"
| "gets fe n (FInt i) \<longleftrightarrow> GetInt fe n = (i, None)"
| "gets fe n (FUint8 w) \<longleftrightarrow> GetUint8 fe n = (w, None)"
| "gets fe n (FUint16 w) \<longleftrightarrow> GetUint16 fe n = (w, None)"
| "gets fe n (FUint32 w) \<longleftrightarrow> GetUint32 fe n = (w, None)"
| "gets fe n (FDuration t) \<longleftrightarrow> GetDuration fe n = (t, None)"
| "gets fe n (FStringSlice ss) \<longleftrightarrow> GetStringSlice fe n = (ss, None)"

text \<open>After a successful parse of a command line that gives \<open>given\<close>: a declared flag is read, with
  the getter of its type, as the value given or else as the default; values have the type of
  their flag, and the required flags were given.\<close>

definition parsed :: "flag list \<Rightarrow> (string \<Rightarrow> flag_value option) \<Rightarrow> flag_env \<Rightarrow> bool" where
  "parsed decls given fe \<longleftrightarrow>
     (\<forall>d \<in> set decls.
        case given (fl_Name d) of
          None \<Rightarrow> \<not> fl_Required d \<and> gets fe (fl_Name d) (fl_Default d)
        | Some v \<Rightarrow> same_kind v (fl_Default d) \<and> gets fe (fl_Name d) v)"

section \<open>What the commands read\<close>

record create_flags =
  cf_name :: string
  cf_local :: string
  cf_remote :: string
  cf_key :: u32
  cf_ttl :: byte
  cf_tunnel_ip :: string
  cf_encap :: string
  cf_encap_sport :: u16
  cf_encap_dport :: u16
  cf_encap_csum :: bool
  cf_mtu :: int

definition read_create :: "flag_env \<Rightarrow> create_flags" where
  "read_create fe =
     \<lparr>cf_name = fst (GetString fe ''name''), cf_local = fst (GetString fe ''local''),
      cf_remote = fst (GetString fe ''remote''), cf_key = fst (GetUint32 fe ''key''),
      cf_ttl = fst (GetUint8 fe ''ttl''), cf_tunnel_ip = fst (GetString fe ''tunnel-ip''),
      cf_encap = fst (GetString fe ''encap''), cf_encap_sport = fst (GetUint16 fe ''encap-sport''),
      cf_encap_dport = fst (GetUint16 fe ''encap-dport''), cf_encap_csum = fst (GetBool fe ''encap-csum''),
      cf_mtu = fst (GetInt fe ''mtu'')\<rparr>"

definition read_name :: "flag_env \<Rightarrow> string" where
  "read_name fe = fst (GetString fe ''name'')"

record probe_flags =
  pf_target :: string
  pf_count :: int
  pf_timeout :: duration
  pf_threshold :: int

definition read_probe :: "flag_env \<Rightarrow> probe_flags" where
  "read_probe fe =
     \<lparr>pf_target = fst (GetString fe ''target''), pf_count = fst (GetInt fe ''count''),
      pf_timeout = fst (GetDuration fe ''timeout''), pf_threshold = fst (GetInt fe ''threshold'')\<rparr>"

record health_flags =
  hf_watch :: bool
  hf_interval :: duration
  hf_concurrency :: int
  hf_timeout :: duration

definition read_health :: "flag_env \<Rightarrow> health_flags" where
  "read_health fe =
     \<lparr>hf_watch = fst (GetBool fe ''watch''), hf_interval = fst (GetDuration fe ''interval''),
      hf_concurrency = fst (GetInt fe ''concurrency''), hf_timeout = fst (GetDuration fe ''timeout'')\<rparr>"

record stun_flags =
  sf_server :: "string list"
  sf_timeout :: duration

definition read_stun :: "flag_env \<Rightarrow> stun_flags" where
  "read_stun fe =
     \<lparr>sf_server = fst (GetStringSlice fe ''server''), sf_timeout = fst (GetDuration fe ''timeout'')\<rparr>"

record up_flags =
  uf_coordinator :: string
  uf_iface :: string
  uf_fou_port :: u16
  uf_node_name :: string
  uf_state_dir :: string
  uf_aggressive_punch :: bool
  uf_stun_server :: "string list"
  uf_metrics_addr :: string

definition read_up :: "flag_env \<Rightarrow> up_flags" where
  "read_up fe =
     \<lparr>uf_coordinator = fst (GetString fe ''coordinator''), uf_iface = fst (GetString fe ''iface''),
      uf_fou_port = fst (GetUint16 fe ''fou-port''), uf_node_name = fst (GetString fe ''node-name''),
      uf_state_dir = fst (GetString fe ''state-dir''),
      uf_aggressive_punch = fst (GetBool fe ''aggressive-punch''),
      uf_stun_server = fst (GetStringSlice fe ''stun-server''),
      uf_metrics_addr = fst (GetString fe ''metrics-addr'')\<rparr>"

definition read_verbose :: "flag_env \<Rightarrow> bool" where
  "read_verbose fe = fst (GetBool fe ''verbose'')"

section \<open>Reads agree with declarations\<close>

text \<open>The commands that have flags of their own; every command has those of the root as well.\<close>

datatype command = CmdCreate | CmdDelete | CmdStatus | CmdList | CmdProbe | CmdHealth | CmdStun | CmdUp

fun command_decls :: "string \<Rightarrow> string \<Rightarrow> command \<Rightarrow> flag list" where
  "command_decls host def CmdCreate = create_decls"
| "command_decls host def CmdDelete = delete_decls"
| "command_decls host def CmdStatus = status_decls"
| "command_decls host def CmdList = []"
| "command_decls host def CmdProbe = probe_decls"
| "command_decls host def CmdHealth = health_decls"
| "command_decls host def CmdStun = stun_decls"
| "command_decls host def CmdUp = up_decls host def"

text \<open>The values a command reads, in the order of its declarations.\<close>

definition create_values :: "create_flags \<Rightarrow> flag_value list" where
  "create_values f =
     [FString (cf_name f), FString (cf_local f), FString (cf_remote f), FUint32 (cf_key f), FUint8 (cf_ttl f),
      FString (cf_tunnel_ip f), FString (cf_encap f), FUint16 (cf_encap_sport f), FUint16 (cf_encap_dport f),
      FBool (cf_encap_csum f), FInt (cf_mtu f)]"

definition probe_values :: "probe_flags \<Rightarrow> flag_value list" where
  "probe_values f =
     [FString (pf_target f), FInt (pf_count f), FDuration (pf_timeout f), FInt (pf_threshold f)]"

definition health_values :: "health_flags \<Rightarrow> flag_value list" where
  "health_values f =
     [FBool (hf_watch f), FDuration (hf_interval f), FInt (hf_concurrency f), FDuration (hf_timeout f)]"

definition stun_values :: "stun_flags \<Rightarrow> flag_value list" where
  "stun_values f = [FStringSlice (sf_server f), FDuration (sf_timeout f)]"

definition up_values :: "up_flags \<Rightarrow> flag_value list" where
  "up_values f =
     [FString (uf_coordinator f), FString (uf_iface f), FUint16 (uf_fou_port f), FString (uf_node_name f),
      FString (uf_state_dir f), FBool (uf_aggressive_punch f), FStringSlice (uf_stun_server f),
      FString (uf_metrics_addr f)]"

fun command_reads :: "flag_env \<Rightarrow> command \<Rightarrow> flag_value list" where
  "command_reads fe CmdCreate = create_values (read_create fe)"
| "command_reads fe CmdDelete = [FString (read_name fe)]"
| "command_reads fe CmdStatus = [FString (read_name fe)]"
| "command_reads fe CmdList = []"
| "command_reads fe CmdProbe = probe_values (read_probe fe)"
| "command_reads fe CmdHealth = health_values (read_health fe)"
| "command_reads fe CmdStun = stun_values (read_stun fe)"
| "command_reads fe CmdUp = up_values (read_up fe)"

definition effective :: "(string \<Rightarrow> flag_value option) \<Rightarrow> flag \<Rightarrow> flag_value" where
  "effective given d = (case given (fl_Name d) of None \<Rightarrow> fl_Default d | Some v \<Rightarrow> v)"

lemma same_kind_cases:
  "same_kind v (FString s) \<longleftrightarrow> (\<exists>x. v = FString x)" "same_kind v (FBool b) \<longleftrightarrow> (\<exists>x. v = FBool x)"
  "same_kind v (FInt i) \<longleftrightarrow> (\<exists>x. v = FInt x)" "same_kind v (FUint8 w8) \<longleftrightarrow> (\<exists>x. v = FUint8 x)"
  "same_kind v (FUint16 w16) \<longleftrightarrow> (\<exists>x. v = FUint16 x)" "same_kind v (FUint32 w32) \<longleftrightarrow> (\<exists>x. v = FUint32 x)"
  "same_kind v (FDuration t) \<longleftrightarrow> (\<exists>x. v = FDuration x)" "same_kind v (FStringSlice ss) \<longleftrightarrow> (\<exists>x. v = FStringSlice x)"
  by (cases v; simp)+

text \<open>One declared flag, read with the getter of its type.\<close>

lemma parsed_gets:
  assumes "parsed decls given fe" and "d \<in> set decls"
  shows "same_kind (effective given d) (fl_Default d) \<and> gets fe (fl_Name d) (effective given d)"
proof -
  have "same_kind v v" for v by (cases v) simp_all
  with assms show ?thesis by (force simp: parsed_def effective_def split: option.splits)
qed

lemma read_kinds:
  assumes "parsed decls given fe" and "d \<in> set decls"
  shows "fl_Default d = FString s \<Longrightarrow> FString (fst (GetString fe (fl_Name d))) = effective given d"
    and "fl_Default d = FBool b \<Longrightarrow> FBool (fst (GetBool fe (fl_Name d))) = effective given d"
    and "fl_Default d = FInt i \<Longrightarrow> FInt (fst (GetInt fe (fl_Name d))) = effective given d"
    and "fl_Default d = FUint8 w8 \<Longrightarrow> FUint8 (fst (GetUint8 fe (fl_Name d))) = effective given d"
    and "fl_Default d = FUint16 w16 \<Longrightarrow> FUint16 (fst (GetUint16 fe (fl_Name d))) = effective given d"
    and "fl_Default d = FUint32 w32 \<Longrightarrow> FUint32 (fst (GetUint32 fe (fl_Name d))) = effective given d"
    and "fl_Default d = FDuration t \<Longrightarrow> FDuration (fst (GetDuration fe (fl_Name d))) = effective given d"
    and "fl_Default d = FStringSlice ss \<Longrightarrow> FStringSlice (fst (GetStringSlice fe (fl_Name d))) = effective given d"
  using parsed_gets [OF assms] by (auto simp: same_kind_cases)

fun get_as :: "flag_env \<Rightarrow> flag \<Rightarrow> flag_value" where
  "get_as fe d =
     (case fl_Default d of
        FString _ \<Rightarrow> FString (fst (GetString fe (fl_Name d)))
      | FBool _ \<Rightarrow> FBool (fst (GetBool fe (fl_Name d)))
      | FInt _ \<Rightarrow> FInt (fst (GetInt fe (fl_Name d)))
      | FUint8 _ \<Rightarrow> FUint8 (fst (GetUint8 fe (fl_Name d)))
      | FUint16 _ \<Rightarrow> FUint16 (fst (GetUint16 fe (fl_Name d)))
      | FUint32 _ \<Rightarrow> FUint32 (fst (GetUint32 fe (fl_Name d)))
      | FDuration _ \<Rightarrow> FDuration (fst (GetDuration fe (fl_Name d)))
      | FStringSlice _ \<Rightarrow> FStringSlice (fst (GetStringSlice fe (fl_Name d))))"

lemma get_as_effective: "parsed decls given fe \<Longrightarrow> d \<in> set decls \<Longrightarrow> get_as fe d = effective given d"
  using read_kinds [of decls given fe d] by (cases "fl_Default d") auto

lemmas decl_defs = create_decls_def delete_decls_def status_decls_def probe_decls_def health_decls_def stun_decls_def
  up_decls_def required_def optional_def

lemma reads_typed: "command_reads fe c = map (get_as fe) (command_decls host def c)"
  by (cases c) (simp_all add: decl_defs create_values_def read_create_def read_name_def probe_values_def read_probe_def
      health_values_def read_health_def stun_values_def read_stun_def up_values_def read_up_def)

text \<open>The commands read their flags as they were declared: after a successful parse every command gets,
  for each of its own flags and for the verbose flag, the value given on the command line or
  else the default, in the type of the flag.\<close>

theorem flags_read_as_declared:
  assumes "parsed (command_decls host def c @ root_decls) given fe"
  shows "command_reads fe c = map (effective given) (command_decls host def c) \<and>
    FBool (read_verbose fe) = effective given (optional ''verbose'' (FBool False))"
proof -
  have "get_as fe (optional ''verbose'' (FBool False)) = effective given (optional ''verbose'' (FBool False))"
    by (rule get_as_effective [OF assms]) (simp add: root_decls_def)
  then show ?thesis
    using get_as_effective [OF assms]
    by (simp add: reads_typed [of fe c host "def"] read_verbose_def optional_def)
qed

text \<open>A flag library for the witness: the getters look the flag up and fail on another type.\<close>

definition flag_err :: goerror where
  "flag_err = EMsg ''flag not defined''"

definition lookup_flag :: "flag list \<Rightarrow> (string \<Rightarrow> flag_value option) \<Rightarrow> string \<Rightarrow> flag_value option" where
  "lookup_flag decls given n = map_option (effective given) (find (\<lambda>d. fl_Name d = n) decls)"

definition demo_getters :: "flag list \<Rightarrow> (string \<Rightarrow> flag_value option) \<Rightarrow> flag_env" where
  "demo_getters decls given =
     \<lparr>GetString = (\<lambda>n. case lookup_flag decls given n of Some (FString x) \<Rightarrow> (x, None) | _ \<Rightarrow> ('''', Some flag_err)),
      GetBool = (\<lambda>n. case lookup_flag decls given n of Some (FBool x) \<Rightarrow> (x, None) | _ \<Rightarrow> (False, Some flag_err)),
      GetInt = (\<lambda>n. case lookup_flag decls given n of Some (FInt x) \<Rightarrow> (x, None) | _ \<Rightarrow> (0, Some flag_err)),
      GetUint8 = (\<lambda>n. case lookup_flag decls given n of Some (FUint8 x) \<Rightarrow> (x, None) | _ \<Rightarrow> (0, Some flag_err)),
      GetUint16 = (\<lambda>n. case lookup_flag decls given n of Some (FUint16 x) \<Rightarrow> (x, None) | _ \<Rightarrow> (0, Some flag_err)),
      GetUint32 = (\<lambda>n. case lookup_flag decls given n of Some (FUint32 x) \<Rightarrow> (x, None) | _ \<Rightarrow> (0, Some flag_err)),
      GetDuration = (\<lambda>n. case lookup_flag decls given n of Some (FDuration x) \<Rightarrow> (x, None) | _ \<Rightarrow> (0, Some flag_err)),
      GetStringSlice = (\<lambda>n. case lookup_flag decls given n of Some (FStringSlice x) \<Rightarrow> (x, None) | _ \<Rightarrow> ([], Some flag_err))\<rparr>"

definition demo_given :: "string \<Rightarrow> flag_value option" where
  "demo_given = map_of [(''coordinator'', FString ''http://c:1''), (''fou-port'', FUint16 9000)]"

definition demo_getters_up :: flag_env where
  "demo_getters_up = demo_getters (up_decls ''host'' ''/home/g'' @ root_decls) demo_given"

lemma demo_parsed: "parsed (command_decls ''host'' ''/home/g'' CmdUp @ root_decls) demo_given demo_getters_up"
  by code_simp

theorem flags_read_as_declared_witness:
  "uf_coordinator (read_up demo_getters_up) = ''http://c:1'' \<and> uf_fou_port (read_up demo_getters_up) = 9000 \<and>
   uf_iface (read_up demo_getters_up) = ''gretun%d'' \<and> \<not> read_verbose demo_getters_up"
  using flags_read_as_declared [OF demo_parsed]
  by (simp add: up_values_def decl_defs effective_def demo_given_def)

end
