(* ===== verification/Tunnel_Errors.thy ===== *)
theory Tunnel_Errors
  imports Go_Errors
begin

text \<open>
  The error values of the tunnel package, \<open>internal/tunnel/errors.go\<close> and
  \<open>internal/tunnel/errtranslate.go\<close>: their texts, the predicates on their dynamic type,
  the translation of a kernel error number into one of them, the retry classification and
  the hints of the command line. A nil error is \<open>None\<close>. The quoting of \<open>%q\<close> and the
  message of an error number come from Unicode and errno tables and are arguments.
\<close>

section \<open>Error numbers of Linux\<close>

definition EPERM :: nat where "EPERM = 1"
definition EAGAIN :: nat where "EAGAIN = 11"
definition EACCES :: nat where "EACCES = 13"
definition EBUSY :: nat where "EBUSY = 16"
definition EEXIST :: nat where "EEXIST = 17"
definition ENODEV :: nat where "ENODEV = 19"
definition EINVAL :: nat where "EINVAL = 22"
definition EOPNOTSUPP :: nat where "EOPNOTSUPP = 95"
definition EADDRINUSE :: nat where "EADDRINUSE = 98"
definition ENETDOWN :: nat where "ENETDOWN = 100"
definition ETIMEDOUT :: nat where "ETIMEDOUT = 110"

lemmas errno_defs = EPERM_def EAGAIN_def EACCES_def EBUSY_def EEXIST_def ENODEV_def EINVAL_def
  EOPNOTSUPP_def EADDRINUSE_def ENETDOWN_def ETIMEDOUT_def

section \<open>Error texts\<close>

text \<open>\<open>fmt.Sprintf\<close> for the verbs the tunnel package uses: \<open>%s\<close>, \<open>%v\<close>, \<open>%w\<close>,
  \<open>%d\<close> and \<open>%q\<close>; the arguments are consumed from left to right, and \<open>%w\<close> is the
  last verb of every format that has it.\<close>

fun fmt_verb :: "(string \<Rightarrow> string) \<Rightarrow> char \<Rightarrow> fmt_arg \<Rightarrow> string" where
  "fmt_verb quote v (AStr s) = (if v = CHR ''q'' then quote s else s)"
| "fmt_verb quote v (AInt i) = fmt_int i"

fun Sprintf :: "(string \<Rightarrow> string) \<Rightarrow> string \<Rightarrow> fmt_arg list \<Rightarrow> string" where
  "Sprintf quote (CHR ''%'' # v # f) (a # as) = fmt_verb quote v a @ Sprintf quote f as"
| "Sprintf quote (c # f) as = c # Sprintf quote f as"
| "Sprintf quote [] as = []"

text \<open>The text of \<open>errors.Join\<close>: one line for each error.\<close>

fun join_lines :: "string list \<Rightarrow> string" where
  "join_lines [] = []"
| "join_lines [s] = s"
| "join_lines (s # ss) = s @ CHR 0x0A # join_lines ss"

fun Error :: "(string \<Rightarrow> string) \<Rightarrow> (nat \<Rightarrow> string) \<Rightarrow> goerror \<Rightarrow> string" where
  "Error quote text (EMsg m) = m"
| "Error quote text (EFmt f as) = Sprintf quote f as"
| "Error quote text (EWrap f as e) = Sprintf quote f (as @ [AStr (Error quote text e)])"
| "Error quote text (EJoin es) = join_lines (map (Error quote text) es)"
| "Error quote text ECanceled = ''context canceled''"
| "Error quote text EDeadlineExceeded = ''context deadline exceeded''"
| "Error quote text (EErrno n) = text n"
| "Error quote text (TunnelError op tunnel msg (Some e)) =
     Sprintf quote ''%s tunnel %s: %s: %v''
       [AStr op, AStr tunnel, AStr msg, AStr (Error quote text e)]"
| "Error quote text (TunnelError op tunnel msg None) =
     Sprintf quote ''%s tunnel %s: %s'' [AStr op, AStr tunnel, AStr msg]"
| "Error quote text (TunnelExistsError n) = Sprintf quote ''tunnel %s already exists'' [AStr n]"
| "Error quote text (TunnelNotFoundError n) = Sprintf quote ''tunnel %s not found'' [AStr n]"
| "Error quote text (ValidationError f v m) =
     (if v \<noteq> [] then Sprintf quote ''validation failed for %s (%q): %s'' [AStr f, AStr v, AStr m]
      else Sprintf quote ''validation failed for %s: %s'' [AStr f, AStr m])"
| "Error quote text (PermissionError op tunnel m) =
     Sprintf quote ''permission denied: %s tunnel %s: %s'' [AStr op, AStr tunnel, AStr m]"
| "Error quote text (InvalidTypeError n act ex) =
     (if ex \<noteq> [] then Sprintf quote ''%s is not a %s tunnel (type: %s)'' [AStr n, AStr ex, AStr act]
      else Sprintf quote ''%s is not a GRE tunnel (type: %s)'' [AStr n, AStr act])"

section \<open>Dynamic types and wrapped errors\<close>

fun Unwrap :: "goerror \<Rightarrow> goerror option" where
  "Unwrap (EWrap f as e) = Some e"
| "Unwrap (TunnelError op tunnel msg cause) = cause"
| "Unwrap _ = None"

text \<open>The predicates are type assertions on the error itself: they do not unwrap.\<close>

fun IsTunnelExists :: "goerror option \<Rightarrow> bool" where
  "IsTunnelExists (Some (TunnelExistsError n)) = True"
| "IsTunnelExists _ = False"

fun IsTunnelNotFound :: "goerror option \<Rightarrow> bool" where
  "IsTunnelNotFound (Some (TunnelNotFoundError n)) = True"
| "IsTunnelNotFound _ = False"

fun IsValidation :: "goerror option \<Rightarrow> bool" where
  "IsValidation (Some (ValidationError f v m)) = True"
| "IsValidation _ = False"

fun IsPermission :: "goerror option \<Rightarrow> bool" where
  "IsPermission (Some (PermissionError op t m)) = True"
| "IsPermission _ = False"

fun IsInvalidType :: "goerror option \<Rightarrow> bool" where
  "IsInvalidType (Some (InvalidTypeError n a e)) = True"
| "IsInvalidType _ = False"

text \<open>\<open>errors.As(err, &errno)\<close> follows the \<open>Unwrap\<close> chain, and joined errors depth first,
  to the first \<open>syscall.Errno\<close>.\<close>

fun errors_As_errno :: "goerror \<Rightarrow> nat option" where
  "errors_As_errno (EErrno n) = Some n"
| "errors_As_errno (EWrap f as e) = errors_As_errno e"
| "errors_As_errno (EJoin es) =
     foldr (\<lambda>e r. case errors_As_errno e of Some n \<Rightarrow> Some n | None \<Rightarrow> r) es None"
| "errors_As_errno (TunnelError op t m (Some e)) = errors_As_errno e"
| "errors_As_errno _ = None"

definition errno_of :: "goerror option \<Rightarrow> nat option" where
  "errno_of err = (case err of None \<Rightarrow> None | Some e \<Rightarrow> errors_As_errno e)"

text \<open>\<open>errors.Is(err, errno)\<close> looks at all of them.\<close>

fun errnos_in :: "goerror \<Rightarrow> nat list" where
  "errnos_in (EErrno n) = [n]"
| "errnos_in (EWrap f as e) = errnos_in e"
| "errnos_in (EJoin es) = concat (map errnos_in es)"
| "errnos_in (TunnelError op t m (Some e)) = errnos_in e"
| "errnos_in _ = []"

definition errors_Is_errno :: "goerror \<Rightarrow> nat \<Rightarrow> bool" where
  "errors_Is_errno e n = (n \<in> set (errnos_in e))"

section \<open>Translation and classification\<close>

definition TranslateNetlinkError :: "goerror option \<Rightarrow> string \<Rightarrow> string \<Rightarrow> goerror option" where
  "TranslateNetlinkError err op name =
     (case err of None \<Rightarrow> None | Some e \<Rightarrow> Some (
        let other = TunnelError op name ''operation failed'' (Some e) in
        case errors_As_errno e of
          None \<Rightarrow> other
        | Some errno \<Rightarrow>
            if errno = EEXIST then TunnelExistsError name
            else if errno = ENODEV then TunnelNotFoundError name
            else if errno = EPERM \<or> errno = EACCES then
              PermissionError op name ''requires CAP_NET_ADMIN capability or root privileges''
            else if errno = EINVAL then
              TunnelError op name ''invalid configuration (check IP addresses, key, TTL)'' (Some e)
            else if errno = EOPNOTSUPP then
              TunnelError op name
                ''operation not supported (load kernel modules: modprobe ip_gre; for FOU/GUE: modprobe fou, CONFIG_NET_FOU=y)''
                (Some e)
            else if errno = EBUSY then
              TunnelError op name ''device busy (tunnel may be in use)'' (Some e)
            else if errno = ENETDOWN then TunnelError op name ''network is down'' (Some e)
            else if errno = EADDRINUSE then TunnelError op name ''address already in use'' (Some e)
            else other))"

definition WrapValidationError ::
  "(string \<Rightarrow> string) \<Rightarrow> (nat \<Rightarrow> string) \<Rightarrow> string \<Rightarrow> string \<Rightarrow> goerror option \<Rightarrow> goerror option" where
  "WrapValidationError quote text field value err =
     (case err of
        None \<Rightarrow> None
      | Some e \<Rightarrow> if IsValidation err then err
                  else Some (ValidationError field value (Error quote text e)))"

definition IsTransientError :: "goerror option \<Rightarrow> bool" where
  "IsTransientError err =
     (case errno_of err of
        None \<Rightarrow> False
      | Some errno \<Rightarrow> errno = EBUSY \<or> errno = ENETDOWN \<or> errno = EAGAIN \<or> errno = ETIMEDOUT)"

definition IsFatalError :: "goerror option \<Rightarrow> bool" where
  "IsFatalError err =
     (if IsPermission err \<or> IsValidation err then True
      else case errno_of err of
        None \<Rightarrow> False
      | Some errno \<Rightarrow> errno = EPERM \<or> errno = EACCES \<or> errno = EINVAL \<or> errno = EOPNOTSUPP)"

definition ErrorHint :: "goerror option \<Rightarrow> string" where
  "ErrorHint err =
     (if err = None then ''''
      else if IsPermission err then
        ''Run with sudo or grant CAP_NET_ADMIN: sudo setcap cap_net_admin+ep $(which gretun)''
      else if IsTunnelExists err then
        ''Use 'gretun list' to see existing tunnels, or 'gretun delete --name <name>' to remove it first''
      else if IsTunnelNotFound err then ''Use 'gretun list' to see available tunnels''
      else case errno_of err of
        None \<Rightarrow> ''''
      | Some errno \<Rightarrow>
          if errno = EOPNOTSUPP then
            ''Load required kernel modules: sudo modprobe ip_gre fou (CONFIG_NET_FOU=y for GRE-over-UDP)''
          else if errno = EBUSY then
            ''The tunnel interface may be in use. Try bringing it down first or wait a moment''
          else if errno = EINVAL then
            ''Check that IP addresses are valid and reachable, and TTL is in valid range (0-255)''
          else if errno = EADDRINUSE then
            ''The tunnel address is already in use by another interface''
          else '''')"

definition FormatError :: "(string \<Rightarrow> string) \<Rightarrow> (nat \<Rightarrow> string) \<Rightarrow> goerror option \<Rightarrow> string" where
  "FormatError quote text err =
     (case err of
        None \<Rightarrow> ''''
      | Some e \<Rightarrow>
          let msg = Error quote text e; hint = ErrorHint err in
          if hint \<noteq> '''' then Sprintf quote ''%s\<newline>\<newline>Hint: %s'' [AStr msg, AStr hint] else msg)"

section \<open>Properties\<close>

lemma errno_of_simps [simp]: "errno_of None = None" "errno_of (Some e) = errors_As_errno e"
  by (simp_all add: errno_of_def)

lemma translate_not_nil: "TranslateNetlinkError (Some e) op name \<noteq> None"
  by (simp add: TranslateNetlinkError_def)

lemma translate_not_validation: "\<not> IsValidation (TranslateNetlinkError err op name)"
  by (cases err) (auto simp: TranslateNetlinkError_def Let_def split: option.split)

lemma translate_permission_iff:
  "IsPermission (TranslateNetlinkError err op name) \<longleftrightarrow>
     errno_of err = Some EPERM \<or> errno_of err = Some EACCES"
  by (cases err) (auto simp: TranslateNetlinkError_def Let_def errno_defs split: option.split)

lemma translate_exists_iff:
  "IsTunnelExists (TranslateNetlinkError err op name) \<longleftrightarrow> errno_of err = Some EEXIST"
  by (cases err) (auto simp: TranslateNetlinkError_def Let_def errno_defs split: option.split)

lemma translate_notfound_iff:
  "IsTunnelNotFound (TranslateNetlinkError err op name) \<longleftrightarrow> errno_of err = Some ENODEV"
  by (cases err) (auto simp: TranslateNetlinkError_def Let_def errno_defs split: option.split)

lemma translate_errno:
  "errno_of (TranslateNetlinkError err op name) =
     (if errno_of err \<in> Some ` {EEXIST, ENODEV, EPERM, EACCES} then None else errno_of err)"
  by (cases err) (auto simp: TranslateNetlinkError_def Let_def errno_defs split: option.split)

lemmas translate_facts = translate_not_validation translate_permission_iff translate_exists_iff
  translate_notfound_iff translate_errno

text \<open>C40: Translating a kernel error for the user keeps its retry classification: the translated
  error is transient exactly when the kernel's was, and fatal exactly when the kernel's was
  because of its error number; an error that was fatal only because it already was a
  permission or validation error stops being fatal, since the translation wraps it.\<close>

theorem translate_classification:
  "(IsTransientError (TranslateNetlinkError err op name) \<longleftrightarrow> IsTransientError err) \<and>
   (IsFatalError (TranslateNetlinkError err op name) \<longleftrightarrow>
      IsFatalError err \<and> \<not> IsPermission err \<and> \<not> IsValidation err) \<and>
   \<not> (IsTransientError err \<and> IsFatalError err)"
proof -
  have "IsFatalError (TranslateNetlinkError err op name) \<longleftrightarrow>
      IsFatalError err \<and> \<not> IsPermission err \<and> \<not> IsValidation err"
    by (cases err rule: IsPermission.cases)
      (auto simp: IsFatalError_def translate_facts errno_defs split: option.split)
  moreover have "\<not> (IsTransientError err \<and> IsFatalError err)"
    by (cases err rule: IsPermission.cases; cases err rule: IsValidation.cases)
      (auto simp: IsFatalError_def IsTransientError_def errno_defs split: option.splits)
  ultimately show ?thesis
    by (auto simp: IsTransientError_def translate_facts errno_defs split: option.split)
qed

text \<open>The user gets a hint with a translated error exactly for eight error numbers: no
  permission, existing and missing tunnels, missing kernel support, busy devices, invalid
  arguments and addresses in use.\<close>

theorem translated_hint_iff:
  "ErrorHint (TranslateNetlinkError err op name) \<noteq> '''' \<longleftrightarrow>
     errno_of err \<in> Some ` {EPERM, EACCES, EEXIST, ENODEV, EOPNOTSUPP, EBUSY, EINVAL, EADDRINUSE}"
  by (cases err) (auto simp: ErrorHint_def translate_facts translate_not_nil errno_defs
      split: option.splits)

end
