(* ===== verification/Tunnel_Validate.thy ===== *)
theory Tunnel_Validate
  imports Go_Net Go_Errors
begin

text \<open>
  Tunnel configurations and their validation, \<open>internal/tunnel/types.go\<close> and
  \<open>internal/tunnel/validate.go\<close>. A validator returns the error, \<open>None\<close> when the input is
  accepted. The properties say exactly which inputs are accepted.
\<close>

unbundle bit_operations_syntax

section \<open>Configurations and status records\<close>

type_synonym EncapType = int

definition EncapNone :: EncapType where "EncapNone = 0"
definition EncapFOU :: EncapType where "EncapFOU = 1"
definition EncapGUE :: EncapType where "EncapGUE = 2"

lemmas encap_defs = EncapNone_def EncapFOU_def EncapGUE_def

definition DefaultFOUMTU :: int where "DefaultFOUMTU = 1468"

record Config =
  cfg_Name :: string
  cfg_LocalIP :: goip
  cfg_RemoteIP :: goip
  cfg_Key :: u32
  cfg_TTL :: byte
  cfg_MTU :: int
  cfg_Encap :: EncapType
  cfg_EncapSport :: u16
  cfg_EncapDport :: u16
  cfg_EncapChecksum :: bool

record Status =
  st_Name :: string
  st_LocalIP :: string
  st_RemoteIP :: string
  st_Key :: u32
  st_TTL :: byte
  st_Up :: bool
  st_TunnelIP :: string
  st_Encap :: string
  st_EncapSport :: u16
  st_EncapDport :: u16
  st_MTU :: int

definition encapTypeName :: "EncapType \<Rightarrow> string" where
  "encapTypeName e = (if e = EncapFOU then ''fou'' else if e = EncapGUE then ''gue'' else ''none'')"

section \<open>Validators\<close>

definition maxInterfaceNameLength :: nat where "maxInterfaceNameLength = 15"

definition in_class :: "string \<Rightarrow> char \<Rightarrow> bool" where
  "in_class r c = (hd r \<le> c \<and> c \<le> last r)"

definition name_char :: "char \<Rightarrow> bool" where
  "name_char c = (list_ex (\<lambda>r. in_class r c) [''az'', ''AZ'', ''09''] \<or> c \<in> set ''_-'')"

definition validInterfaceNamePattern :: "string \<Rightarrow> bool" where
  "validInterfaceNamePattern s = (s \<noteq> [] \<and> list_all name_char s)"

definition reservedPrefixes :: "string list" where
  "reservedPrefixes = [''lo'', ''eth'', ''wlan'', ''docker'', ''veth'', ''br-'', ''virbr'']"

definition ValidateTunnelName :: "string \<Rightarrow> goerror option" where
  "ValidateTunnelName name =
     (if name = [] then Some (EMsg ''tunnel name cannot be empty'')
      else if length name > maxInterfaceNameLength then
        Some (EFmt ''tunnel name %q exceeds maximum length of %d characters (got %d)''
          [AStr name, AInt (int maxInterfaceNameLength), AInt (int (length name))])
      else if \<not> validInterfaceNamePattern name then
        Some (EFmt ''tunnel name %q contains invalid characters (only alphanumeric, hyphens, and underscores allowed)''
          [AStr name])
      else None)"

definition broadcast_of :: "ipnet \<Rightarrow> byte list" where
  "broadcast_of n = map2 (\<lambda>b m. b OR NOT m) (net_IP n) (net_Mask n)"

definition ValidateCIDR :: "string \<Rightarrow> goerror option" where
  "ValidateCIDR cidr =
     (if cidr = [] then Some (EMsg ''CIDR cannot be empty'')
      else case net_ParseCIDR cidr of
        None \<Rightarrow> Some (EWrap ''invalid CIDR notation %q: %w'' [AStr cidr]
                       (EFmt ''invalid CIDR address: %s'' [AStr cidr]))
      | Some (ip, ipNet) \<Rightarrow>
          (if ip_To4 ip = None then Some (EFmt ''CIDR %q is not an IPv4 address'' [AStr cidr])
           else if simple_mask_length (net_Mask ipNet) = Some 32 then None
           else if ip_Equal ip (Some (net_IP ipNet)) then
             Some (EFmt ''CIDR %q uses network address (first address in subnet), which is typically reserved''
               [AStr cidr])
           else if ip_Equal ip (Some (broadcast_of ipNet)) then
             Some (EFmt ''CIDR %q uses broadcast address (last address in subnet), which is reserved''
               [AStr cidr])
           else None))"

definition ValidateIP :: "goip \<Rightarrow> string \<Rightarrow> goerror option" where
  "ValidateIP ip fieldName =
     (if ip = None then Some (EFmt ''%s is required'' [AStr fieldName])
      else if ip_IsUnspecified ip then
        Some (EFmt ''%s cannot be unspecified (0.0.0.0)'' [AStr fieldName])
      else if ip_IsLoopback ip then
        Some (EFmt ''%s cannot be loopback address (%s)'' [AStr fieldName, AStr (ip_String ip)])
      else if ip_To4 ip = None then
        Some (EFmt ''%s must be an IPv4 address (got %s)'' [AStr fieldName, AStr (ip_String ip)])
      else if ip_IsMulticast ip then
        Some (EFmt ''%s cannot be a multicast address (%s)'' [AStr fieldName, AStr (ip_String ip)])
      else None)"

definition ValidateTTL :: "byte \<Rightarrow> goerror option" where
  "ValidateTTL ttl =
     (if ttl = 0 then None
      else if ttl < 1 then
        Some (EFmt ''TTL must be 0 (default) or between 1-255 (got %d)'' [AInt (uint ttl)])
      else None)"

definition warnPortsNonFatal :: "(u16 \<times> string) list" where
  "warnPortsNonFatal =
     [(53, ''DNS''), (67, ''DHCP server''), (68, ''DHCP client''), (123, ''NTP''),
      (443, ''HTTPS/QUIC''), (500, ''IKE''), (4500, ''IPsec NAT-T'')]"

text \<open>The warning of \<open>ValidateEncap\<close> as the format of \<open>Sprintf\<close> and its arguments,
  \<open>None\<close> for the empty string.\<close>

definition encap_warning :: "u16 \<Rightarrow> (string \<times> fmt_arg list) option" where
  "encap_warning dport =
     (case map_of warnPortsNonFatal dport of
        None \<Rightarrow> None
      | Some svc \<Rightarrow> Some (''encap-dport %d collides with well-known %s; continuing'',
                         [AInt (uint dport), AStr svc]))"

definition mtu_check :: "int \<Rightarrow> goerror option" where
  "mtu_check mtu =
     (if mtu \<noteq> 0 \<and> (mtu < 576 \<or> mtu > 9000)
      then Some (EFmt ''MTU must be 0 (default) or between 576 and 9000 (got %d)'' [AInt mtu])
      else None)"

definition ValidateEncap :: "Config \<Rightarrow> (string \<times> fmt_arg list) option \<times> goerror option" where
  "ValidateEncap cfg =
     (if cfg_Encap cfg = EncapNone then (None, mtu_check (cfg_MTU cfg))
      else if cfg_Encap cfg = EncapFOU \<or> cfg_Encap cfg = EncapGUE then
        (if cfg_EncapDport cfg = 0 then
           (None, Some (EFmt ''encap-dport is required when encap=%s''
                    [AStr (encapTypeName (cfg_Encap cfg))]))
         else (encap_warning (cfg_EncapDport cfg), mtu_check (cfg_MTU cfg)))
      else (None, Some (EFmt ''unknown encap type %d'' [AInt (cfg_Encap cfg)])))"

definition first_error :: "goerror option list \<Rightarrow> goerror option" where
  "first_error cs = (case find (\<lambda>c. c \<noteq> None) cs of None \<Rightarrow> None | Some c \<Rightarrow> c)"

definition reserved_error :: "string \<Rightarrow> goerror option" where
  "reserved_error name =
     (case find (has_prefix name) reservedPrefixes of
        None \<Rightarrow> None
      | Some prefix \<Rightarrow>
          Some (EFmt ''tunnel name %q uses reserved prefix %q which may conflict with system interfaces''
            [AStr name, AStr prefix]))"

definition same_ip_error :: "Config \<Rightarrow> goerror option" where
  "same_ip_error cfg =
     (if ip_Equal (cfg_LocalIP cfg) (cfg_RemoteIP cfg)
      then Some (EFmt ''local IP and remote IP cannot be the same (%s)''
             [AStr (ip_String (cfg_LocalIP cfg))])
      else None)"

definition ValidateConfig :: "Config \<Rightarrow> goerror option" where
  "ValidateConfig cfg =
     first_error
       [ValidateTunnelName (cfg_Name cfg),
        reserved_error (cfg_Name cfg),
        ValidateIP (cfg_LocalIP cfg) ''local IP'',
        ValidateIP (cfg_RemoteIP cfg) ''remote IP'',
        same_ip_error cfg,
        ValidateTTL (cfg_TTL cfg),
        snd (ValidateEncap cfg)]"

section \<open>Properties\<close>

subsection \<open>Addresses with a prefix length\<close>

lemma be_bytes_and: "be_bytes k (a AND b) = map2 (\<lambda>x y. x AND y) (be_bytes k a) (be_bytes k b)"
  by (simp add: be_bytes_def zip_map_map map_zip_map map_zip_map2 zip_same_conv_map unsigned_and_eq)

lemma be_bytes_or_not:
  "be_bytes 4 (a OR NOT (b :: 32 word)) = map2 (\<lambda>x y. x OR NOT y) (be_bytes 4 a) (be_bytes 4 b)"
  by (simp add: be_bytes4) (auto intro!: bit_word_eqI simp: bit_simps)

definition cidr_word :: "nat \<Rightarrow> 32 word" where
  "cidr_word n = push_bit (32 - n) (- 1)"

lemma cidr_mask_word:
  assumes "n \<le> 32"
  shows "cidr_mask n 32 = be_bytes 4 (cidr_word n)"
proof -
  have "list_all (\<lambda>n. cidr_mask n 32 = be_bytes 4 (cidr_word n)) [0..<33]"
    by code_simp
  with assms show ?thesis by (auto simp: list_all_iff)
qed

lemma simple_mask_length_cidr:
  assumes "n \<le> 32"
  shows "simple_mask_length (cidr_mask n 32) = Some n"
proof -
  have "list_all (\<lambda>n. simple_mask_length (cidr_mask n 32) = Some n) [0..<33]"
    by code_simp
  with assms show ?thesis by (auto simp: list_all_iff)
qed

lemma and_cidr_word_iff: 
  assumes "n \<le> 32"
  shows "w = w AND cidr_word n \<longleftrightarrow> unat w mod 2 ^ (32 - n) = 0"
proof -
  have "w = w AND cidr_word n \<longleftrightarrow> take_bit (32 - n) w = 0"
    by (auto simp: cidr_word_def bit_eq_iff bit_simps)
  also have "\<dots> \<longleftrightarrow> unat w mod 2 ^ (32 - n) = 0"
    by (simp add: word_unat_eq_iff unsigned_take_bit_eq) (simp add: take_bit_eq_mod)
  finally show ?thesis .
qed


lemma unat_mask32: "n \<le> 32 \<Longrightarrow> unat (mask (32 - n) :: 32 word) = mask (32 - n)"
  by (rule bit_eqI) (auto simp: bit_simps bit_mask_iff)

lemma or_not_cidr_word_iff: 
  assumes "n \<le> 32"
  shows "w = w AND cidr_word n OR NOT (cidr_word n) \<longleftrightarrow> unat w mod 2 ^ (32 - n) = 2 ^ (32 - n) - 1"
proof -
  have "w = w AND cidr_word n OR NOT (cidr_word n) \<longleftrightarrow> take_bit (32 - n) w = mask (32 - n)"
    by (auto simp: cidr_word_def bit_eq_iff bit_simps)
  also have "\<dots> \<longleftrightarrow> take_bit (32 - n) (unat w) = mask (32 - n)"
    using assms by (simp only: word_unat_eq_iff unsigned_take_bit_eq unat_mask32)
  also have "\<dots> \<longleftrightarrow> unat w mod 2 ^ (32 - n) = 2 ^ (32 - n) - 1"
    by (simp add: take_bit_eq_mod mask_eq_exp_minus_1)
  finally show ?thesis .
qed

lemma be_bytes4_length4 [simp]: "ip_To4 (Some (v4_in_v6_prefix @ be_bytes 4 w)) = Some (be_bytes 4 w)"
  by (simp add: ip_To4_def ip_bytes_def v4_in_v6_prefix_def Let_def)

lemma ip_Equal_v4_mapped: "length b = 4 \<Longrightarrow>
   ip_Equal (Some (v4_in_v6_prefix @ be_bytes 4 w)) (Some b) \<longleftrightarrow> be_bytes 4 w = b"
  by (simp add: ip_Equal_def ip_bytes_def v4_in_v6_prefix_def Let_def)

lemma slash_not_in_dotted: "CHR ''/'' \<notin> set (dotted bs)"
  by (induction bs rule: dotted.induct)
    (auto simp: is_digit_def dest!: fmt_nat_digits [rule_format])

lemma split_first_append: "c \<notin> set s \<Longrightarrow> split_first c (s @ c # r) = Some (s, r)"
  by (simp add: split_first_def dropWhile_append)

lemma net_ParseCIDR_String4:
  assumes "n \<le> 32"
  shows "net_ParseCIDR (addr_String (Addr4 w) @ CHR ''/'' # fmt_nat n) =
    Some (Some (v4_in_v6_prefix @ be_bytes 4 w),
      \<lparr>net_IP = be_bytes 4 (w AND cidr_word n), net_Mask = be_bytes 4 (cidr_word n)\<rparr>)"
proof -
  have "split_first (CHR ''/'') (addr_String (Addr4 w) @ CHR ''/'' # fmt_nat n) =
      Some (addr_String (Addr4 w), fmt_nat n)"
    by (rule split_first_append) (simp add: ipv4_string_def slash_not_in_dotted)
  moreover have "ip_Mask (v4_in_v6_prefix @ be_bytes 4 w) (cidr_mask n 32) = be_bytes 4 (w AND cidr_word n)"
    using assms by (simp add: ip_Mask_def Let_def cidr_mask_word be_bytes_and v4_in_v6_prefix_def)
  ultimately show ?thesis
    using assms by (simp del: addr_String.simps add: net_ParseCIDR_def dtoi_def Let_def cidr_mask_word)
qed

lemma ValidateCIDR_String4:
  assumes "n \<le> 32"
  shows "ValidateCIDR (addr_String (Addr4 w) @ CHR ''/'' # fmt_nat n) = None \<longleftrightarrow>
    n = 32 \<or> (unat w mod 2 ^ (32 - n) \<noteq> 0 \<and> unat w mod 2 ^ (32 - n) \<noteq> 2 ^ (32 - n) - 1)"
proof -
  have size: "simple_mask_length (be_bytes 4 (cidr_word n)) = Some n"
    using simple_mask_length_cidr [OF assms] cidr_mask_word [OF assms] by simp
  have bc: "broadcast_of \<lparr>net_IP = be_bytes 4 (w AND cidr_word n), net_Mask = be_bytes 4 (cidr_word n)\<rparr>
      = be_bytes 4 (w AND cidr_word n OR NOT (cidr_word n))"
    by (simp add: broadcast_of_def be_bytes_or_not)
  show ?thesis
    by (simp del: addr_String.simps
        add: ValidateCIDR_def net_ParseCIDR_String4 [OF assms] size bc ip_Equal_v4_mapped
          and_cidr_word_iff [OF assms] or_not_cidr_word_iff [OF assms])
qed

text \<open>An IPv4 address with a prefix length is accepted as a tunnel address exactly when the
  prefix is /32 or the host part is neither all zeros nor all ones. In particular every /31
  address is rejected.\<close>

theorem ValidateCIDR_iff:
  assumes "n \<le> 32"
  shows "ValidateCIDR (addr_String (Addr4 w) @ CHR ''/'' # fmt_nat n) = None \<longleftrightarrow>
    n = 32 \<or> (unat w mod 2 ^ (32 - n) \<noteq> 0 \<and> unat w mod 2 ^ (32 - n) \<noteq> 2 ^ (32 - n) - 1)"
  using assms by (rule ValidateCIDR_String4)

theorem ValidateCIDR_iff_witness:
  "ValidateCIDR (addr_String (Addr4 0x0A00000A) @ CHR ''/'' # fmt_nat 24) = None \<and>
   ValidateCIDR (addr_String (Addr4 0x0A00000A) @ CHR ''/'' # fmt_nat 31) \<noteq> None"
  using ValidateCIDR_iff [of 24 "0x0A00000A"] ValidateCIDR_iff [of 31 "0x0A00000A"] by simp

subsection \<open>Configurations\<close>

lemma byte_cases_all:
  assumes "list_all P (map word_of_nat [0..<256])"
  shows "P (b :: byte)"
proof -
  have "b \<in> set (map word_of_nat [0..<256])"
    by (simp add: image_iff) (metis atLeastLessThan_iff le0 unat_byte_less_256 word_of_nat_unat_byte)
  with assms show ?thesis by (simp only: list_all_iff)
qed

lemma multicast_octet: "(b :: byte) AND 0xf0 = 0xe0 \<longleftrightarrow> 224 \<le> b \<and> b < 240"
  by (rule byte_cases_all [where P = "\<lambda>b. b AND 0xf0 = 0xe0 \<longleftrightarrow> 224 \<le> b \<and> b < 240"]) code_simp

definition host_octets :: "byte list \<Rightarrow> bool" where
  "host_octets v = (v \<noteq> [0, 0, 0, 0] \<and> v ! 0 \<noteq> 127 \<and> \<not> (224 \<le> v ! 0 \<and> v ! 0 < 240))"

lemma To4_cases:
  assumes "ip_To4 ip = Some v"
  obtains "ip = Some v" "length v = 4" | "ip = Some (v4_in_v6_prefix @ v)" "length v = 4"
proof (cases ip)
  case None
  with assms show thesis by (simp add: ip_To4_def ip_bytes_def Let_def)
next
  case (Some bs)
  with assms that show thesis
    by (auto simp: ip_To4_def ip_bytes_def Let_def split: if_splits)
      (metis append_take_drop_id)
qed

lemma To4_unspecified: "ip_To4 ip = Some v \<Longrightarrow> ip_IsUnspecified ip \<longleftrightarrow> v = [0, 0, 0, 0]"
  by (erule To4_cases)
    (auto simp: ip_IsUnspecified_def ip_Equal_def ip_bytes_def Let_def v4_in_v6_prefix_def
      numeral_eq_Suc)

lemma To4_Equal:
  assumes "ip_To4 x = Some v" and "ip_To4 y = Some w"
  shows "ip_Equal x y \<longleftrightarrow> v = w"
  using assms(1) assms(2)
  by (elim To4_cases) (auto simp: ip_Equal_def ip_bytes_def Let_def v4_in_v6_prefix_def)

lemma ValidateIP_iff:
  "ValidateIP ip f = None \<longleftrightarrow> (\<exists>v. ip_To4 ip = Some v \<and> host_octets v)"
proof (cases "ip_To4 ip")
  case None
  then show ?thesis by (simp add: ValidateIP_def)
next
  case (Some v)
  then have "ip \<noteq> None" by (auto elim: To4_cases)
  with Some show ?thesis
    by (auto simp: ValidateIP_def To4_unspecified ip_IsLoopback_def ip_IsMulticast_def host_octets_def
        multicast_octet)
qed

lemma ValidateTunnelName_iff:
  "ValidateTunnelName name = None \<longleftrightarrow> length name \<in> {1..15} \<and> list_all name_char name"
  by (cases name) (auto simp: ValidateTunnelName_def validInterfaceNamePattern_def maxInterfaceNameLength_def)

lemma ValidateTTL_accepts: "ValidateTTL ttl = None"
proof -
  have "ttl \<noteq> 0 \<Longrightarrow> \<not> ttl < 1" by (simp add: word_less_1)
  then show ?thesis by (simp add: ValidateTTL_def)
qed

lemma first_error_None_iff [simp]: "first_error cs = None \<longleftrightarrow> (\<forall>c \<in> set cs. c = None)"
  by (induction cs) (auto simp: first_error_def simp del: not_None_eq)

lemma ValidateEncap_iff:
  "snd (ValidateEncap cfg) = None \<longleftrightarrow>
     (cfg_Encap cfg = EncapNone \<or> cfg_Encap cfg \<in> {EncapFOU, EncapGUE} \<and> cfg_EncapDport cfg \<noteq> 0) \<and>
     (cfg_MTU cfg = 0 \<or> cfg_MTU cfg \<in> {576..9000})"
  by (auto simp: ValidateEncap_def mtu_check_def encap_defs)

text \<open>C39: A tunnel configuration is accepted exactly when its name has 1 to 15 letters, digits,
  hyphens or underscores and no reserved prefix, both ends are IPv4 addresses (4 bytes or
  IPv4-mapped) that are not unspecified, loopback or multicast and differ, the encapsulation
  is none or FOU/GUE with a destination port, and the MTU is 0 or between 576 and 9000; the
  key, the TTL and the source port are never a reason to refuse it.\<close>

theorem ValidateConfig_iff:
  "ValidateConfig cfg = None \<longleftrightarrow>
     length (cfg_Name cfg) \<in> {1..15} \<and> list_all name_char (cfg_Name cfg) \<and>
     list_all (\<lambda>p. \<not> has_prefix (cfg_Name cfg) p) reservedPrefixes \<and>
     (\<exists>l r. ip_To4 (cfg_LocalIP cfg) = Some l \<and> ip_To4 (cfg_RemoteIP cfg) = Some r \<and>
        host_octets l \<and> host_octets r \<and> l \<noteq> r) \<and>
     (cfg_Encap cfg = EncapNone \<or> cfg_Encap cfg \<in> {EncapFOU, EncapGUE} \<and> cfg_EncapDport cfg \<noteq> 0) \<and>
     (cfg_MTU cfg = 0 \<or> cfg_MTU cfg \<in> {576..9000})"
proof -
  have reserved: "reserved_error (cfg_Name cfg) = None \<longleftrightarrow>
      list_all (\<lambda>p. \<not> has_prefix (cfg_Name cfg) p) reservedPrefixes"
    by (auto simp: reserved_error_def list_all_iff find_None_iff split: option.split dest!: find_Some_iff [THEN iffD1] intro: nth_mem)
  have same: "ip_To4 (cfg_LocalIP cfg) = Some l \<Longrightarrow> ip_To4 (cfg_RemoteIP cfg) = Some r \<Longrightarrow>
      same_ip_error cfg = None \<longleftrightarrow> l \<noteq> r" for l r
    by (simp add: same_ip_error_def To4_Equal)
  show ?thesis
    by (auto simp: ValidateConfig_def ValidateTunnelName_iff reserved ValidateIP_iff same
        ValidateTTL_accepts ValidateEncap_iff)
qed

end
