(* ===== verification/Tunnel_Netlink.thy ===== *)
theory Tunnel_Netlink
  imports Tunnel_Errors Tunnel_Validate
begin

text \<open>
  The netlink boundary, \<open>internal/tunnel/netlink.go\<close>. The interface \<open>Netlinker\<close> is a
  record of functions over an abstract kernel state; the netlink library behind it is not
  part of the repository, so its functions and constants are fields of that record and
  what the tunnel code relies on is the locale \<open>netlink_laws\<close>. The locale is interpreted
  on the in-memory implementation with injected errors that the package's tests use
  (\<open>mockNetlinker\<close>), and its extensions \<open>netlink_fou_laws\<close> and \<open>netlink_cleanup\<close> on the same
  tables with the kernel's refusal of a second FOU port of the same number. \<open>DefaultNetlinker\<close>,
  which forwards to a netlink handle, inherits the laws of its handle.
\<close>

section \<open>Links, addresses and FOU ports\<close>

record LinkAttrs =
  la_Name :: string
  la_Flags :: "64 word"
  la_MTU :: int

record Gretun =
  gre_Attrs :: LinkAttrs
  gre_Local :: goip
  gre_Remote :: goip
  gre_IKey :: u32
  gre_OKey :: u32
  gre_Ttl :: byte
  gre_EncapType :: u16
  gre_EncapFlags :: u16
  gre_EncapSport :: u16
  gre_EncapDport :: u16

text \<open>A \<open>netlink.Link\<close> is a GRE tunnel or a link of another dynamic type, for which only
  the common attributes and the type string matter.\<close>

datatype link = GreLink Gretun | OtherLink LinkAttrs string

record Fou =
  fou_Family :: int
  fou_Port :: int
  fou_Protocol :: int
  fou_EncapType :: int

definition FlagUp :: "64 word" where "FlagUp = 1"
definition AF_INET :: int where "AF_INET = 2"
definition IPPROTO_GRE :: int where "IPPROTO_GRE = 47"

fun link_Attrs :: "link \<Rightarrow> LinkAttrs" where
  "link_Attrs (GreLink g) = gre_Attrs g"
| "link_Attrs (OtherLink a t) = a"

fun map_attrs :: "(LinkAttrs \<Rightarrow> LinkAttrs) \<Rightarrow> link \<Rightarrow> link" where
  "map_attrs f (GreLink g) = GreLink (g\<lparr>gre_Attrs := f (gre_Attrs g)\<rparr>)"
| "map_attrs f (OtherLink a t) = OtherLink (f a) t"

definition link_name :: "link \<Rightarrow> string" where
  "link_name l = la_Name (link_Attrs l)"

definition set_up_attrs :: "LinkAttrs \<Rightarrow> LinkAttrs" where
  "set_up_attrs a = a\<lparr>la_Flags := la_Flags a OR FlagUp\<rparr>"

definition set_mtu_attrs :: "int \<Rightarrow> LinkAttrs \<Rightarrow> LinkAttrs" where
  "set_mtu_attrs mtu a = a\<lparr>la_MTU := mtu\<rparr>"

section \<open>The interface\<close>

text \<open>An operation that changes the kernel returns its error and the new state; a query
  returns a result. The last fields are functions and constants of the netlink library:
  the type string of a link, the parser of addresses and the two encapsulation codes.\<close>

record 'k Netlinker =
  LinkAdd :: "link \<Rightarrow> 'k \<Rightarrow> goerror option \<times> 'k"
  LinkDel :: "link \<Rightarrow> 'k \<Rightarrow> goerror option \<times> 'k"
  LinkByName :: "string \<Rightarrow> 'k \<Rightarrow> link res"
  LinkSetUp :: "link \<Rightarrow> 'k \<Rightarrow> goerror option \<times> 'k"
  LinkSetMTU :: "link \<Rightarrow> int \<Rightarrow> 'k \<Rightarrow> goerror option \<times> 'k"
  LinkList :: "'k \<Rightarrow> link list res"
  AddrAdd :: "link \<Rightarrow> ipnet \<Rightarrow> 'k \<Rightarrow> goerror option \<times> 'k"
  AddrList :: "link \<Rightarrow> int \<Rightarrow> 'k \<Rightarrow> ipnet list res"
  FouAdd :: "Fou \<Rightarrow> 'k \<Rightarrow> goerror option \<times> 'k"
  FouDel :: "Fou \<Rightarrow> 'k \<Rightarrow> goerror option \<times> 'k"
  FouList :: "int \<Rightarrow> 'k \<Rightarrow> Fou list res"
  link_Type :: "link \<Rightarrow> string"
  nl_ParseAddr :: "string \<Rightarrow> ipnet res"
  FOU_ENCAP_DIRECT :: int
  FOU_ENCAP_GUE :: int

text \<open>The kernel may fill in attributes of a link (flags, MTU, the 4-byte form of an address);
  the configuration of a link is what it keeps.\<close>

fun same_conf :: "link \<Rightarrow> link \<Rightarrow> bool" where
  "same_conf (GreLink g) (GreLink h) \<longleftrightarrow>
     la_Name (gre_Attrs g) = la_Name (gre_Attrs h) \<and>
     ip_To4 (gre_Local g) = ip_To4 (gre_Local h) \<and> ip_To4 (gre_Remote g) = ip_To4 (gre_Remote h) \<and>
     gre_IKey g = gre_IKey h \<and> gre_OKey g = gre_OKey h \<and> gre_Ttl g = gre_Ttl h \<and>
     gre_EncapType g = gre_EncapType h \<and> gre_EncapFlags g = gre_EncapFlags h \<and>
     gre_EncapSport g = gre_EncapSport h \<and> gre_EncapDport g = gre_EncapDport h"
| "same_conf (OtherLink a t) (OtherLink b u) \<longleftrightarrow> la_Name a = la_Name b \<and> t = u"
| "same_conf _ _ \<longleftrightarrow> False"

definition link_MTU :: "link \<Rightarrow> int" where "link_MTU l = la_MTU (link_Attrs l)"
definition link_Flags :: "link \<Rightarrow> 64 word" where "link_Flags l = la_Flags (link_Attrs l)"

text \<open>What the tunnel code relies on, over the tables of links (by name), addresses (by link
  name) and FOU ports (by port number): an operation that fails changes nothing, one that
  succeeds changes its own table entry only, and a lookup reads the link table. Addition of
  a link is specified only for a name that is free, changes of a link only for one that
  exists. A lookup by name fails only for a link that does not exist: other failures of
  \<open>LinkByName\<close>, which the code takes for "not found" as well, are left out.\<close>

locale netlink_laws =
  fixes nl :: "'k Netlinker"
    and links_of :: "'k \<Rightarrow> string \<Rightarrow> link option"
    and addrs_of :: "'k \<Rightarrow> string \<Rightarrow> ipnet list"
    and fous_of :: "'k \<Rightarrow> int \<Rightarrow> Fou option"
  assumes by_name: "LinkByName nl n k = Inr l \<Longrightarrow> links_of k n = Some l"
    and by_name_err: "LinkByName nl n k = Inl e \<Longrightarrow> links_of k n = None"
    and named: "links_of k n = Some l \<Longrightarrow> link_name l = n"
    and link_list: "LinkList nl k = Inr ls \<Longrightarrow> l \<in> set ls \<Longrightarrow> links_of k (link_name l) = Some l"
    and link_add_err: "LinkAdd nl l k = (Some e, k') \<Longrightarrow>
      links_of k' = links_of k \<and> fous_of k' = fous_of k"
    and link_add: "LinkAdd nl l k = (None, k') \<Longrightarrow> links_of k (link_name l) = None \<Longrightarrow>
      fous_of k' = fous_of k \<and>
      (\<exists>l'. links_of k' = (links_of k)(link_name l \<mapsto> l') \<and> same_conf l l' \<and>
            (link_MTU l' = link_MTU l \<or> link_MTU l = 0))"
    and link_del_err: "LinkDel nl l k = (Some e, k') \<Longrightarrow>
      links_of k' = links_of k \<and> fous_of k' = fous_of k"
    and link_del: "LinkDel nl l k = (None, k') \<Longrightarrow>
      fous_of k' = fous_of k \<and> links_of k' = (links_of k)(link_name l := None)"
    and set_up_err: "LinkSetUp nl l k = (Some e, k') \<Longrightarrow>
      links_of k' = links_of k \<and> fous_of k' = fous_of k"
    and set_up: "LinkSetUp nl l k = (None, k') \<Longrightarrow> links_of k (link_name l) = Some l0 \<Longrightarrow>
      fous_of k' = fous_of k \<and>
      (\<exists>l'. links_of k' = (links_of k)(link_name l \<mapsto> l') \<and> same_conf l0 l' \<and>
            link_MTU l' = link_MTU l0 \<and> link_Flags l' AND FlagUp \<noteq> 0)"
    and set_mtu_err: "LinkSetMTU nl l m k = (Some e, k') \<Longrightarrow>
      links_of k' = links_of k \<and> fous_of k' = fous_of k"
    and set_mtu: "LinkSetMTU nl l m k = (None, k') \<Longrightarrow> links_of k (link_name l) = Some l0 \<Longrightarrow>
      fous_of k' = fous_of k \<and>
      (\<exists>l'. links_of k' = (links_of k)(link_name l \<mapsto> l') \<and> same_conf l0 l' \<and> link_MTU l' = m)"
    and addr_add_err: "AddrAdd nl l a k = (Some e, k') \<Longrightarrow>
      links_of k' = links_of k \<and> fous_of k' = fous_of k \<and> addrs_of k' = addrs_of k"
    and addr_add: "AddrAdd nl l a k = (None, k') \<Longrightarrow>
      links_of k' = links_of k \<and> fous_of k' = fous_of k \<and>
      addrs_of k' = (addrs_of k)(link_name l := addrs_of k (link_name l) @ [a])"
    and addr_list: "AddrList nl l 0 k = Inr as \<Longrightarrow> as = addrs_of k (link_name l)"
    and fou_add_err: "FouAdd nl f k = (Some e, k') \<Longrightarrow>
      links_of k' = links_of k \<and> fous_of k' = fous_of k"
    and fou_add: "FouAdd nl f k = (None, k') \<Longrightarrow>
      links_of k' = links_of k \<and> fous_of k' = (fous_of k)(fou_Port f \<mapsto> f)"
    and fou_del_err: "FouDel nl f k = (Some e, k') \<Longrightarrow>
      links_of k' = links_of k \<and> fous_of k' = fous_of k"
    and fou_del: "FouDel nl f k = (None, k') \<Longrightarrow>
      links_of k' = links_of k \<and> fous_of k' = (fous_of k)(fou_Port f := None)"
    and encap_codes: "0 < FOU_ENCAP_DIRECT nl" "FOU_ENCAP_DIRECT nl < 2 ^ 16"
      "0 < FOU_ENCAP_GUE nl" "FOU_ENCAP_GUE nl < 2 ^ 16" "FOU_ENCAP_DIRECT nl \<noteq> FOU_ENCAP_GUE nl"

text \<open>The kernel refuses to bind a FOU port twice, with \<open>EEXIST\<close>.\<close>

locale netlink_fou_laws = netlink_laws +
  assumes fou_add_free: "FouAdd nl f k = (None, k') \<Longrightarrow> fous_of k (fou_Port f) = None"
    and fou_add_exists: "FouAdd nl f k = (Some e, k') \<Longrightarrow> errors_Is_errno e EEXIST \<Longrightarrow>
      fous_of k (fou_Port f) \<noteq> None"

text \<open>Removing a link or a FOU port that exists does not fail.\<close>

locale netlink_cleanup = netlink_fou_laws +
  assumes link_del_ok: "links_of k (link_name l) \<noteq> None \<Longrightarrow> fst (LinkDel nl l k) = None"
    and fou_del_ok: "fous_of k (fou_Port f) \<noteq> None \<Longrightarrow> fst (FouDel nl f k) = None"

section \<open>The kernel's implementation\<close>

text \<open>\<open>DefaultNetlinker\<close> keeps a \<open>netlink.Handle\<close> and forwards to it. The methods of a handle have the
  signatures of the interface, so a handle is a value of the same record type; what releases
  its socket is an argument.\<close>

record 'k DefaultNetlinker =
  nl_handle :: "'k Netlinker"

definition NewDefaultNetlinker :: "'k Netlinker res \<Rightarrow> 'k DefaultNetlinker res" where
  "NewDefaultNetlinker newHandle =
     (case newHandle of Inl e \<Rightarrow> Inl e | Inr h \<Rightarrow> Inr \<lparr>nl_handle = h\<rparr>)"

definition Default_Close ::
  "('k Netlinker \<Rightarrow> 'k \<Rightarrow> 'k) \<Rightarrow> 'k DefaultNetlinker \<Rightarrow> 'k \<Rightarrow> goerror option \<times> 'k" where
  "Default_Close delete dnl k = (None, delete (nl_handle dnl) k)"

definition Default_LinkAdd :: "'k DefaultNetlinker \<Rightarrow> link \<Rightarrow> 'k \<Rightarrow> goerror option \<times> 'k" where
  "Default_LinkAdd dnl l = LinkAdd (nl_handle dnl) l"

definition Default_LinkDel :: "'k DefaultNetlinker \<Rightarrow> link \<Rightarrow> 'k \<Rightarrow> goerror option \<times> 'k" where
  "Default_LinkDel dnl l = LinkDel (nl_handle dnl) l"

definition Default_LinkByName :: "'k DefaultNetlinker \<Rightarrow> string \<Rightarrow> 'k \<Rightarrow> link res" where
  "Default_LinkByName dnl n = LinkByName (nl_handle dnl) n"

definition Default_LinkSetUp :: "'k DefaultNetlinker \<Rightarrow> link \<Rightarrow> 'k \<Rightarrow> goerror option \<times> 'k" where
  "Default_LinkSetUp dnl l = LinkSetUp (nl_handle dnl) l"

definition Default_LinkSetMTU :: "'k DefaultNetlinker \<Rightarrow> link \<Rightarrow> int \<Rightarrow> 'k \<Rightarrow> goerror option \<times> 'k" where
  "Default_LinkSetMTU dnl l mtu = LinkSetMTU (nl_handle dnl) l mtu"

definition Default_LinkList :: "'k DefaultNetlinker \<Rightarrow> 'k \<Rightarrow> link list res" where
  "Default_LinkList dnl = LinkList (nl_handle dnl)"

definition Default_AddrAdd :: "'k DefaultNetlinker \<Rightarrow> link \<Rightarrow> ipnet \<Rightarrow> 'k \<Rightarrow> goerror option \<times> 'k" where
  "Default_AddrAdd dnl l a = AddrAdd (nl_handle dnl) l a"

definition Default_AddrList :: "'k DefaultNetlinker \<Rightarrow> link \<Rightarrow> int \<Rightarrow> 'k \<Rightarrow> ipnet list res" where
  "Default_AddrList dnl l family = AddrList (nl_handle dnl) l family"

definition Default_FouAdd :: "'k DefaultNetlinker \<Rightarrow> Fou \<Rightarrow> 'k \<Rightarrow> goerror option \<times> 'k" where
  "Default_FouAdd dnl f = FouAdd (nl_handle dnl) f"

definition Default_FouDel :: "'k DefaultNetlinker \<Rightarrow> Fou \<Rightarrow> 'k \<Rightarrow> goerror option \<times> 'k" where
  "Default_FouDel dnl f = FouDel (nl_handle dnl) f"

definition Default_FouList :: "'k DefaultNetlinker \<Rightarrow> int \<Rightarrow> 'k \<Rightarrow> Fou list res" where
  "Default_FouList dnl family = FouList (nl_handle dnl) family"

text \<open>The value of the interface type that holds a \<open>DefaultNetlinker\<close>.\<close>

definition as_Netlinker :: "'k DefaultNetlinker \<Rightarrow> 'k Netlinker" where
  "as_Netlinker dnl =
     \<lparr>LinkAdd = Default_LinkAdd dnl, LinkDel = Default_LinkDel dnl, LinkByName = Default_LinkByName dnl,
      LinkSetUp = Default_LinkSetUp dnl, LinkSetMTU = Default_LinkSetMTU dnl, LinkList = Default_LinkList dnl,
      AddrAdd = Default_AddrAdd dnl, AddrList = Default_AddrList dnl, FouAdd = Default_FouAdd dnl,
      FouDel = Default_FouDel dnl, FouList = Default_FouList dnl, link_Type = link_Type (nl_handle dnl),
      nl_ParseAddr = nl_ParseAddr (nl_handle dnl), FOU_ENCAP_DIRECT = FOU_ENCAP_DIRECT (nl_handle dnl),
      FOU_ENCAP_GUE = FOU_ENCAP_GUE (nl_handle dnl)\<rparr>"

lemmas default_defs = Default_LinkAdd_def Default_LinkDel_def Default_LinkByName_def Default_LinkSetUp_def
  Default_LinkSetMTU_def Default_LinkList_def Default_AddrAdd_def Default_AddrList_def Default_FouAdd_def
  Default_FouDel_def Default_FouList_def

text \<open>Forwarding is transparent, so whatever laws the handle satisfies the interface value satisfies,
  and with them the theorems on tunnels hold for the programs, which use this
  implementation.\<close>

lemma as_Netlinker_transparent: "as_Netlinker dnl = nl_handle dnl"
  unfolding as_Netlinker_def by (rule Netlinker.equality) (simp_all add: default_defs fun_eq_iff)

locale kernel_handle =
  handle: netlink_cleanup "nl_handle dnl" links_of addrs_of fous_of
  for dnl :: "'k DefaultNetlinker" and links_of addrs_of fous_of

sublocale kernel_handle \<subseteq> dflt: netlink_cleanup "as_Netlinker dnl" links_of addrs_of fous_of
  unfolding as_Netlinker_transparent by (rule handle.netlink_cleanup_axioms)

section \<open>The in-memory implementation\<close>

text \<open>The tables, and the errors a test injects. The tests' counters of calls are left out, and
  the order in which a Go map is listed is given by \<open>m_order\<close> and \<open>m_fou_order\<close>. The
  implementation stores a link under its own name, which the projection \<open>mock_links\<close> makes
  explicit.\<close>

record mocknl =
  m_links :: "string \<rightharpoonup> link"
  m_addrs :: "string \<Rightarrow> ipnet list"
  m_fous :: "int \<rightharpoonup> Fou"
  m_order :: "string list"
  m_fou_order :: "int list"

record mockerrs =
  linkAddErr :: "goerror option"
  linkDelErr :: "goerror option"
  linkSetUpErr :: "goerror option"
  linkSetMTUErr :: "goerror option"
  linkListErr :: "goerror option"
  addrAddErr :: "goerror option"
  addrListErr :: "goerror option"
  fouAddErr :: "goerror option"
  fouDelErr :: "goerror option"
  fouListErr :: "goerror option"

definition newMockNetlinker :: mocknl where
  "newMockNetlinker = \<lparr>m_links = Map.empty, m_addrs = (\<lambda>_. []), m_fous = Map.empty,
     m_order = [], m_fou_order = []\<rparr>"

definition no_errs :: mockerrs where
  "no_errs = \<lparr>linkAddErr = None, linkDelErr = None, linkSetUpErr = None, linkSetMTUErr = None,
     linkListErr = None, addrAddErr = None, addrListErr = None, fouAddErr = None, fouDelErr = None,
     fouListErr = None\<rparr>"

definition mock_links :: "mocknl \<Rightarrow> string \<Rightarrow> link option" where
  "mock_links m n = (case m_links m n of Some l \<Rightarrow> if link_name l = n then Some l else None | None \<Rightarrow> None)"

definition guard_err :: "goerror option \<Rightarrow> mocknl \<Rightarrow> mocknl \<Rightarrow> goerror option \<times> mocknl" where
  "guard_err err m m' = (case err of Some e \<Rightarrow> (Some e, m) | None \<Rightarrow> (None, m'))"

definition mock_on_link :: "(LinkAttrs \<Rightarrow> LinkAttrs) \<Rightarrow> link \<Rightarrow> mocknl \<Rightarrow> mocknl" where
  "mock_on_link f l m =
     m\<lparr>m_links := (m_links m)(link_name l := map_option (map_attrs f) (m_links m (link_name l)))\<rparr>"

definition mockNetlinker :: "mockerrs \<Rightarrow> (string \<Rightarrow> ipnet res) \<Rightarrow> mocknl Netlinker" where
  "mockNetlinker errs parse =
     \<lparr>LinkAdd = (\<lambda>l m. guard_err (linkAddErr errs) m (m\<lparr>m_links := (m_links m)(link_name l \<mapsto> l)\<rparr>)),
      LinkDel = (\<lambda>l m. guard_err (linkDelErr errs) m (m\<lparr>m_links := (m_links m)(link_name l := None)\<rparr>)),
      LinkByName = (\<lambda>n m. case mock_links m n of None \<Rightarrow> Inl (EMsg ''link not found'') | Some l \<Rightarrow> Inr l),
      LinkSetUp = (\<lambda>l m. guard_err (linkSetUpErr errs) m (mock_on_link set_up_attrs l m)),
      LinkSetMTU = (\<lambda>l mtu m. guard_err (linkSetMTUErr errs) m (mock_on_link (set_mtu_attrs mtu) l m)),
      LinkList = (\<lambda>m. case linkListErr errs of Some e \<Rightarrow> Inl e
                      | None \<Rightarrow> Inr (List.map_filter (mock_links m) (m_order m))),
      AddrAdd = (\<lambda>l a m. guard_err (addrAddErr errs) m
                   (m\<lparr>m_addrs := (m_addrs m)(link_name l := m_addrs m (link_name l) @ [a])\<rparr>)),
      AddrList = (\<lambda>l fam m. case addrListErr errs of Some e \<Rightarrow> Inl e | None \<Rightarrow> Inr (m_addrs m (link_name l))),
      FouAdd = (\<lambda>f m. guard_err (fouAddErr errs) m (m\<lparr>m_fous := (m_fous m)(fou_Port f \<mapsto> f)\<rparr>)),
      FouDel = (\<lambda>f m. guard_err (fouDelErr errs) m (m\<lparr>m_fous := (m_fous m)(fou_Port f := None)\<rparr>)),
      FouList = (\<lambda>fam m. case fouListErr errs of Some e \<Rightarrow> Inl e | None \<Rightarrow>
        Inr (filter (\<lambda>f. fam = 0 \<or> fou_Family f = fam) (List.map_filter (m_fous m) (m_fou_order m)))),
      link_Type = (\<lambda>l. case l of GreLink g \<Rightarrow> ''gre'' | OtherLink a t \<Rightarrow> t),
      nl_ParseAddr = parse,
      FOU_ENCAP_DIRECT = 1, FOU_ENCAP_GUE = 2\<rparr>"

text \<open>The same tables with the kernel's behaviour on FOU ports: a bound port is refused with
  \<open>EEXIST\<close>, and without the module (an injected error) the operation is not supported.\<close>

definition kernelNetlinker :: "mockerrs \<Rightarrow> (string \<Rightarrow> ipnet res) \<Rightarrow> mocknl Netlinker" where
  "kernelNetlinker errs parse =
     (mockNetlinker errs parse)\<lparr>FouAdd := (\<lambda>f m.
        if m_fous m (fou_Port f) \<noteq> None then (Some (EErrno EEXIST), m)
        else if fouAddErr errs \<noteq> None then (Some (EErrno EOPNOTSUPP), m)
        else (None, m\<lparr>m_fous := (m_fous m)(fou_Port f \<mapsto> f)\<rparr>))\<rparr>"

section \<open>The implementation satisfies the laws\<close>

lemma map_attrs_facts [simp]:
  "link_name (map_attrs set_up_attrs l) = link_name l"
  "link_name (map_attrs (set_mtu_attrs m) l) = link_name l"
  "same_conf l (map_attrs set_up_attrs l)"
  "same_conf l (map_attrs (set_mtu_attrs m) l)"
  "same_conf l l"
  "link_MTU (map_attrs set_up_attrs l) = link_MTU l"
  "link_MTU (map_attrs (set_mtu_attrs m) l) = m"
  by (cases l; simp add: link_name_def link_MTU_def set_up_attrs_def set_mtu_attrs_def)+

lemma FlagUp_nonzero [simp]: "FlagUp \<noteq> 0"
  by (simp add: FlagUp_def)

lemma map_attrs_up [simp]: "link_Flags (map_attrs set_up_attrs l) AND FlagUp \<noteq> 0"
  by (cases l) (simp_all add: link_Flags_def set_up_attrs_def)

lemma guard_err_simps [simp]:
  "guard_err err m m' = (Some e, m'') \<longleftrightarrow> err = Some e \<and> m'' = m"
  "guard_err err m m' = (None, m'') \<longleftrightarrow> err = None \<and> m'' = m'"
  "fst (guard_err err m m') = err"
  by (auto simp: guard_err_def split: option.split)

lemma mock_links_named: "mock_links m n = Some l \<Longrightarrow> link_name l = n"
  by (auto simp: mock_links_def split: option.splits if_splits)

lemma mock_links_upd [simp]:
  "mock_links (m\<lparr>m_links := (m_links m)(link_name l \<mapsto> l)\<rparr>) = (mock_links m)(link_name l \<mapsto> l)"
  "mock_links (m\<lparr>m_links := (m_links m)(n := None)\<rparr>) = (mock_links m)(n := None)"
  by (auto simp: mock_links_def fun_eq_iff)

lemma mock_links_on_link:
  assumes "\<And>l. link_name (map_attrs f l) = link_name l"
  shows "mock_links (mock_on_link f l m) =
    (mock_links m)(link_name l := map_option (map_attrs f) (mock_links m (link_name l)))"
  using assms by (auto simp: mock_links_def mock_on_link_def fun_eq_iff split: option.split)

lemma mock_links_other [simp]:
  "mock_links (m\<lparr>m_addrs := a\<rparr>) = mock_links m"
  "mock_links (m\<lparr>m_fous := f\<rparr>) = mock_links m"
  by (simp_all add: mock_links_def fun_eq_iff)

lemma mock_on_link_other [simp]:
  "m_fous (mock_on_link f l m) = m_fous m"
  "m_addrs (mock_on_link f l m) = m_addrs m"
  by (simp_all add: mock_on_link_def)

lemma in_map_filter: "x \<in> set (List.map_filter f ys) \<longleftrightarrow> (\<exists>y \<in> set ys. f y = Some x)"
  by (induction ys) (auto simp: map_filter_simps split: option.split)

lemmas mock_facts = mockNetlinker_def mock_links_on_link mock_links_named in_map_filter

interpretation mock: netlink_laws "mockNetlinker errs parse" mock_links m_addrs m_fous
  for errs parse
  by unfold_locales (force simp: mock_facts split: option.splits)+

interpretation kern: netlink_fou_laws "kernelNetlinker errs parse" mock_links m_addrs m_fous
  for errs parse
  by unfold_locales
    (force simp: kernelNetlinker_def mock_facts errors_Is_errno_def errno_defs
      split: option.splits if_splits)+

interpretation clean: netlink_cleanup
  "kernelNetlinker (errs\<lparr>linkDelErr := None, fouDelErr := None\<rparr>) parse" mock_links m_addrs m_fous
  for errs parse
  by unfold_locales (simp_all add: kernelNetlinker_def mockNetlinker_def)

interpretation dev: kernel_handle
  "\<lparr>nl_handle = kernelNetlinker (errs\<lparr>linkDelErr := None, fouDelErr := None\<rparr>) parse\<rparr>" mock_links m_addrs m_fous
  for errs parse
  by (simp add: kernel_handle_def clean.netlink_cleanup_axioms)

end
