(* ===== verification/Tunnel_Gre.thy ===== *)
theory Tunnel_Gre
  imports Tunnel_Netlink
begin

text \<open>
  The operations on GRE tunnels, \<open>internal/tunnel/gre.go\<close> and \<open>internal/tunnel/list.go\<close>,
  with the roll-back of every failure path, over an arbitrary \<open>Netlinker\<close>. Log output is
  left out: a warning about a failed clean-up changes no state.
\<close>

section \<open>Operations\<close>

definition defaultTTL :: byte where "defaultTTL = 64"
definition tunnelEncapFlagCSum :: u16 where "tunnelEncapFlagCSum = 1"

definition fouEncapConst :: "'k Netlinker \<Rightarrow> EncapType \<Rightarrow> int" where
  "fouEncapConst nl e = (if e = EncapGUE then FOU_ENCAP_GUE nl else FOU_ENCAP_DIRECT nl)"

definition netlinkEncapConst :: "'k Netlinker \<Rightarrow> EncapType \<Rightarrow> int" where
  "netlinkEncapConst nl e = (if e = EncapGUE then FOU_ENCAP_GUE nl else FOU_ENCAP_DIRECT nl)"

definition fou_port :: "'k Netlinker \<Rightarrow> u16 \<Rightarrow> EncapType \<Rightarrow> Fou" where
  "fou_port nl port encap =
     \<lparr>fou_Family = AF_INET, fou_Port = uint port,
      fou_Protocol = (if encap = EncapGUE then 0 else IPPROTO_GRE),
      fou_EncapType = fouEncapConst nl encap\<rparr>"

definition EnsureFOU :: "'k Netlinker \<Rightarrow> u16 \<Rightarrow> EncapType \<Rightarrow> 'k \<Rightarrow> bool res \<times> 'k" where
  "EnsureFOU nl port encap k =
     (case FouAdd nl (fou_port nl port encap) k of
        (Some e, k') \<Rightarrow> (if errors_Is_errno e EEXIST then Inr False else Inl e, k')
      | (None, k') \<Rightarrow> (Inr True, k'))"

definition ensureFOU :: "'k Netlinker \<Rightarrow> Config \<Rightarrow> 'k \<Rightarrow> bool res \<times> 'k" where
  "ensureFOU nl cfg k = EnsureFOU nl (cfg_EncapDport cfg) (cfg_Encap cfg) k"

definition rollbackFOU :: "'k Netlinker \<Rightarrow> u16 \<Rightarrow> 'k \<Rightarrow> 'k" where
  "rollbackFOU nl port k =
     snd (FouDel nl \<lparr>fou_Family = AF_INET, fou_Port = uint port, fou_Protocol = 0, fou_EncapType = 0\<rparr> k)"

definition RemoveFOU :: "'k Netlinker \<Rightarrow> u16 \<Rightarrow> 'k \<Rightarrow> 'k" where
  "RemoveFOU nl port k = rollbackFOU nl port k"

definition applyEncap :: "'k Netlinker \<Rightarrow> Config \<Rightarrow> Gretun \<Rightarrow> Gretun" where
  "applyEncap nl cfg gre =
     (if cfg_Encap cfg = EncapNone then gre
      else let gre' = gre\<lparr>gre_EncapType := word_of_int (netlinkEncapConst nl (cfg_Encap cfg)),
                          gre_EncapSport := cfg_EncapSport cfg,
                          gre_EncapDport := cfg_EncapDport cfg\<rparr>
           in if cfg_EncapChecksum cfg then gre'\<lparr>gre_EncapFlags := tunnelEncapFlagCSum\<rparr> else gre')"

definition mtuOrDefault :: "Config \<Rightarrow> int" where
  "mtuOrDefault cfg =
     (if cfg_MTU cfg > 0 then cfg_MTU cfg
      else if cfg_Encap cfg \<noteq> EncapNone then DefaultFOUMTU else 0)"

definition new_gre :: "'k Netlinker \<Rightarrow> Config \<Rightarrow> Gretun" where
  "new_gre nl cfg =
     applyEncap nl cfg
       \<lparr>gre_Attrs = \<lparr>la_Name = cfg_Name cfg, la_Flags = 0, la_MTU = 0\<rparr>,
        gre_Local = cfg_LocalIP cfg, gre_Remote = cfg_RemoteIP cfg,
        gre_IKey = cfg_Key cfg, gre_OKey = cfg_Key cfg,
        gre_Ttl = (if cfg_TTL cfg = 0 then defaultTTL else cfg_TTL cfg),
        gre_EncapType = 0, gre_EncapFlags = 0, gre_EncapSport = 0, gre_EncapDport = 0\<rparr>"

text \<open>The steps of \<open>Create\<close> after the checks: \<open>undo_fou\<close> is the conditional roll-back of
  the FOU port, \<open>fail\<close> the translated error.\<close>

definition undo_fou :: "'k Netlinker \<Rightarrow> Config \<Rightarrow> bool \<Rightarrow> 'k \<Rightarrow> 'k" where
  "undo_fou nl cfg createdFou k = (if createdFou then rollbackFOU nl (cfg_EncapDport cfg) k else k)"

definition create_up :: "'k Netlinker \<Rightarrow> Config \<Rightarrow> bool \<Rightarrow> 'k \<Rightarrow> goerror option \<times> 'k" where
  "create_up nl cfg createdFou k =
     (let gre = GreLink (new_gre nl cfg) in
      case LinkSetUp nl gre k of
        (Some e, k1) \<Rightarrow>
          (TranslateNetlinkError (Some e) ''create'' (cfg_Name cfg),
           undo_fou nl cfg createdFou (snd (LinkDel nl gre k1)))
      | (None, k1) \<Rightarrow> (None, k1))"

definition create_mtu :: "'k Netlinker \<Rightarrow> Config \<Rightarrow> bool \<Rightarrow> 'k \<Rightarrow> goerror option \<times> 'k" where
  "create_mtu nl cfg createdFou k =
     (let gre = GreLink (new_gre nl cfg); mtu = mtuOrDefault cfg in
      if mtu > 0 then
        (case LinkSetMTU nl gre mtu k of
           (Some e, k1) \<Rightarrow>
             (TranslateNetlinkError (Some e) ''create'' (cfg_Name cfg),
              undo_fou nl cfg createdFou (snd (LinkDel nl gre k1)))
         | (None, k1) \<Rightarrow> create_up nl cfg createdFou k1)
      else create_up nl cfg createdFou k)"

definition create_link :: "'k Netlinker \<Rightarrow> Config \<Rightarrow> bool \<Rightarrow> 'k \<Rightarrow> goerror option \<times> 'k" where
  "create_link nl cfg createdFou k =
     (case LinkAdd nl (GreLink (new_gre nl cfg)) k of
        (Some e, k1) \<Rightarrow>
          (TranslateNetlinkError (Some e) ''create'' (cfg_Name cfg), undo_fou nl cfg createdFou k1)
      | (None, k1) \<Rightarrow> create_mtu nl cfg createdFou k1)"

definition Create :: "ctx \<Rightarrow> 'k Netlinker \<Rightarrow> Config \<Rightarrow> 'k \<Rightarrow> goerror option \<times> 'k" where
  "Create ctx nl cfg k =
     (case ctx of
        Some e \<Rightarrow> (Some e, k)
      | None \<Rightarrow>
          (case ValidateConfig cfg of
             Some e \<Rightarrow> (Some e, k)
           | None \<Rightarrow>
               (case LinkByName nl (cfg_Name cfg) k of
                  Inr _ \<Rightarrow> (Some (TunnelExistsError (cfg_Name cfg)), k)
                | Inl _ \<Rightarrow>
                    (if cfg_Encap cfg \<noteq> EncapNone then
                       (case ensureFOU nl cfg k of
                          (Inl e, k1) \<Rightarrow> (TranslateNetlinkError (Some e) ''create'' (cfg_Name cfg), k1)
                        | (Inr fou, k1) \<Rightarrow> create_link nl cfg fou k1)
                     else create_link nl cfg False k))))"

definition Delete :: "ctx \<Rightarrow> 'k Netlinker \<Rightarrow> string \<Rightarrow> 'k \<Rightarrow> goerror option \<times> 'k" where
  "Delete ctx nl name k =
     (case ctx of
        Some e \<Rightarrow> (Some e, k)
      | None \<Rightarrow>
          (case ValidateTunnelName name of
             Some e \<Rightarrow> (Some e, k)
           | None \<Rightarrow>
               (case LinkByName nl name k of
                  Inl _ \<Rightarrow> (Some (TunnelNotFoundError name), k)
                | Inr link \<Rightarrow>
                    (if link_Type nl link \<noteq> ''gre''
                     then (Some (InvalidTypeError name (link_Type nl link) ''''), k)
                     else case LinkDel nl link k of
                            (Some e, k1) \<Rightarrow> (TranslateNetlinkError (Some e) ''delete'' name, k1)
                          | (None, k1) \<Rightarrow> (None, k1)))))"

definition AssignIP :: "ctx \<Rightarrow> 'k Netlinker \<Rightarrow> string \<Rightarrow> string \<Rightarrow> 'k \<Rightarrow> goerror option \<times> 'k" where
  "AssignIP ctx nl name cidr k =
     (case ctx of
        Some e \<Rightarrow> (Some e, k)
      | None \<Rightarrow>
          (case ValidateTunnelName name of
             Some e \<Rightarrow> (Some e, k)
           | None \<Rightarrow>
               (case ValidateCIDR cidr of
                  Some e \<Rightarrow> (Some e, k)
                | None \<Rightarrow>
                    (case LinkByName nl name k of
                       Inl _ \<Rightarrow> (Some (TunnelNotFoundError name), k)
                     | Inr link \<Rightarrow>
                         (case nl_ParseAddr nl cidr of
                            Inl e \<Rightarrow> (Some (EWrap ''invalid CIDR %s: %w'' [AStr cidr] e), k)
                          | Inr addr \<Rightarrow>
                              (case AddrAdd nl link addr k of
                                 (Some e, k1) \<Rightarrow> (TranslateNetlinkError (Some e) ''assign-ip'' name, k1)
                               | (None, k1) \<Rightarrow> (None, k1)))))))"

definition ipToString :: "goip \<Rightarrow> string" where
  "ipToString ip = (if ip = None then '''' else ip_String ip)"

definition statusFromGretun :: "'k Netlinker \<Rightarrow> link \<Rightarrow> Gretun \<Rightarrow> Status" where
  "statusFromGretun nl link gre =
     \<lparr>st_Name = la_Name (link_Attrs link),
      st_LocalIP = ipToString (gre_Local gre), st_RemoteIP = ipToString (gre_Remote gre),
      st_Key = gre_IKey gre, st_TTL = gre_Ttl gre,
      st_Up = (la_Flags (link_Attrs link) AND FlagUp \<noteq> 0),
      st_TunnelIP = '''',
      st_Encap = (if uint (gre_EncapType gre) = FOU_ENCAP_DIRECT nl then ''fou''
                  else if uint (gre_EncapType gre) = FOU_ENCAP_GUE nl then ''gue'' else ''''),
      st_EncapSport = gre_EncapSport gre, st_EncapDport = gre_EncapDport gre,
      st_MTU = la_MTU (link_Attrs link)\<rparr>"

text \<open>The tunnel address of a status is the first address of the link, when the query for
  it succeeds.\<close>

definition with_tunnel_ip :: "'k Netlinker \<Rightarrow> link \<Rightarrow> 'k \<Rightarrow> Status \<Rightarrow> Status" where
  "with_tunnel_ip nl link k s =
     (case AddrList nl link 0 k of
        Inr (a # as) \<Rightarrow> s\<lparr>st_TunnelIP := ipnet_String a\<rparr>
      | _ \<Rightarrow> s)"

definition Get :: "ctx \<Rightarrow> 'k Netlinker \<Rightarrow> string \<Rightarrow> 'k \<Rightarrow> Status res" where
  "Get ctx nl name k =
     (case ctx of
        Some e \<Rightarrow> Inl e
      | None \<Rightarrow>
          (case LinkByName nl name k of
             Inl _ \<Rightarrow> Inl (TunnelNotFoundError name)
           | Inr link \<Rightarrow>
               (case link of
                  OtherLink a t \<Rightarrow> Inl (InvalidTypeError name (link_Type nl link) '''')
                | GreLink gre \<Rightarrow> Inr (with_tunnel_ip nl link k (statusFromGretun nl link gre)))))"

definition list_entry :: "'k Netlinker \<Rightarrow> 'k \<Rightarrow> link \<Rightarrow> Status option" where
  "list_entry nl k link =
     (if link_Type nl link \<noteq> ''gre'' then None
      else case link of
             OtherLink a t \<Rightarrow> None
           | GreLink gre \<Rightarrow> Some (with_tunnel_ip nl link k (statusFromGretun nl link gre)))"

definition List :: "ctx \<Rightarrow> 'k Netlinker \<Rightarrow> 'k \<Rightarrow> Status list res" where
  "List ctx nl k =
     (case ctx of
        Some e \<Rightarrow> Inl e
      | None \<Rightarrow>
          (case LinkList nl k of
             Inl e \<Rightarrow> Inl e
           | Inr links \<Rightarrow> Inr (List.map_filter (list_entry nl k) links)))"

section \<open>Properties\<close>

lemma new_gre_name [simp]: "link_name (GreLink (new_gre nl cfg)) = cfg_Name cfg"
  by (simp add: link_name_def new_gre_def applyEncap_def Let_def)

lemma fou_port_Port [simp]: "fou_Port (fou_port nl port encap) = uint port"
  by (simp add: fou_port_def)

lemma same_conf_name: "same_conf l l' \<Longrightarrow> link_name l' = link_name l"
  by (cases "(l, l')" rule: same_conf.cases) (simp_all add: link_name_def)

lemma same_conf_trans: "same_conf a b \<Longrightarrow> same_conf b c \<Longrightarrow> same_conf a c"
  by (cases "(a, b)" rule: same_conf.cases; cases "(b, c)" rule: same_conf.cases) auto

lemma translate_Some [simp]: "TranslateNetlinkError (Some e) op n = Some e' \<longleftrightarrow>
    e' = the (TranslateNetlinkError (Some e) op n)"
  using translate_not_nil [of e op n] by auto

lemma translate_Some_None [simp]: "TranslateNetlinkError (Some e) op n \<noteq> None"
  by (rule translate_not_nil)

subsection \<open>Opening the receive port\<close>

context netlink_fou_laws
begin

lemma EnsureFOU_spec:
  assumes "EnsureFOU nl port encap k = (r, k1)"
  shows "links_of k1 = links_of k"
    and "r = Inl e \<Longrightarrow> fous_of k1 = fous_of k"
    and "r = Inr created \<Longrightarrow>
      fous_of k1 = (if created then (fous_of k)(uint port \<mapsto> fou_port nl port encap) else fous_of k)"
    and "r = Inr created \<Longrightarrow> created \<longleftrightarrow> fous_of k (uint port) = None"
proof -
  let ?f = "fou_port nl port encap"
  obtain q where q: "FouAdd nl ?f k = (q, k1)"
    using assms by (auto simp: EnsureFOU_def split: prod.splits option.splits)
  show "links_of k1 = links_of k"
    using q fou_add [of ?f k k1] fou_add_err [of ?f k _ k1] by (cases q) auto
  show "r = Inl e \<Longrightarrow> fous_of k1 = fous_of k"
    using q assms fou_add_err [of ?f k _ k1] by (cases q) (auto simp: EnsureFOU_def)
  show "r = Inr created \<Longrightarrow>
      fous_of k1 = (if created then (fous_of k)(uint port \<mapsto> ?f) else fous_of k)"
    using q assms fou_add [of ?f k k1] fou_add_err [of ?f k _ k1]
    by (cases q) (auto simp: EnsureFOU_def split: if_splits)
  show "r = Inr created \<Longrightarrow> created \<longleftrightarrow> fous_of k (uint port) = None"
    using q assms fou_add_free [of ?f k k1] fou_add_exists [of ?f k _ k1]
    by (cases q) (auto simp: EnsureFOU_def split: if_splits)
qed

lemma ensureFOU_spec:
  assumes "ensureFOU nl cfg k = (r, k1)"
  shows "links_of k1 = links_of k"
    and "r = Inl e \<Longrightarrow> fous_of k1 = fous_of k"
    and "r = Inr created \<Longrightarrow>
      fous_of k1 = (if created then (fous_of k)(uint (cfg_EncapDport cfg) \<mapsto>
        fou_port nl (cfg_EncapDport cfg) (cfg_Encap cfg)) else fous_of k)"
    and "r = Inr created \<Longrightarrow> created \<longleftrightarrow> fous_of k (uint (cfg_EncapDport cfg)) = None"
  by (fact EnsureFOU_spec [OF assms [unfolded ensureFOU_def]])+

subsection \<open>Successful creation\<close>

lemma create_up_ok:
  assumes "create_up nl cfg created k = (None, k')" and "links_of k (cfg_Name cfg) = Some l"
  shows "fous_of k' = fous_of k \<and> (\<exists>l'. links_of k' = (links_of k)(cfg_Name cfg \<mapsto> l') \<and>
    same_conf l l' \<and> link_MTU l' = link_MTU l \<and> link_Flags l' AND FlagUp \<noteq> 0)"
proof -
  have "LinkSetUp nl (GreLink (new_gre nl cfg)) k = (None, k')"
    using assms(1) by (auto simp: create_up_def Let_def split: prod.splits option.splits)
  from set_up [OF this] assms(2) show ?thesis by simp
qed

lemma create_mtu_ok:
  assumes "create_mtu nl cfg created k = (None, k')" and "links_of k (cfg_Name cfg) = Some l"
  shows "fous_of k' = fous_of k \<and> (\<exists>l'. links_of k' = (links_of k)(cfg_Name cfg \<mapsto> l') \<and>
    same_conf l l' \<and> link_Flags l' AND FlagUp \<noteq> 0 \<and>
    link_MTU l' = (if mtuOrDefault cfg > 0 then mtuOrDefault cfg else link_MTU l))"
proof (cases "mtuOrDefault cfg > 0")
  case False
  with assms(1) have "create_up nl cfg created k = (None, k')" by (simp add: create_mtu_def Let_def)
  from create_up_ok [OF this assms(2)] False show ?thesis by auto
next
  case True
  let ?g = "GreLink (new_gre nl cfg)"
  from assms(1) True obtain k1 where k1: "LinkSetMTU nl ?g (mtuOrDefault cfg) k = (None, k1)"
    "create_up nl cfg created k1 = (None, k')"
    by (auto simp: create_mtu_def Let_def split: prod.splits option.splits)
  from set_mtu [OF k1(1)] assms(2) obtain l1 where
    l1: "links_of k1 = (links_of k)(cfg_Name cfg \<mapsto> l1)" "same_conf l l1"
      "link_MTU l1 = mtuOrDefault cfg" "fous_of k1 = fous_of k" by auto
  with create_up_ok [OF k1(2), of l1] True show ?thesis by (auto intro: same_conf_trans)
qed

lemma create_link_ok:
  assumes "create_link nl cfg created k = (None, k')" and "links_of k (cfg_Name cfg) = None"
  shows "fous_of k' = fous_of k \<and> (\<exists>l. links_of k' = (links_of k)(cfg_Name cfg \<mapsto> l) \<and>
    same_conf (GreLink (new_gre nl cfg)) l \<and> link_Flags l AND FlagUp \<noteq> 0 \<and>
    (mtuOrDefault cfg > 0 \<longrightarrow> link_MTU l = mtuOrDefault cfg))"
proof -
  let ?g = "GreLink (new_gre nl cfg)"
  from assms(1) obtain k1 where k1: "LinkAdd nl ?g k = (None, k1)"
    "create_mtu nl cfg created k1 = (None, k')"
    by (auto simp: create_link_def split: prod.splits option.splits)
  from link_add [OF k1(1)] assms(2) obtain l1 where
    l1: "links_of k1 = (links_of k)(cfg_Name cfg \<mapsto> l1)" "same_conf ?g l1" "fous_of k1 = fous_of k"
    by auto
  with create_mtu_ok [OF k1(2), of l1] show ?thesis by (auto intro: same_conf_trans)
qed

lemma Create_ok:
  assumes "Create ctx nl cfg k = (None, k')"
  obtains l where "ctx = None" "ValidateConfig cfg = None" "links_of k (cfg_Name cfg) = None"
    "links_of k' = (links_of k)(cfg_Name cfg \<mapsto> l)" "same_conf (GreLink (new_gre nl cfg)) l"
    "link_Flags l AND FlagUp \<noteq> 0" "mtuOrDefault cfg > 0 \<Longrightarrow> link_MTU l = mtuOrDefault cfg"
    "fous_of k' = (if cfg_Encap cfg \<noteq> EncapNone \<and> fous_of k (uint (cfg_EncapDport cfg)) = None
       then (fous_of k)(uint (cfg_EncapDport cfg) \<mapsto> fou_port nl (cfg_EncapDport cfg) (cfg_Encap cfg))
       else fous_of k)"
proof -
  from assms obtain e0 where pre: "ctx = None" "ValidateConfig cfg = None"
    and e0: "LinkByName nl (cfg_Name cfg) k = Inl e0"
    by (auto simp: Create_def split: option.splits sum.splits)
  have free: "links_of k (cfg_Name cfg) = None" using e0 by (rule by_name_err)
  show thesis
  proof (cases "cfg_Encap cfg = EncapNone")
    case True
    with assms pre e0 have "create_link nl cfg False k = (None, k')" by (simp add: Create_def)
    from create_link_ok [OF this free] True pre free that show thesis by auto
  next
    case False
    obtain r k1 where r: "ensureFOU nl cfg k = (r, k1)" by fastforce
    with assms pre e0 False obtain created where created: "r = Inr created"
      "create_link nl cfg created k1 = (None, k')"
      by (cases r) (auto simp: Create_def)
    note spec = ensureFOU_spec(1,3,4) [OF r]
    have free1: "links_of k1 (cfg_Name cfg) = None" using free spec(1) by simp
    from create_link_ok [OF created(2) this] spec(1) spec(2,3) [OF created(1)] False pre free that
    show thesis by auto
  qed
qed

text \<open>What a creation leaves alone, also when a removal in its roll-back fails: every other link, every
  other FOU port, and the port itself when it was there before.\<close>

lemma LinkDel_frame:
  "n \<noteq> link_name l \<Longrightarrow> links_of (snd (LinkDel nl l k)) n = links_of k n"
  "fous_of (snd (LinkDel nl l k)) = fous_of k"
  by (cases "LinkDel nl l k"; cases "fst (LinkDel nl l k)"; auto dest: link_del link_del_err)+

lemma undo_fou_frame:
  "links_of (undo_fou nl cfg created k) = links_of k"
  "p \<noteq> uint (cfg_EncapDport cfg) \<or> \<not> created \<Longrightarrow> fous_of (undo_fou nl cfg created k) p = fous_of k p"
proof -
  have "links_of (snd (FouDel nl f k)) = links_of k \<and> (p \<noteq> fou_Port f \<longrightarrow> fous_of (snd (FouDel nl f k)) p = fous_of k p)" for f
    by (cases "FouDel nl f k"; cases "fst (FouDel nl f k)") (auto dest: fou_del fou_del_err)
  then show "links_of (undo_fou nl cfg created k) = links_of k"
    "p \<noteq> uint (cfg_EncapDport cfg) \<or> \<not> created \<Longrightarrow> fous_of (undo_fou nl cfg created k) p = fous_of k p"
    by (auto simp: undo_fou_def rollbackFOU_def)
qed

lemma create_up_frame:
  assumes "create_up nl cfg created k = (r, k')" and "links_of k (cfg_Name cfg) = Some l"
  shows "n \<noteq> cfg_Name cfg \<Longrightarrow> links_of k' n = links_of k n"
    and "p \<noteq> uint (cfg_EncapDport cfg) \<or> \<not> created \<Longrightarrow> fous_of k' p = fous_of k p"
proof -
  let ?g = "GreLink (new_gre nl cfg)"
  obtain q k1 where q: "LinkSetUp nl ?g k = (q, k1)" by fastforce
  have same: "n \<noteq> cfg_Name cfg \<Longrightarrow> links_of k1 n = links_of k n" "fous_of k1 = fous_of k"
    using q set_up [of ?g k k1 l] set_up_err [of ?g k _ k1] assms(2) by (cases q; auto)+
  have k': "k' = k1 \<or> k' = undo_fou nl cfg created (snd (LinkDel nl ?g k1))"
    using assms(1) q by (auto simp: create_up_def Let_def split: option.splits)
  show "n \<noteq> cfg_Name cfg \<Longrightarrow> links_of k' n = links_of k n"
    using k' same(1) LinkDel_frame(1) [of n ?g k1] by (auto simp: undo_fou_frame(1))
  show "p \<noteq> uint (cfg_EncapDport cfg) \<or> \<not> created \<Longrightarrow> fous_of k' p = fous_of k p"
    using k' same(2) by (auto simp: undo_fou_frame(2) LinkDel_frame(2))
qed

lemma create_mtu_frame:
  assumes "create_mtu nl cfg created k = (r, k')" and "links_of k (cfg_Name cfg) = Some l"
  shows "n \<noteq> cfg_Name cfg \<Longrightarrow> links_of k' n = links_of k n"
    and "p \<noteq> uint (cfg_EncapDport cfg) \<or> \<not> created \<Longrightarrow> fous_of k' p = fous_of k p"
proof -
  let ?g = "GreLink (new_gre nl cfg)"
  obtain q k1 where q: "LinkSetMTU nl ?g (mtuOrDefault cfg) k = (q, k1)" by fastforce
  have same: "n \<noteq> cfg_Name cfg \<Longrightarrow> links_of k1 n = links_of k n" "fous_of k1 = fous_of k"
    "\<exists>l1. links_of k1 (cfg_Name cfg) = Some l1"
    using q set_mtu [of ?g "mtuOrDefault cfg" k k1 l] set_mtu_err [of ?g "mtuOrDefault cfg" k _ k1] assms(2)
    by (cases q; auto)+
  consider "create_up nl cfg created k = (r, k')" | "create_up nl cfg created k1 = (r, k')"
    | "k' = undo_fou nl cfg created (snd (LinkDel nl ?g k1))"
    using assms(1) q by (auto simp: create_mtu_def Let_def split: option.splits if_splits)
  note cases = this
  show "n \<noteq> cfg_Name cfg \<Longrightarrow> links_of k' n = links_of k n"
    using create_up_frame(1) [of cfg created k r k' l n] create_up_frame(1) [of cfg created k1 r k' _ n]
      same assms(2) LinkDel_frame(1) [of n ?g k1] by (cases rule: cases) (auto simp: undo_fou_frame(1))
  show "p \<noteq> uint (cfg_EncapDport cfg) \<or> \<not> created \<Longrightarrow> fous_of k' p = fous_of k p"
    using create_up_frame(2) [of cfg created k r k' l p] create_up_frame(2) [of cfg created k1 r k' _ p]
      same assms(2) by (cases rule: cases) (auto simp: undo_fou_frame(2) LinkDel_frame(2))
qed

lemma create_link_frame:
  assumes "create_link nl cfg created k = (r, k')" and "links_of k (cfg_Name cfg) = None"
  shows "n \<noteq> cfg_Name cfg \<Longrightarrow> links_of k' n = links_of k n"
    and "p \<noteq> uint (cfg_EncapDport cfg) \<or> \<not> created \<Longrightarrow> fous_of k' p = fous_of k p"
proof -
  let ?g = "GreLink (new_gre nl cfg)"
  obtain q k1 where q: "LinkAdd nl ?g k = (q, k1)" by fastforce
  have same: "n \<noteq> cfg_Name cfg \<Longrightarrow> links_of k1 n = links_of k n" "fous_of k1 = fous_of k"
    "q = None \<Longrightarrow> \<exists>l. links_of k1 (cfg_Name cfg) = Some l"
    using q link_add [of ?g k k1] link_add_err [of ?g k _ k1] assms(2) by (cases q; auto)+
  have k': "(q \<noteq> None \<and> k' = undo_fou nl cfg created k1) \<or> (q = None \<and> create_mtu nl cfg created k1 = (r, k'))"
    using assms(1) q by (auto simp: create_link_def split: option.splits)
  show "n \<noteq> cfg_Name cfg \<Longrightarrow> links_of k' n = links_of k n"
    using k' same create_mtu_frame(1) [of cfg created k1 r k' _ n] by (auto simp: undo_fou_frame(1))
  show "p \<noteq> uint (cfg_EncapDport cfg) \<or> \<not> created \<Longrightarrow> fous_of k' p = fous_of k p"
    using k' same create_mtu_frame(2) [of cfg created k1 r k' _ p] by (auto simp: undo_fou_frame(2))
qed

lemma Create_frame:
  assumes "Create ctx nl cfg k = (r, k')"
  shows "n \<noteq> cfg_Name cfg \<Longrightarrow> links_of k' n = links_of k n"
    and "p \<noteq> uint (cfg_EncapDport cfg) \<or> fous_of k p \<noteq> None \<Longrightarrow> fous_of k' p = fous_of k p"
proof -
  obtain q k1 where q: "ensureFOU nl cfg k = (q, k1)" by fastforce
  note fou = ensureFOU_spec [OF q]
  have "k' = k \<or> (\<exists>e. LinkByName nl (cfg_Name cfg) k = Inl e) \<and>
      (create_link nl cfg False k = (r, k') \<or> (\<exists>e. q = Inl e \<and> k' = k1) \<or>
       (\<exists>created. q = Inr created \<and> create_link nl cfg created k1 = (r, k')))"
    using assms q by (auto simp: Create_def split: option.splits sum.splits if_splits)
  then consider "k' = k" | "create_link nl cfg False k = (r, k')" "links_of k (cfg_Name cfg) = None"
    | e where "q = Inl e" "k' = k1"
    | created where "q = Inr created" "create_link nl cfg created k1 = (r, k')" "links_of k1 (cfg_Name cfg) = None"
    using by_name_err fou(1) by (metis (no_types))
  note cases = this
  show "n \<noteq> cfg_Name cfg \<Longrightarrow> links_of k' n = links_of k n"
    by (cases rule: cases) (auto simp: create_link_frame(1) fou(1))
  show "p \<noteq> uint (cfg_EncapDport cfg) \<or> fous_of k p \<noteq> None \<Longrightarrow> fous_of k' p = fous_of k p"
  proof (cases rule: cases)
    case (4 created)
    assume p: "p \<noteq> uint (cfg_EncapDport cfg) \<or> fous_of k p \<noteq> None"
    then have "p \<noteq> uint (cfg_EncapDport cfg) \<or> \<not> created" using fou(4) [OF 4(1)] by auto
    moreover from this have "fous_of k1 p = fous_of k p" using fou(3) [OF 4(1)] by auto
    ultimately show ?thesis using create_link_frame(2) [OF 4(2,3)] by simp
  qed (auto simp: create_link_frame(2) fou(2))
qed

end

subsection \<open>Failures are rolled back\<close>

context netlink_cleanup
begin

lemma rollback_removes:
  assumes "fous_of k (uint port) \<noteq> None"
  shows "fous_of (rollbackFOU nl port k) = (fous_of k)(uint port := None)"
    and "links_of (rollbackFOU nl port k) = links_of k"
proof -
  define f where "f = \<lparr>fou_Family = AF_INET, fou_Port = uint port, fou_Protocol = 0, fou_EncapType = 0\<rparr>"
  have "fst (FouDel nl f k) = None" using assms fou_del_ok [of k f] by (simp add: f_def)
  then have "FouDel nl f k = (None, snd (FouDel nl f k))" by (simp add: prod_eq_iff)
  from fou_del [OF this] show "fous_of (rollbackFOU nl port k) = (fous_of k)(uint port := None)"
    and "links_of (rollbackFOU nl port k) = links_of k"
    by (simp_all add: rollbackFOU_def f_def)
qed

text \<open>The FOU table while a creation is under way: what it was before, with the new port when
  this call added one.\<close>

lemma undo_fou_restores:
  assumes "fous_of k = (if created then F(uint (cfg_EncapDport cfg) \<mapsto> f) else F)"
    and "created \<Longrightarrow> F (uint (cfg_EncapDport cfg)) = None"
  shows "fous_of (undo_fou nl cfg created k) = F" and "links_of (undo_fou nl cfg created k) = links_of k"
  using assms rollback_removes [of k "cfg_EncapDport cfg"] by (auto simp: undo_fou_def fun_upd_idem)

lemma delete_restores:
  assumes "links_of k = L(cfg_Name cfg \<mapsto> l)" and "L (cfg_Name cfg) = None"
  shows "links_of (snd (LinkDel nl (GreLink (new_gre nl cfg)) k)) = L"
    and "fous_of (snd (LinkDel nl (GreLink (new_gre nl cfg)) k)) = fous_of k"
proof -
  let ?g = "GreLink (new_gre nl cfg)"
  have "fst (LinkDel nl ?g k) = None" using assms(1) by (intro link_del_ok) simp
  then have "LinkDel nl ?g k = (None, snd (LinkDel nl ?g k))" by (simp add: prod_eq_iff)
  from link_del [OF this] assms show "links_of (snd (LinkDel nl ?g k)) = L"
    and "fous_of (snd (LinkDel nl ?g k)) = fous_of k"
    by (simp_all add: fun_upd_idem)
qed

lemma create_up_atomic:
  assumes "create_up nl cfg created k = (Some e, k')"
    and "links_of k = L(cfg_Name cfg \<mapsto> l)" and "L (cfg_Name cfg) = None"
    and "fous_of k = (if created then F(uint (cfg_EncapDport cfg) \<mapsto> f) else F)"
    and "created \<Longrightarrow> F (uint (cfg_EncapDport cfg)) = None"
  shows "links_of k' = L \<and> fous_of k' = F"
proof (cases "LinkSetUp nl (GreLink (new_gre nl cfg)) k")
  case (Pair r k1)
  with assms(1) obtain e1 where r: "r = Some e1"
    and k': "k' = undo_fou nl cfg created (snd (LinkDel nl (GreLink (new_gre nl cfg)) k1))"
    by (cases r) (auto simp: create_up_def Let_def)
  from set_up_err Pair r have k1: "links_of k1 = links_of k" "fous_of k1 = fous_of k" by blast+
  with assms(2,3) have d: "links_of (snd (LinkDel nl (GreLink (new_gre nl cfg)) k1)) = L"
    "fous_of (snd (LinkDel nl (GreLink (new_gre nl cfg)) k1)) = fous_of k1"
    using delete_restores [of k1 L cfg l] by simp_all
  with k1 assms(4,5) show ?thesis
    unfolding k' by (simp add: undo_fou_restores [where F = F and f = f])
qed

lemma create_mtu_atomic:
  assumes "create_mtu nl cfg created k = (Some e, k')"
    and "links_of k = L(cfg_Name cfg \<mapsto> l)" and "L (cfg_Name cfg) = None"
    and "fous_of k = (if created then F(uint (cfg_EncapDport cfg) \<mapsto> f) else F)"
    and "created \<Longrightarrow> F (uint (cfg_EncapDport cfg)) = None"
  shows "links_of k' = L \<and> fous_of k' = F"
proof (cases "mtuOrDefault cfg > 0")
  case False
  with assms(1) have "create_up nl cfg created k = (Some e, k')" by (simp add: create_mtu_def Let_def)
  from create_up_atomic [OF this assms(2-5)] show ?thesis by simp
next
  case True
  let ?g = "GreLink (new_gre nl cfg)"
  show ?thesis
  proof (cases "LinkSetMTU nl ?g (mtuOrDefault cfg) k")
    case (Pair r k1)
    show ?thesis
    proof (cases r)
      case None
      with Pair set_mtu [of ?g "mtuOrDefault cfg" k k1 l] assms(2)
      obtain l' where k1: "links_of k1 = L(cfg_Name cfg \<mapsto> l')" "fous_of k1 = fous_of k" by auto
      moreover have "create_up nl cfg created k1 = (Some e, k')"
        using assms(1) True Pair None by (simp add: create_mtu_def Let_def)
      ultimately show ?thesis
        using assms(3-5) create_up_atomic [of cfg created k1 e k' L l' F f] by simp
    next
      case (Some e1)
      with assms(1) True Pair have k': "k' = undo_fou nl cfg created (snd (LinkDel nl ?g k1))"
        by (simp add: create_mtu_def Let_def)
      from set_mtu_err Pair Some have k1: "links_of k1 = links_of k" "fous_of k1 = fous_of k" by blast+
      with assms(2,3) have "links_of (snd (LinkDel nl ?g k1)) = L"
        "fous_of (snd (LinkDel nl ?g k1)) = fous_of k1"
        using delete_restores [of k1 L cfg l] by simp_all
      with k1 assms(4,5) show ?thesis
        unfolding k' by (simp add: undo_fou_restores [where F = F and f = f])
    qed
  qed
qed

lemma create_link_atomic:
  assumes "create_link nl cfg created k = (Some e, k')"
    and "links_of k (cfg_Name cfg) = None"
    and "fous_of k = (if created then F(uint (cfg_EncapDport cfg) \<mapsto> f) else F)"
    and "created \<Longrightarrow> F (uint (cfg_EncapDport cfg)) = None"
  shows "links_of k' = links_of k \<and> fous_of k' = F"
proof (cases "LinkAdd nl (GreLink (new_gre nl cfg)) k")
  case (Pair r k1)
  let ?g = "GreLink (new_gre nl cfg)"
  show ?thesis
  proof (cases r)
    case None
    with Pair link_add [of ?g k k1] assms(2) obtain l'
      where k1: "links_of k1 = (links_of k)(cfg_Name cfg \<mapsto> l')" "fous_of k1 = fous_of k" by auto
    moreover have "create_mtu nl cfg created k1 = (Some e, k')"
      using assms(1) Pair None by (simp add: create_link_def)
    ultimately show ?thesis
      using assms(2-4) create_mtu_atomic [of cfg created k1 e k' "links_of k" l' F f] by simp
  next
    case (Some e1)
    with assms(1) Pair have "k' = undo_fou nl cfg created k1" by (simp add: create_link_def)
    moreover from link_add_err Pair Some have "links_of k1 = links_of k" "fous_of k1 = fous_of k" by blast+
    ultimately show ?thesis
      using assms(3,4) by (simp add: undo_fou_restores [where F = F and f = f])
  qed
qed

lemma Create_atomic:
  assumes "Create ctx nl cfg k = (Some e, k')"
  shows "links_of k' = links_of k \<and> fous_of k' = fous_of k"
proof (cases "ctx = None \<and> ValidateConfig cfg = None \<and> (\<exists>e. LinkByName nl (cfg_Name cfg) k = Inl e)")
  case False
  with assms show ?thesis by (auto simp: Create_def split: option.splits sum.splits)
next
  case True
  then obtain e0 where e0: "LinkByName nl (cfg_Name cfg) k = Inl e0" by blast
  then have free: "links_of k (cfg_Name cfg) = None" by (rule by_name_err)
  show ?thesis
  proof (cases "cfg_Encap cfg = EncapNone")
    case none: True
    with assms True e0 have "create_link nl cfg False k = (Some e, k')" by (simp add: Create_def)
    from create_link_atomic [OF this free, of "fous_of k"] show ?thesis by simp
  next
    case encap: False
    obtain r k1 where r: "ensureFOU nl cfg k = (r, k1)" by fastforce
    note spec = ensureFOU_spec [OF r]
    show ?thesis
    proof (cases r)
      case (Inl e1)
      with assms True e0 encap r have "k' = k1" by (simp add: Create_def)
      with spec(1) spec(2) [OF Inl] show ?thesis by simp
    next
      case (Inr created)
      with assms True e0 encap r have "create_link nl cfg created k1 = (Some e, k')"
        by (simp add: Create_def)
      moreover have "links_of k1 (cfg_Name cfg) = None" using free spec(1) by simp
      ultimately show ?thesis
        using create_link_atomic [of cfg created k1 e k' "fous_of k"] spec(1) spec(3,4) [OF Inr]
        by simp
    qed
  qed
qed

end

subsection \<open>The properties\<close>

text \<open>A tunnel of the witnesses, over an in-memory kernel.\<close>

definition demo_cfg :: Config where
  "demo_cfg = \<lparr>cfg_Name = ''gre1'', cfg_LocalIP = Some [10, 0, 0, 1], cfg_RemoteIP = Some [10, 0, 0, 2],
     cfg_Key = 7, cfg_TTL = 0, cfg_MTU = 0, cfg_Encap = EncapFOU, cfg_EncapSport = 0,
     cfg_EncapDport = 7777, cfg_EncapChecksum = True\<rparr>"

definition demo_parse :: "string \<Rightarrow> ipnet res" where
  "demo_parse s = (case net_ParseCIDR s of
     None \<Rightarrow> Inl (EMsg ''invalid CIDR address'') | Some (ip, n) \<Rightarrow> Inr (n\<lparr>net_IP := ip_bytes ip\<rparr>))"

abbreviation demo_nl :: "mockerrs \<Rightarrow> mocknl Netlinker" where
  "demo_nl errs \<equiv> kernelNetlinker (errs\<lparr>linkDelErr := None, fouDelErr := None\<rparr>) demo_parse"

lemma demo_valid: "ValidateConfig demo_cfg = None"
  by code_simp

lemma demo_create_ok: "fst (Create background (demo_nl no_errs) demo_cfg newMockNetlinker) = None"
  by code_simp

lemma demo_create_fails:
  "fst (Create background (demo_nl (no_errs\<lparr>linkSetUpErr := Some (EErrno EPERM)\<rparr>)) demo_cfg newMockNetlinker) =
     Some (PermissionError ''create'' ''gre1'' ''requires CAP_NET_ADMIN capability or root privileges'')"
  by code_simp

text \<open>C3: A failed creation leaves no trace: whatever step fails (a cancelled context, an invalid
  configuration, an existing name, opening the FOU port, adding the link, setting its MTU or
  bringing it up), the tables of links and of FOU ports are afterwards what they were before,
  and a FOU port that existed before stays. The kernel is assumed to satisfy the netlink laws
  and not to fail when asked to remove what the call has just added.\<close>

theorem create_failure_atomic:
  assumes "netlink_cleanup nl links_of addrs_of fous_of"
    and "Create ctx nl cfg k = (Some e, k')"
  shows "links_of k' = links_of k \<and> fous_of k' = fous_of k"
  using assms by (rule netlink_cleanup.Create_atomic)

theorem create_failure_atomic_witness:
  "mock_links (snd (Create background (demo_nl (no_errs\<lparr>linkSetUpErr := Some (EErrno EPERM)\<rparr>))
     demo_cfg newMockNetlinker)) = mock_links newMockNetlinker"
  using create_failure_atomic [OF clean.netlink_cleanup_axioms prod_eqI
      [OF trans [OF demo_create_fails fst_conv [symmetric]] snd_conv [symmetric]]]
  by blast

text \<open>A removal that fails is only logged: then a link stays although its creation has failed.\<close>

lemma failed_cleanup_leaves_link:
  defines "nl \<equiv> kernelNetlinker (no_errs\<lparr>linkSetUpErr := Some (EErrno EPERM), linkDelErr := Some (EErrno EBUSY)\<rparr>) demo_parse"
  shows "fst (Create background nl demo_cfg newMockNetlinker) \<noteq> None"
    and "map_option link_name (mock_links (snd (Create background nl demo_cfg newMockNetlinker)) ''gre1'') = Some ''gre1''"
  unfolding nl_def by code_simp+

lemma same_conf_GreLink:
  assumes "same_conf (GreLink g) l"
  obtains h where "l = GreLink h" "same_conf (GreLink g) (GreLink h)"
  using assms by (cases l) auto

lemma To4_String: "ip_To4 x = Some v \<Longrightarrow> ip_String x = ip_String (Some v)"
  by (erule To4_cases) (auto simp: ip_String_def ip_To4_def ip_bytes_def Let_def v4_in_v6_prefix_def)

lemma with_tunnel_ip_fields [simp]:
  "st_Name (with_tunnel_ip nl l k s) = st_Name s"
  "st_LocalIP (with_tunnel_ip nl l k s) = st_LocalIP s"
  "st_RemoteIP (with_tunnel_ip nl l k s) = st_RemoteIP s"
  "st_Key (with_tunnel_ip nl l k s) = st_Key s"
  "st_TTL (with_tunnel_ip nl l k s) = st_TTL s"
  "st_Up (with_tunnel_ip nl l k s) = st_Up s"
  "st_Encap (with_tunnel_ip nl l k s) = st_Encap s"
  "st_EncapSport (with_tunnel_ip nl l k s) = st_EncapSport s"
  "st_EncapDport (with_tunnel_ip nl l k s) = st_EncapDport s"
  "st_MTU (with_tunnel_ip nl l k s) = st_MTU s"
  by (auto simp: with_tunnel_ip_def split: sum.split list.split)

lemma new_gre_fields:
  "gre_Local (new_gre nl cfg) = cfg_LocalIP cfg" "gre_Remote (new_gre nl cfg) = cfg_RemoteIP cfg"
  "gre_IKey (new_gre nl cfg) = cfg_Key cfg"
  "gre_Ttl (new_gre nl cfg) = (if cfg_TTL cfg = 0 then 64 else cfg_TTL cfg)"
  "gre_EncapDport (new_gre nl cfg) = (if cfg_Encap cfg = EncapNone then 0 else cfg_EncapDport cfg)"
  "la_Name (gre_Attrs (new_gre nl cfg)) = cfg_Name cfg"
  by (simp_all add: new_gre_def applyEncap_def Let_def defaultTTL_def)

lemma To4_ipToString: "ip_To4 x = Some v \<Longrightarrow> ipToString x = ip_String (Some v)"
  by (auto simp: ipToString_def To4_String elim: To4_cases)

lemma mtuOrDefault_cases:
  assumes "cfg_MTU cfg \<ge> 0"
  shows "cfg_MTU cfg \<noteq> 0 \<Longrightarrow> mtuOrDefault cfg = cfg_MTU cfg"
    and "cfg_MTU cfg = 0 \<Longrightarrow> cfg_Encap cfg \<noteq> EncapNone \<Longrightarrow> mtuOrDefault cfg = 1468"
  using assms by (simp_all add: mtuOrDefault_def DefaultFOUMTU_def)

context netlink_laws
begin

lemma LinkByName_present: "links_of k n = Some l \<Longrightarrow> LinkByName nl n k = Inr l"
  using by_name [of n k] by_name_err [of n k] by (cases "LinkByName nl n k") fastforce+

end

context netlink_fou_laws
begin

lemma encap_name:
  assumes "cfg_Encap cfg \<in> {EncapNone, EncapFOU, EncapGUE}"
    and "same_conf (GreLink (new_gre nl cfg)) (GreLink h)"
  shows "st_Encap (statusFromGretun nl l h) =
    (if cfg_Encap cfg = EncapNone then '''' else encapTypeName (cfg_Encap cfg))"
proof -
  have code: "uint (word_of_int c :: u16) = c" if "0 < c" "c < 2 ^ 16" for c
    using that by (simp add: uint_word_of_int_eq take_bit_int_eq_self)
  from assms(2) have "gre_EncapType h = gre_EncapType (new_gre nl cfg)" by simp
  with assms(1) encap_codes code [OF encap_codes(1,2)] code [OF encap_codes(3,4)] show ?thesis
    by (auto simp: statusFromGretun_def new_gre_def applyEncap_def Let_def netlinkEncapConst_def
        encapTypeName_def encap_defs)
qed

lemma Create_Get:
  assumes "Create ctx nl cfg k = (None, k')"
  shows "\<exists>s. Get background nl (cfg_Name cfg) k' = Inr s \<and> st_Name s = cfg_Name cfg \<and> st_Up s \<and>
    st_LocalIP s = ip_String (cfg_LocalIP cfg) \<and> st_RemoteIP s = ip_String (cfg_RemoteIP cfg) \<and>
    st_Key s = cfg_Key cfg \<and> st_TTL s = (if cfg_TTL cfg = 0 then 64 else cfg_TTL cfg) \<and>
    st_Encap s = (if cfg_Encap cfg = EncapNone then '''' else encapTypeName (cfg_Encap cfg)) \<and>
    st_EncapDport s = (if cfg_Encap cfg = EncapNone then 0 else cfg_EncapDport cfg) \<and>
    (cfg_MTU cfg \<noteq> 0 \<longrightarrow> st_MTU s = cfg_MTU cfg) \<and>
    (cfg_MTU cfg = 0 \<and> cfg_Encap cfg \<noteq> EncapNone \<longrightarrow> st_MTU s = 1468)"
proof -
  from assms obtain l where l: "ValidateConfig cfg = None" "links_of k' (cfg_Name cfg) = Some l"
    "same_conf (GreLink (new_gre nl cfg)) l" "link_Flags l AND FlagUp \<noteq> 0"
    "mtuOrDefault cfg > 0 \<Longrightarrow> link_MTU l = mtuOrDefault cfg"
    by (rule Create_ok) simp
  from l(3) obtain h where h: "l = GreLink h" "same_conf (GreLink (new_gre nl cfg)) (GreLink h)"
    by (rule same_conf_GreLink)
  obtain v w where v: "ip_To4 (cfg_LocalIP cfg) = Some v" and w: "ip_To4 (cfg_RemoteIP cfg) = Some w"
    using l(1) by (auto simp: ValidateConfig_def ValidateIP_iff)
  have enc: "cfg_Encap cfg \<in> {EncapNone, EncapFOU, EncapGUE}" and mtu: "cfg_MTU cfg \<ge> 0"
    using l(1) by (auto simp: ValidateConfig_def ValidateEncap_iff)
  let ?s = "with_tunnel_ip nl l k' (statusFromGretun nl l h)"
  have get: "Get background nl (cfg_Name cfg) k' = Inr ?s"
    using LinkByName_present [OF l(2)] h(1) by (simp add: Get_def)
  have same: "ip_To4 (gre_Local h) = Some v" "ip_To4 (gre_Remote h) = Some w"
    "gre_IKey h = cfg_Key cfg" "gre_Ttl h = (if cfg_TTL cfg = 0 then 64 else cfg_TTL cfg)"
    "gre_EncapDport h = (if cfg_Encap cfg = EncapNone then 0 else cfg_EncapDport cfg)"
    "la_Name (gre_Attrs h) = cfg_Name cfg"
    using h(2) v w by (simp_all add: new_gre_fields)
  have mtus: "cfg_MTU cfg \<noteq> 0 \<Longrightarrow> link_MTU l = cfg_MTU cfg"
    "cfg_MTU cfg = 0 \<Longrightarrow> cfg_Encap cfg \<noteq> EncapNone \<Longrightarrow> link_MTU l = 1468"
    using l(5) mtuOrDefault_cases [OF mtu] mtu by simp_all
  have base: "st_Up ?s" "st_MTU ?s = link_MTU l"
    "st_Encap ?s = (if cfg_Encap cfg = EncapNone then '''' else encapTypeName (cfg_Encap cfg))"
    using l(4) encap_name [OF enc h(2)]
    by (simp_all only: with_tunnel_ip_fields) (simp_all add: statusFromGretun_def link_Flags_def link_MTU_def)
  show ?thesis
    using get base mtus same To4_ipToString [OF same(1)] To4_ipToString [OF same(2)]
      To4_String [OF v] To4_String [OF w]
    by (intro exI [of _ ?s]) (simp add: statusFromGretun_def h(1))
qed

end

text \<open>C20: After a successful creation the status query for the tunnel's name succeeds and reports
  the configuration: both ends, the key, the TTL (64 when the configuration has 0), the
  encapsulation with its destination port, the MTU (1468 by default with FOU or GUE), and the
  link is up.\<close>

theorem create_then_get:
  assumes "netlink_fou_laws nl links_of addrs_of fous_of"
    and "Create ctx nl cfg k = (None, k')"
  shows "\<exists>s. Get background nl (cfg_Name cfg) k' = Inr s \<and> st_Name s = cfg_Name cfg \<and> st_Up s \<and>
    st_LocalIP s = ip_String (cfg_LocalIP cfg) \<and> st_RemoteIP s = ip_String (cfg_RemoteIP cfg) \<and>
    st_Key s = cfg_Key cfg \<and> st_TTL s = (if cfg_TTL cfg = 0 then 64 else cfg_TTL cfg) \<and>
    st_Encap s = (if cfg_Encap cfg = EncapNone then '''' else encapTypeName (cfg_Encap cfg)) \<and>
    st_EncapDport s = (if cfg_Encap cfg = EncapNone then 0 else cfg_EncapDport cfg) \<and>
    (cfg_MTU cfg \<noteq> 0 \<longrightarrow> st_MTU s = cfg_MTU cfg) \<and>
    (cfg_MTU cfg = 0 \<and> cfg_Encap cfg \<noteq> EncapNone \<longrightarrow> st_MTU s = 1468)"
  using assms by (rule netlink_fou_laws.Create_Get)

lemma demo_created:
  obtains k' where "Create background (demo_nl no_errs) demo_cfg newMockNetlinker = (None, k')"
    "k' = snd (Create background (demo_nl no_errs) demo_cfg newMockNetlinker)"
  using demo_create_ok by (metis prod.collapse)

theorem create_then_get_witness:
  "\<exists>s. Get background (demo_nl no_errs) ''gre1''
     (snd (Create background (demo_nl no_errs) demo_cfg newMockNetlinker)) = Inr s \<and>
     st_LocalIP s = ''10.0.0.1'' \<and> st_Up s \<and> st_MTU s = 1468 \<and> st_Encap s = ''fou''"
proof (rule demo_created)
  fix k'
  assume k': "Create background (demo_nl no_errs) demo_cfg newMockNetlinker = (None, k')"
    "k' = snd (Create background (demo_nl no_errs) demo_cfg newMockNetlinker)"
  have "ip_String (cfg_LocalIP demo_cfg) = ''10.0.0.1''" by code_simp
  with create_then_get [OF kern.netlink_fou_laws_axioms k'(1)] show ?thesis
    unfolding k'(2) by (auto simp: demo_cfg_def encapTypeName_def encap_defs)
qed

context netlink_laws
begin

lemma Delete_ok:
  assumes "Delete ctx nl name k = (None, k')"
  obtains g where "links_of k name = Some g" "link_Type nl g = ''gre''"
    "links_of k' = (links_of k)(name := None)" "fous_of k' = fous_of k"
proof -
  from assms obtain g where g: "LinkByName nl name k = Inr g" "link_Type nl g = ''gre''"
    "LinkDel nl g k = (None, k')"
    by (auto simp: Delete_def split: option.splits sum.splits if_splits prod.splits)
  then have "links_of k name = Some g" by (simp add: by_name)
  moreover from named [OF this] have "link_name g = name" .
  ultimately show thesis using link_del [OF g(3)] g(2) that by simp
qed

lemma Delete_err:
  assumes "Delete ctx nl name k = (Some e, k')"
  shows "links_of k' = links_of k" "fous_of k' = fous_of k"
  using assms link_del_err
  by (auto simp: Delete_def split: option.splits sum.splits if_splits prod.splits)

lemma List_Get:
  assumes "List background nl k = Inr ss" and "s \<in> set ss"
  shows "Get background nl (st_Name s) k = Inr s"
proof -
  from assms obtain ls l where ls: "LinkList nl k = Inr ls" "l \<in> set ls" "list_entry nl k l = Some s"
    by (auto simp: List_def in_map_filter split: sum.splits)
  from ls(3) obtain g where g: "l = GreLink g" "s = with_tunnel_ip nl l k (statusFromGretun nl l g)"
    by (auto simp: list_entry_def split: if_splits link.splits)
  then have "st_Name s = link_name l" by (simp add: statusFromGretun_def link_name_def)
  with LinkByName_present [OF link_list [OF ls(1,2)]] g show ?thesis by (simp add: Get_def)
qed

lemma AssignIP_ok:
  assumes "AssignIP ctx nl name cidr k = (None, k')"
  obtains a where "nl_ParseAddr nl cidr = Inr a" "ValidateCIDR cidr = None" "links_of k name \<noteq> None"
    "links_of k' = links_of k" "fous_of k' = fous_of k"
    "addrs_of k' = (addrs_of k)(name := addrs_of k name @ [a])"
proof -
  from assms obtain l a where l: "LinkByName nl name k = Inr l" "nl_ParseAddr nl cidr = Inr a"
    "AddrAdd nl l a k = (None, k')" "ValidateCIDR cidr = None"
    by (auto simp: AssignIP_def split: option.splits sum.splits if_splits prod.splits)
  then have "links_of k name = Some l" by (simp add: by_name)
  moreover from named [OF this] have "link_name l = name" .
  ultimately show thesis using addr_add [OF l(3)] l that by simp
qed

lemma AssignIP_err:
  assumes "AssignIP ctx nl name cidr k = (Some e, k')"
  shows "links_of k' = links_of k" "fous_of k' = fous_of k" "addrs_of k' = addrs_of k"
proof -
  have "k' = k \<or> (\<exists>l a e. AddrAdd nl l a k = (Some e, k'))"
    using assms by (auto simp: AssignIP_def split: option.splits sum.splits prod.splits)
  then show "links_of k' = links_of k" "fous_of k' = fous_of k" "addrs_of k' = addrs_of k"
    using addr_add_err by blast+
qed

end

context netlink_fou_laws
begin

lemma Create_FOU:
  assumes "Create ctx nl cfg k = (None, k')" and "cfg_Encap cfg \<noteq> EncapNone"
  obtains l where "links_of k (cfg_Name cfg) = None" "links_of k' = (links_of k)(cfg_Name cfg \<mapsto> l)"
    "same_conf (GreLink (new_gre nl cfg)) l" "link_Flags l AND FlagUp \<noteq> 0"
    "fous_of k' (uint (cfg_EncapDport cfg)) \<noteq> None"
  by (rule Create_ok [OF assms(1)]) (use assms(2) in \<open>auto split: if_splits\<close>)

end

context netlink_laws
begin

lemma AssignIP_tables:
  "links_of (snd (AssignIP ctx nl name cidr k)) = links_of k"
  "fous_of (snd (AssignIP ctx nl name cidr k)) = fous_of k"
proof -
  obtain r k' where r: "AssignIP ctx nl name cidr k = (r, k')" by fastforce
  then show "links_of (snd (AssignIP ctx nl name cidr k)) = links_of k"
    "fous_of (snd (AssignIP ctx nl name cidr k)) = fous_of k"
    by (cases r; auto elim: AssignIP_ok dest: AssignIP_err)+
qed

end

text \<open>Deleting a tunnel undoes its creation in the link table only: the FOU receive port that
  the creation opened stays bound after the deletion.\<close>

theorem delete_leaves_fou_port:
  assumes "netlink_fou_laws nl links_of addrs_of fous_of"
    and "Create ctx nl cfg k = (None, k1)"
    and "Delete ctx' nl (cfg_Name cfg) k1 = (None, k2)"
  shows "links_of k2 = links_of k \<and>
    fous_of k2 = (if cfg_Encap cfg \<noteq> EncapNone \<and> fous_of k (uint (cfg_EncapDport cfg)) = None
      then (fous_of k)(uint (cfg_EncapDport cfg) \<mapsto> fou_port nl (cfg_EncapDport cfg) (cfg_Encap cfg))
      else fous_of k)"
proof -
  have laws: "netlink_laws nl links_of addrs_of fous_of"
    using assms(1) by (simp add: netlink_fou_laws_def)
  show ?thesis
    by (rule netlink_fou_laws.Create_ok [OF assms(1,2)], rule netlink_laws.Delete_ok [OF laws assms(3)])
      (auto simp: fun_upd_idem)
qed

lemma demo_delete_ok:
  "fst (Delete background (demo_nl no_errs) (cfg_Name demo_cfg)
     (snd (Create background (demo_nl no_errs) demo_cfg newMockNetlinker))) = None"
  by code_simp

theorem delete_leaves_fou_port_witness:
  "m_fous (snd (Delete background (demo_nl no_errs) (cfg_Name demo_cfg)
     (snd (Create background (demo_nl no_errs) demo_cfg newMockNetlinker)))) 7777 \<noteq> None"
proof (rule demo_created)
  fix k'
  assume k': "Create background (demo_nl no_errs) demo_cfg newMockNetlinker = (None, k')"
    "k' = snd (Create background (demo_nl no_errs) demo_cfg newMockNetlinker)"
  have "Delete background (demo_nl no_errs) (cfg_Name demo_cfg) k' =
      (None, snd (Delete background (demo_nl no_errs) (cfg_Name demo_cfg) k'))"
    using demo_delete_ok unfolding k'(2) by (simp add: prod_eq_iff)
  from delete_leaves_fou_port [OF kern.netlink_fou_laws_axioms k'(1) this] show ?thesis
    unfolding k'(2) [symmetric] by (simp add: demo_cfg_def newMockNetlinker_def encap_defs)
qed

text \<open>The tunnel listing agrees with the single query: every listed status is what the
  query for its name returns.\<close>

theorem list_agrees_with_get:
  assumes "netlink_laws nl links_of addrs_of fous_of"
    and "List background nl k = Inr ss" and "s \<in> set ss"
  shows "Get background nl (st_Name s) k = Inr s"
  using assms by (rule netlink_laws.List_Get)

definition demo_listed :: mocknl where
  "demo_listed = (snd (Create background (demo_nl no_errs) demo_cfg newMockNetlinker))
     \<lparr>m_order := [''gre1'', ''eth0'']\<rparr>"

lemma demo_list: "map_sum id (map st_Name) (List background (demo_nl no_errs) demo_listed) = Inr [''gre1'']"
  by code_simp

theorem list_agrees_with_get_witness:
  "\<exists>ss s. List background (demo_nl no_errs) demo_listed = Inr ss \<and> ss = [s] \<and> st_Name s = ''gre1'' \<and>
     Get background (demo_nl no_errs) ''gre1'' demo_listed = Inr s"
proof -
  from demo_list obtain s where s: "List background (demo_nl no_errs) demo_listed = Inr [s]"
    "st_Name s = ''gre1''"
    by (cases "List background (demo_nl no_errs) demo_listed") (auto simp: map_eq_Cons_conv)
  with list_agrees_with_get [OF kern.netlink_laws_axioms s(1), of s] show ?thesis by simp
qed

text \<open>Assigning an address appends it to the addresses of that link and changes nothing
  else; it happens only for an accepted address and an existing link, and a refused or failed
  assignment leaves the link, FOU and address tables unchanged.\<close>

theorem assign_ip_effect:
  assumes "netlink_laws nl links_of addrs_of fous_of"
    and "AssignIP ctx nl name cidr k = (r, k')"
  shows "links_of k' = links_of k \<and> fous_of k' = fous_of k \<and>
    (case r of
       Some e \<Rightarrow> addrs_of k' = addrs_of k
     | None \<Rightarrow> ValidateCIDR cidr = None \<and> links_of k name \<noteq> None \<and>
         (\<exists>a. nl_ParseAddr nl cidr = Inr a \<and>
              addrs_of k' = (addrs_of k)(name := addrs_of k name @ [a])))"
proof (cases r)
  case None
  with assms(2) have ok: "AssignIP ctx nl name cidr k = (None, k')" by simp
  show ?thesis
    unfolding None option.case by (rule netlink_laws.AssignIP_ok [OF assms(1) ok]) blast
next
  case (Some e)
  with assms(2) have err: "AssignIP ctx nl name cidr k = (Some e, k')" by simp
  show ?thesis
    unfolding Some option.case by (simp add: netlink_laws.AssignIP_err [OF assms(1) err])
qed

lemma demo_assign:
  "fst (AssignIP background (demo_nl no_errs) ''gre1'' ''10.9.0.1/24'' demo_listed) = None"
  by code_simp

lemma demo_assign_addr:
  "nl_ParseAddr (demo_nl no_errs) ''10.9.0.1/24'' =
     Inr \<lparr>net_IP = v4_in_v6_prefix @ [10, 9, 0, 1], net_Mask = [255, 255, 255, 0]\<rparr>"
  by code_simp

lemma demo_assign_before: "m_addrs demo_listed ''gre1'' = []"
  by code_simp

theorem assign_ip_effect_witness:
  "m_addrs (snd (AssignIP background (demo_nl no_errs) ''gre1'' ''10.9.0.1/24'' demo_listed)) ''gre1'' =
     [\<lparr>net_IP = v4_in_v6_prefix @ [10, 9, 0, 1], net_Mask = [255, 255, 255, 0]\<rparr>]"
proof -
  let ?a = "\<lparr>net_IP = v4_in_v6_prefix @ [10, 9, 0, 1], net_Mask = [255, 255, 255, 0]\<rparr> :: ipnet"
  let ?r = "AssignIP background (demo_nl no_errs) ''gre1'' ''10.9.0.1/24'' demo_listed"
  have ok: "fst ?r = None" by (rule demo_assign)
  have parse: "nl_ParseAddr (demo_nl no_errs) ''10.9.0.1/24'' = Inr ?a" by (rule demo_assign_addr)
  have none: "m_addrs demo_listed ''gre1'' = []" by (rule demo_assign_before)
  have "?r = (None, snd ?r)" by (rule prod_eqI) (simp_all only: ok fst_conv snd_conv)
  from assign_ip_effect [OF kern.netlink_laws_axioms this] obtain a where
    "nl_ParseAddr (demo_nl no_errs) ''10.9.0.1/24'' = Inr a"
    "m_addrs (snd ?r) = (m_addrs demo_listed)(''gre1'' := m_addrs demo_listed ''gre1'' @ [a])"
    unfolding option.case by blast
  with parse none show ?thesis by (simp only: fun_upd_same sum.inject append_Nil)
qed

end
