(* ===== verification/Health_Probe.thy ===== *)
theory Health_Probe
  imports Go_Errors Go_Net
begin

text \<open>
  ICMP reachability probes, \<open>internal/health/probe.go\<close>: the echo request with its Internet
  checksum on 32-bit words, a single probe, a series of probes with a success threshold, and
  the bounded pool of concurrent probes as a transition system. Sockets, name resolution, the
  clock and the ICMP parser of \<open>golang.org/x/net\<close> are fields of an environment. The
  properties compare the checksum with a reference in unbounded arithmetic, and show what a
  series decides and that the pool is bounded, ends and reports every target.
\<close>

unbundle bit_operations_syntax

section \<open>The Internet checksum\<close>

text \<open>The first loop of \<open>icmpChecksum\<close> with the odd last byte, and the folding loop. The
  folding loop has no bound in the code; every round makes the number smaller.\<close>

fun checksum_sum :: "byte list \<Rightarrow> u32 \<Rightarrow> u32" where
  "checksum_sum (a # b # r) acc = checksum_sum r (acc + (push_bit 8 (ucast a) OR ucast b))"
| "checksum_sum [a] acc = acc + push_bit 8 (ucast a)"
| "checksum_sum [] acc = acc"

lemma unat_low16: "unat (s AND 0xffff :: u32) = unat s mod 65536"
proof -
  have "s AND 0xffff = take_bit 16 s"
    by (simp add: take_bit_eq_mask mask_eq_exp_minus_1)
  then show ?thesis
    by (simp add: take_bit_eq_mod unat_mod)
qed

lemma unat_high16: "unat (drop_bit 16 (s :: u32)) = unat s div 65536"
  by (simp add: drop_bit_eq_div unat_div)

lemma unat_fold_round: "unat ((s AND 0xffff) + drop_bit 16 (s :: u32)) = unat s mod 65536 + unat s div 65536"
proof -
  have "unat s div 65536 < 65536"
    using unsigned_less [of s, where 'a = nat] by (simp add: less_mult_imp_div_less)
  then have "unat s mod 65536 + unat s div 65536 < 2 ^ 32"
    using mod_less_divisor [of 65536 "unat s"] by simp
  then show ?thesis
    using unat_add_lem [of "s AND 0xffff" "drop_bit 16 s"]
    by (simp add: unat_low16 unat_high16)
qed

lemma high16_zero_iff: "drop_bit 16 (s :: u32) = 0 \<longleftrightarrow> unat s < 65536"
  using unat_high16 [of s] by (metis div_eq_0_iff unat_0_iff zero_neq_numeral)

lemma fold_round_less:
  assumes "65536 \<le> (n :: nat)"
  shows "n mod 65536 + n div 65536 < n"
proof -
  have "n = n div 65536 * 65536 + n mod 65536" by simp
  moreover have "0 < n div 65536" using assms by (simp add: div_greater_zero_iff)
  ultimately show ?thesis by linarith
qed

function checksum_fold :: "u32 \<Rightarrow> u32" where
  "checksum_fold s =
     (if drop_bit 16 s = 0 then s else checksum_fold ((s AND 0xffff) + drop_bit 16 s))"
  by pat_completeness auto
termination
  by (relation "measure unat") (auto simp: unat_fold_round high16_zero_iff fold_round_less)

declare checksum_fold.simps [simp del]

definition icmpChecksum :: "byte list \<Rightarrow> u16" where
  "icmpChecksum b = NOT (ucast (checksum_fold (checksum_sum b 0)))"

text \<open>The reference: RFC 1071 in unbounded arithmetic.\<close>

fun octet_sum :: "byte list \<Rightarrow> nat" where
  "octet_sum (a # b # r) = unat a * 256 + unat b + octet_sum r"
| "octet_sum [a] = unat a * 256"
| "octet_sum [] = 0"

definition ones_complement :: "nat \<Rightarrow> nat" where
  "ones_complement n = (if n = 0 then 0 else (n - 1) mod 65535 + 1)"

lemma ones_complement_small: "n < 65536 \<Longrightarrow> ones_complement n = n"
  by (simp add: ones_complement_def)

lemma ones_complement_le: "ones_complement n \<le> 65535"
  by (simp add: ones_complement_def Suc_le_eq)

lemma ones_complement_round:
  assumes "65536 \<le> n"
  shows "ones_complement (n mod 65536 + n div 65536) = ones_complement n"
proof -
  define q where "q = n div 65536"
  define r where "r = n mod 65536"
  have n: "n = q * 65535 + (r + q)" unfolding q_def r_def using div_mult_mod_eq [of n 65536] by simp
  have q: "0 < q" unfolding q_def using assms by (simp add: div_greater_zero_iff)
  then have "n - 1 = (r + q - 1) + q * 65535" using n by linarith
  then have "(n - 1) mod 65535 = (r + q - 1) mod 65535" by simp
  then show ?thesis using q assms by (simp add: ones_complement_def q_def [symmetric] r_def [symmetric])
qed

lemma unat_checksum_fold: "unat (checksum_fold s) = ones_complement (unat s)"
proof (induction s rule: checksum_fold.induct)
  case (1 s)
  show ?case
  proof (cases "drop_bit 16 s = 0")
    case True
    then show ?thesis
      by (subst checksum_fold.simps) (simp add: high16_zero_iff ones_complement_small)
  next
    case False
    then have "65536 \<le> unat s" by (simp add: high16_zero_iff)
    then show ?thesis
      using 1 [OF False] False
      by (subst checksum_fold.simps) (simp add: unat_fold_round ones_complement_round)
  qed
qed

lemma unat_ucast_byte: "unat (ucast (b :: byte) :: u32) = unat b"
  using unat_byte_less_256 [of b] by (simp add: unsigned_ucast_eq take_bit_nat_eq_self del: unat_byte_less_256)

lemma unat_octets: "unat (push_bit 8 (ucast (a :: byte)) OR ucast (b :: byte) :: u32) = unat a * 256 + unat b"
proof -
  have bits: "n < 8" if "bit (unat b) n" for n
    using that by (auto simp: bit_unsigned_iff dest: bit_imp_le_length)
  have "unat a * 256 < 2 ^ 32" using unat_byte_less_256 [of a] by (simp del: unat_byte_less_256)
  then have "unat (push_bit 8 (ucast a) :: u32) = push_bit 8 (unat a)"
    by (simp only: unsigned_push_bit_eq unat_ucast_byte) (simp add: push_bit_eq_mult take_bit_nat_eq_self)
  moreover have "push_bit 8 (unat a) OR unat b = push_bit 8 (unat a) + unat b"
    by (rule disjunctive_add [symmetric]) (auto simp: bit_push_bit_iff dest: bits)
  ultimately show ?thesis
    by (simp only: unsigned_or_eq unat_ucast_byte) (simp add: push_bit_eq_mult)
qed

lemma unat_high_octet: "unat (push_bit 8 (ucast (a :: byte)) :: u32) = unat a * 256"
  using unat_octets [of a 0] by simp

lemma octet_sum_le: "octet_sum b \<le> 65535 * ((length b + 1) div 2)"
proof (induction b rule: octet_sum.induct)
  case (1 a b r)
  moreover have "unat a * 256 + unat b \<le> 65535"
    using unat_byte_less_256 [of a] unat_byte_less_256 [of b] by linarith
  ultimately show ?case by simp
next
  case (2 a)
  then show ?case using unat_byte_less_256 [of a] by (simp del: unat_byte_less_256)
qed simp

lemma unat_checksum_sum:
  "unat acc + octet_sum b < 2 ^ 32 \<Longrightarrow> unat (checksum_sum b acc) = unat acc + octet_sum b"
proof (induction b acc rule: checksum_sum.induct)
  case (1 a b r acc)
  have "unat (acc + (push_bit 8 (ucast a) OR ucast b)) = unat acc + (unat a * 256 + unat b)"
    using 1(2) unat_octets [of a b]
      unat_add_lem [of acc "push_bit 8 (ucast a) OR ucast b"] by simp
  then show ?case using 1 by simp
next
  case (2 a acc)
  then show ?case using unat_high_octet [of a] by (simp add: unat_word_ariths)
qed simp

lemma unat_NOT16: "unat (NOT x :: u16) = 65535 - unat x"
proof -
  have "NOT x = - 1 - x" by (simp add: not_eq_complement)
  then have "unat (NOT x) = unat (- 1 :: u16) - unat x" using unat_sub [of x "- 1"] by simp
  then show ?thesis by (simp add: unsigned_minus_1_eq_mask mask_eq_exp_minus_1)
qed

lemma unat_icmpChecksum:
  assumes "length b \<le> 131074"
  shows "unat (icmpChecksum b) = 65535 - ones_complement (octet_sum b)"
proof -
  have "octet_sum b < 2 ^ 32"
    using octet_sum_le [of b] div_le_mono [of "length b + 1" 131075 2] assms by simp
  then have "unat (checksum_fold (checksum_sum b 0)) = ones_complement (octet_sum b)"
    by (simp add: unat_checksum_fold unat_checksum_sum)
  then have "unat (ucast (checksum_fold (checksum_sum b 0)) :: u16) = ones_complement (octet_sum b)"
    using ones_complement_le [of "octet_sum b"]
    by (simp add: unsigned_ucast_eq take_bit_nat_eq_self)
  then show ?thesis
    by (simp add: icmpChecksum_def unat_NOT16)
qed

section \<open>The echo request\<close>

definition icmpIDMask :: int where "icmpIDMask = 0xffff"
definition icmpEchoSize :: nat where "icmpEchoSize = 20"
definition icmpTypeEchoRequest :: byte where "icmpTypeEchoRequest = 8"
definition icmpSequence :: u16 where "icmpSequence = 1"
definition probeData :: "byte list" where "probeData = str_bytes ''gretun-probe''"

text \<open>\<open>binary.BigEndian.PutUint16(b[i:i+2], v)\<close> and \<open>copy(b[i:], src)\<close>.\<close>

definition PutUint16 :: "nat \<Rightarrow> u16 \<Rightarrow> byte list \<Rightarrow> byte list" where
  "PutUint16 i v b = b[i := ucast (drop_bit 8 v), Suc i := ucast v]"

definition copy_at :: "nat \<Rightarrow> byte list \<Rightarrow> byte list \<Rightarrow> byte list" where
  "copy_at i src b = (let n = min (length src) (length b - i) in take i b @ take n src @ drop (i + n) b)"

text \<open>The slice expression \<open>dst[:icmpEchoSize]\<close> panics, the result \<open>None\<close>, when the array behind
  \<open>dst\<close> is shorter; \<open>dst\<close> is that array.\<close>

definition buildEchoRequest :: "int \<Rightarrow> byte list \<Rightarrow> byte list option" where
  "buildEchoRequest pid dst =
     (if length dst < icmpEchoSize then None
      else let b = take icmpEchoSize dst;
               b = b[0 := icmpTypeEchoRequest];
               b = b[1 := 0];
               b = b[2 := 0];
               b = b[3 := 0];
               b = PutUint16 4 (word_of_int (pid AND icmpIDMask)) b;
               b = PutUint16 6 icmpSequence b;
               b = copy_at 8 probeData b
           in Some (PutUint16 2 (icmpChecksum b) b))"

lemma octet_sum_append: "even (length pre) \<Longrightarrow> octet_sum (pre @ post) = octet_sum pre + octet_sum post"
  by (induction pre rule: octet_sum.induct) auto

lemma octet_sum_u16: "octet_sum (ucast (drop_bit 8 (c :: u16)) # ucast c # post) = unat c + octet_sum post"
proof -
  have "unat c div 256 < 256" using unsigned_less [of c, where 'a = nat] by (simp add: less_mult_imp_div_less)
  then have "unat (ucast (drop_bit 8 c) :: byte) = unat c div 256"
    by (simp add: unsigned_ucast_eq drop_bit_eq_div unat_div take_bit_nat_eq_self)
  moreover have "unat (ucast c :: byte) = unat c mod 256"
    by (simp add: unsigned_ucast_eq take_bit_eq_mod)
  ultimately show ?thesis by simp
qed

lemma ones_complement_sum:
  assumes "c = 65535 - ones_complement n"
  shows "ones_complement (n + c) = 65535"
proof (cases "n = 0")
  case True
  then show ?thesis using assms by (simp add: ones_complement_def)
next
  case False
  define q where "q = (n - 1) div 65535"
  define m where "m = (n - 1) mod 65535"
  have "n - 1 = q * 65535 + m" unfolding q_def m_def by simp
  moreover have "m < 65535" unfolding m_def by simp
  moreover have "c = 65535 - (m + 1)" using assms False by (simp add: ones_complement_def m_def)
  ultimately have "n + c = Suc q * 65535" using False by simp
  then have "n + c - 1 = q * 65535 + 65534" by simp
  then have "(n + c - 1) mod 65535 = 65534" by (simp only: mod_mult_self3) simp
  then show ?thesis using False by (simp add: ones_complement_def)
qed

text \<open>Storing the checksum of a message into its zeroed checksum field makes the checksum of
  the whole message zero, the receiver's test.\<close>

lemma checksum_verifies:
  assumes "even (length pre)" and "length pre + length post \<le> 131072"
    and "c = icmpChecksum (pre @ 0 # 0 # post)"
  shows "icmpChecksum (pre @ ucast (drop_bit 8 c) # ucast c # post) = 0"
proof -
  define n where "n = octet_sum pre + octet_sum post"
  have "unat c = 65535 - ones_complement n"
    using assms(1,2) unfolding assms(3) n_def
    by (simp add: unat_icmpChecksum octet_sum_append)
  then have "ones_complement (n + unat c) = 65535" by (rule ones_complement_sum)
  moreover have "octet_sum (pre @ ucast (drop_bit 8 c) # ucast c # post) = n + unat c"
    using assms(1) unfolding n_def octet_sum_append [OF assms(1)] octet_sum_u16 by simp
  ultimately have "unat (icmpChecksum (pre @ ucast (drop_bit 8 c) # ucast c # post)) = 0"
    using assms(2) by (simp add: unat_icmpChecksum)
  then show ?thesis by (simp only: unsigned_eq_0_iff)
qed

lemma length_20_conv:
  assumes "length xs = 20"
  obtains a0 a1 a2 a3 a4 a5 a6 a7 r where "xs = a0 # a1 # a2 # a3 # a4 # a5 # a6 # a7 # r" "length r = 12"
  using assms by (auto simp: length_Suc_conv numeral_eq_Suc)

lemma length_probeData [simp]: "length probeData = 12"
  by (simp add: probeData_def)

lemma buildEchoRequest_eq:
  fixes i :: u16
  assumes "20 \<le> length dst"
    and "hdr = [8, 0]" and "ident = [ucast (drop_bit 8 i), ucast i, 0, 1]" and "i = word_of_int (pid AND icmpIDMask)"
    and "c = icmpChecksum (hdr @ 0 # 0 # ident @ probeData)"
  shows "buildEchoRequest pid dst = Some (hdr @ ucast (drop_bit 8 c) # ucast c # ident @ probeData)"
proof -
  have "length (take 20 dst) = 20" using assms(1) by simp
  then obtain a0 a1 a2 a3 a4 a5 a6 a7 r where
    d: "take 20 dst = a0 # a1 # a2 # a3 # a4 # a5 # a6 # a7 # r" "length r = 12"
    by (rule length_20_conv)
  have [simp]: "drop_bit 8 (1 :: u16) = 0" by (simp add: drop_bit_eq_div)
  show ?thesis
    using assms(1) d unfolding assms(2-5)
    by (simp add: buildEchoRequest_def PutUint16_def copy_at_def icmpEchoSize_def icmpTypeEchoRequest_def
        icmpSequence_def Let_def numeral_eq_Suc)
qed

section \<open>A single probe\<close>

definition icmpProtocol :: nat where "icmpProtocol = 1"
definition defaultMTU :: nat where "defaultMTU = 1500"

text \<open>The text of the field \<open>Error\<close> is the text of the error value kept here, with \<open>None\<close> for
  the empty text.\<close>

record ProbeResult =
  pr_Target :: string
  pr_Success :: bool
  pr_RTT :: duration
  pr_Error :: "goerror option"
  pr_Timestamp :: gotime

datatype icmp_type = ICMPTypeEchoReply | ICMPTypeOther string

text \<open>What one probe reads from outside, in the order of the code: the clock, the context at the
  first check, the raw socket, the resolver, the process id, the clock before and after the
  write, the write itself, the deadline of the context, the call that sets the deadline, the
  read (the datagram, whose sender the code ignores) under the deadline, the context after a
  failed read, the clock after the read and the ICMP parser.\<close>

record probe_env =
  pe_now :: gotime
  pe_ctx :: ctx
  pe_ListenPacket :: "unit res"
  pe_Resolve :: "string \<Rightarrow> addr res"
  pe_pid :: int
  pe_start :: gotime
  pe_WriteTo :: "byte list \<Rightarrow> addr \<Rightarrow> unit res"
  pe_sent :: gotime
  pe_ctx_Deadline :: "gotime option"
  pe_SetReadDeadline :: "gotime \<Rightarrow> unit res"
  pe_ReadFrom :: "gotime \<Rightarrow> (byte list \<times> addr) res"
  pe_ctx_after :: ctx
  pe_end :: gotime
  pe_Parse :: "nat \<Rightarrow> byte list \<Rightarrow> icmp_type res"

definition probe_deadline :: "probe_env \<Rightarrow> duration \<Rightarrow> gotime" where
  "probe_deadline pe timeout =
     (let deadline = pe_sent pe + timeout in
      case pe_ctx_Deadline pe of
        Some d \<Rightarrow> (if d < deadline then d else deadline)
      | None \<Rightarrow> deadline)"

text \<open>The error that a probe reports, or the round-trip time.\<close>

definition probe_io :: "probe_env \<Rightarrow> string \<Rightarrow> duration \<Rightarrow> duration res" where
  "probe_io pe target timeout =
     (case pe_ctx pe of
        Some e \<Rightarrow> Inl (EWrap ''cancelled: %v'' [] e)
      | None \<Rightarrow>
     (case pe_ListenPacket pe of
        Inl e \<Rightarrow> Inl (EWrap ''failed to listen: %v'' [] e)
      | Inr _ \<Rightarrow>
     (case pe_Resolve pe target of
        Inl e \<Rightarrow> Inl (EWrap ''failed to resolve %s: %v'' [AStr target] e)
      | Inr dst \<Rightarrow>
     (case pe_WriteTo pe (the (buildEchoRequest (pe_pid pe) (replicate icmpEchoSize 0))) dst of
        Inl e \<Rightarrow> Inl (EWrap ''failed to send ICMP: %v'' [] e)
      | Inr _ \<Rightarrow>
     (let deadline = probe_deadline pe timeout in
      case pe_SetReadDeadline pe deadline of
        Inl e \<Rightarrow> Inl (EWrap ''failed to set deadline: %v'' [] e)
      | Inr _ \<Rightarrow>
     (case pe_ReadFrom pe deadline of
        Inl e \<Rightarrow>
          (case pe_ctx_after pe of
             Some ce \<Rightarrow> Inl (EWrap ''cancelled: %v'' [] ce)
           | None \<Rightarrow> Inl (EWrap ''failed to receive reply: %v'' [] e))
      | Inr (datagram, _) \<Rightarrow>
     (case pe_Parse pe icmpProtocol (take defaultMTU datagram) of
        Inl e \<Rightarrow> Inl (EWrap ''failed to parse reply: %v'' [] e)
      | Inr ICMPTypeEchoReply \<Rightarrow> Inr (time_sub (pe_end pe) (pe_start pe))
      | Inr (ICMPTypeOther t) \<Rightarrow> Inl (EFmt ''unexpected ICMP type: %v'' [AStr t]))))))))"

definition Probe :: "probe_env \<Rightarrow> string \<Rightarrow> duration \<Rightarrow> ProbeResult" where
  "Probe pe target timeout =
     (let result = \<lparr>pr_Target = target, pr_Success = False, pr_RTT = 0, pr_Error = None, pr_Timestamp = pe_now pe\<rparr>
      in case probe_io pe target timeout of
           Inl e \<Rightarrow> result\<lparr>pr_Error := Some e\<rparr>
         | Inr rtt \<Rightarrow> result\<lparr>pr_Success := True, pr_RTT := rtt\<rparr>)"

section \<open>A series of probes\<close>

text \<open>For probe number \<open>i\<close>: the context at the check before it, what the probe reads, and
  whether the context ends the pause after it. \<open>make\<close> panics on a negative count: \<open>None\<close>.\<close>

record series_env =
  se_check :: "nat \<Rightarrow> bool"
  se_probe :: "nat \<Rightarrow> probe_env"
  se_pause :: "nat \<Rightarrow> bool"

function probe_loop ::
  "series_env \<Rightarrow> string \<Rightarrow> int \<Rightarrow> duration \<Rightarrow> int \<Rightarrow> nat \<Rightarrow> int \<Rightarrow> ProbeResult list \<Rightarrow> bool \<times> ProbeResult list" where
  "probe_loop se target count timeout threshold i successes results =
     (if \<not> int i < count then (threshold \<le> successes, results)
      else if se_check se i then (False, results)
      else
        (let result = Probe (se_probe se i) target timeout;
             results' = results @ [result];
             successes' = (if pr_Success result then successes + 1 else successes)
         in if int i < count - 1 \<and> se_pause se i then (False, results')
            else probe_loop se target count timeout threshold (Suc i) successes' results'))"
  by pat_completeness auto
termination
  by (relation "measure (\<lambda>(se, target, count, timeout, threshold, i, successes, results). nat (count - int i))")
    auto

definition ProbeMultiple ::
  "series_env \<Rightarrow> string \<Rightarrow> int \<Rightarrow> duration \<Rightarrow> int \<Rightarrow> (bool \<times> ProbeResult list) option" where
  "ProbeMultiple se target count timeout threshold =
     (if count < 0 then None else Some (probe_loop se target count timeout threshold 0 0 []))"

declare probe_loop.simps [simp del]

abbreviation probe_of :: "series_env \<Rightarrow> string \<Rightarrow> duration \<Rightarrow> nat \<Rightarrow> ProbeResult" where
  "probe_of se target timeout i \<equiv> Probe (se_probe se i) target timeout"

text \<open>The context stays alive at every point before \<open>n\<close> probes are done where the loop looks.\<close>

definition alive_until :: "series_env \<Rightarrow> nat \<Rightarrow> nat \<Rightarrow> bool" where
  "alive_until se count n = (\<forall>j < n. \<not> se_check se j \<and> (Suc j < count \<longrightarrow> \<not> se_pause se j))"

lemma probe_loop_spec:
  assumes "i \<le> nat count" and "alive_until se (nat count) i"
    and "probe_loop se target count timeout threshold i successes (map (probe_of se target timeout) [0..<i]) = (ok, rs)"
    and "successes = int (length (filter pr_Success (map (probe_of se target timeout) [0..<i])))"
  shows "\<exists>n \<le> nat count. rs = map (probe_of se target timeout) [0..<n] \<and>
    (n = nat count \<longleftrightarrow> alive_until se (nat count) (nat count)) \<and>
    (ok \<longleftrightarrow> alive_until se (nat count) (nat count) \<and> threshold \<le> int (length (filter pr_Success rs)))"
  using assms
proof (induction "nat count - i" arbitrary: i successes)
  case 0
  then have "\<not> int i < count" and i: "i = nat count" by auto
  then have "ok = (threshold \<le> successes) \<and> rs = map (probe_of se target timeout) [0..<i]"
    using 0(4) by (subst (asm) probe_loop.simps) simp
  then show ?case using 0(3,5) i by auto
next
  case (Suc m)
  let ?f = "probe_of se target timeout"
  have less: "i < nat count" using Suc.hyps(2) by simp
  then have int_less: "int i < count" by linarith
  have last: "Suc i < nat count \<longleftrightarrow> int i < count - 1" by linarith
  show ?case
  proof (cases "se_check se i")
    case True
    then have "ok = False \<and> rs = map ?f [0..<i]"
      using Suc.prems(3) int_less by (subst (asm) probe_loop.simps) simp
    moreover have "\<not> alive_until se (nat count) (nat count)"
      using True less by (auto simp: alive_until_def)
    ultimately show ?thesis using less by (intro exI [of _ i]) simp
  next
    case False
    show ?thesis
    proof (cases "Suc i < nat count \<and> se_pause se i")
      case True
      then have "ok = False \<and> rs = map ?f [0..<Suc i]"
        using Suc.prems(3) int_less False by (subst (asm) probe_loop.simps) (simp add: Let_def last)
      moreover have "\<not> alive_until se (nat count) (nat count)"
        using True less unfolding alive_until_def by blast
      ultimately show ?thesis using True by (intro exI [of _ "Suc i"]) auto
    next
      case live: False
      let ?s = "if pr_Success (?f i) then successes + 1 else successes"
      have "probe_loop se target count timeout threshold (Suc i) ?s (map ?f [0..<Suc i]) = (ok, rs)"
        using Suc.prems(3) int_less False live
        by (subst (asm) probe_loop.simps) (simp add: Let_def last del: de_Morgan_conj)
      moreover have "alive_until se (nat count) (Suc i)"
        using Suc.prems(2) False live by (auto simp: alive_until_def less_Suc_eq)
      moreover have "?s = int (length (filter pr_Success (map ?f [0..<Suc i])))"
        using Suc.prems(4) by simp
      ultimately show ?thesis using Suc.hyps less by (intro Suc.hyps(1) [of "Suc i" ?s]) auto
    qed
  qed
qed

section \<open>Concurrent probes\<close>

text \<open>\<open>ProbeTargets\<close> as a transition system: the targets the dispatching loop has still to
  visit, the goroutines that wait for a slot of the semaphore, those that probe, the number of
  those that have stored their result but not yet released their slot, the results and the
  context. The context may end at any moment.\<close>

record pool =
  po_todo :: "string list"
  po_waiting :: "string list"
  po_inflight :: "string list"
  po_releasing :: nat
  po_results :: "string \<rightharpoonup> ProbeResult"
  po_ctx :: ctx

definition pool_concurrency :: "int \<Rightarrow> nat \<Rightarrow> nat" where
  "pool_concurrency concurrency n = (if concurrency \<le> 0 \<or> concurrency > int n then n else nat concurrency)"

definition cancelled_result :: "string \<Rightarrow> gotime \<Rightarrow> goerror \<Rightarrow> ProbeResult" where
  "cancelled_result target now e =
     \<lparr>pr_Target = target, pr_Success = False, pr_RTT = 0, pr_Error = Some (EWrap ''cancelled: %v'' [] e),
      pr_Timestamp = now\<rparr>"

definition pool_start :: "string list \<Rightarrow> ctx \<Rightarrow> pool" where
  "pool_start targets c =
     \<lparr>po_todo = targets, po_waiting = [], po_inflight = [], po_releasing = 0, po_results = Map.empty, po_ctx = c\<rparr>"

text \<open>A probe runs as one step: that it returns, also when the resolver is slow, is taken for granted
  here.\<close>

inductive pool_step :: "nat \<Rightarrow> duration \<Rightarrow> pool \<Rightarrow> pool \<Rightarrow> bool" for cap timeout where
  cancel: "po_ctx s = None \<Longrightarrow> pool_step cap timeout s (s\<lparr>po_ctx := Some e\<rparr>)"
| dispatch: "po_todo s = t # ts \<Longrightarrow> po_ctx s = None \<Longrightarrow>
    pool_step cap timeout s (s\<lparr>po_todo := ts, po_waiting := po_waiting s @ [t]\<rparr>)"
| skip: "po_todo s = t # ts \<Longrightarrow> po_ctx s = Some e \<Longrightarrow> pool_step cap timeout s (s\<lparr>po_todo := []\<rparr>)"
| acquire: "po_waiting s = xs @ t # ys \<Longrightarrow> length (po_inflight s) + po_releasing s < cap \<Longrightarrow>
    pool_step cap timeout s (s\<lparr>po_waiting := xs @ ys, po_inflight := po_inflight s @ [t]\<rparr>)"
| give_up: "po_waiting s = xs @ t # ys \<Longrightarrow> po_ctx s = Some e \<Longrightarrow>
    pool_step cap timeout s
      (s\<lparr>po_waiting := xs @ ys, po_results := (po_results s)(t \<mapsto> cancelled_result t now e)\<rparr>)"
| store: "po_inflight s = xs @ t # ys \<Longrightarrow>
    pool_step cap timeout s
      (s\<lparr>po_inflight := xs @ ys, po_releasing := Suc (po_releasing s),
         po_results := (po_results s)(t \<mapsto> Probe pe t timeout)\<rparr>)"
| release: "po_releasing s = Suc m \<Longrightarrow> pool_step cap timeout s (s\<lparr>po_releasing := m\<rparr>)"

text \<open>\<open>wg.Wait\<close> returns when the loop is over and all goroutines are done.\<close>

definition pool_finished :: "pool \<Rightarrow> bool" where
  "pool_finished s = (po_todo s = [] \<and> po_waiting s = [] \<and> po_inflight s = [] \<and> po_releasing s = 0)"

text \<open>The maps that a call may return, each with the context at that moment.\<close>

definition ProbeTargets :: "string list \<Rightarrow> duration \<Rightarrow> int \<Rightarrow> ctx \<Rightarrow> (string \<rightharpoonup> ProbeResult) \<Rightarrow> ctx \<Rightarrow> bool" where
  "ProbeTargets targets timeout concurrency c m c' =
     (if targets = [] then m = Map.empty \<and> c' = c
      else \<exists>s. (pool_step (pool_concurrency concurrency (length targets)) timeout)\<^sup>*\<^sup>* (pool_start targets c) s \<and>
             pool_finished s \<and> m = po_results s \<and> c' = po_ctx s)"

text \<open>Every step uses up work.\<close>

definition pool_work :: "pool \<Rightarrow> nat" where
  "pool_work s = 4 * length (po_todo s) + 3 * length (po_waiting s) + 2 * length (po_inflight s) +
     po_releasing s + (if po_ctx s = None then 1 else 0)"

lemma pool_step_work: "pool_step cap timeout s s' \<Longrightarrow> pool_work s' < pool_work s"
  by (induction rule: pool_step.induct) (auto simp: pool_work_def)

lemma pool_run_work: "(pool_step cap timeout ^^ k) s s' \<Longrightarrow> k + pool_work s' \<le> pool_work s"
proof (induction k arbitrary: s')
  case (Suc k)
  then obtain s1 where "(pool_step cap timeout ^^ k) s s1" "pool_step cap timeout s1 s'" by auto
  then show ?case using Suc.IH [of s1] pool_step_work [of cap timeout s1 s'] by simp
qed simp

definition pool_slots_ok :: "nat \<Rightarrow> pool \<Rightarrow> bool" where
  "pool_slots_ok cap s = (length (po_inflight s) + po_releasing s \<le> cap)"

lemma pool_step_slots: "pool_step cap timeout s s' \<Longrightarrow> pool_slots_ok cap s \<Longrightarrow> pool_slots_ok cap s'"
  by (induction rule: pool_step.induct) (auto simp: pool_slots_ok_def)

text \<open>Every target is somewhere, unless the context has ended and the loop has skipped it;
  every result belongs to its key.\<close>

definition pool_tracks :: "string list \<Rightarrow> pool \<Rightarrow> bool" where
  "pool_tracks targets s =
     ((let everywhere = set (po_todo s) \<union> set (po_waiting s) \<union> set (po_inflight s) \<union> dom (po_results s)
       in everywhere \<subseteq> set targets \<and> (po_ctx s = None \<longrightarrow> set targets \<subseteq> everywhere)) \<and>
      (\<forall>t r. po_results s t = Some r \<longrightarrow> pr_Target r = t))"

lemma pr_Target_Probe [simp]: "pr_Target (Probe pe t timeout) = t"
  by (simp add: Probe_def Let_def split: sum.splits)

lemma pool_step_tracks: "pool_step cap timeout s s' \<Longrightarrow> pool_tracks targets s \<Longrightarrow> pool_tracks targets s'"
  by (induction rule: pool_step.induct)
    (auto simp: pool_tracks_def Let_def cancelled_result_def)

lemma pool_run_tracks:
  "(pool_step cap timeout)\<^sup>*\<^sup>* s s' \<Longrightarrow> pool_tracks targets s \<and> pool_slots_ok cap s \<Longrightarrow>
   pool_tracks targets s' \<and> pool_slots_ok cap s'"
  by (induction rule: rtranclp_induct) (auto dest: pool_step_tracks pool_step_slots)

lemma pool_start_ok: "pool_tracks targets (pool_start targets c) \<and> pool_slots_ok cap (pool_start targets c)"
  by (auto simp: pool_tracks_def pool_slots_ok_def pool_start_def Let_def)

lemma pool_progress:
  assumes "0 < cap" and "\<not> pool_finished s"
  shows "\<exists>s'. pool_step cap timeout s s' \<and> po_ctx s' = po_ctx s"
proof -
  consider "po_releasing s \<noteq> 0" | "po_inflight s \<noteq> []" | "po_todo s \<noteq> []"
    | "po_releasing s = 0" "po_inflight s = []" "po_waiting s \<noteq> []"
    using assms(2) by (auto simp: pool_finished_def)
  then show ?thesis
  proof cases
    case 1
    then obtain m where "po_releasing s = Suc m" using not0_implies_Suc by blast
    then show ?thesis by (intro exI conjI, rule pool_step.release) simp_all
  next
    case 2
    then obtain t ys where "po_inflight s = [] @ t # ys" by (cases "po_inflight s") auto
    then show ?thesis by (intro exI conjI, rule pool_step.store) simp_all
  next
    case 3
    then obtain t ts where t: "po_todo s = t # ts" by (cases "po_todo s") auto
    show ?thesis
    proof (cases "po_ctx s")
      case None
      with t show ?thesis by (intro exI conjI, rule pool_step.dispatch) simp_all
    next
      case (Some e)
      with t show ?thesis by (intro exI conjI, rule pool_step.skip) simp_all
    qed
  next
    case 4
    then obtain t ys where "po_waiting s = [] @ t # ys" by (cases "po_waiting s") auto
    moreover have "length (po_inflight s) + po_releasing s < cap" using 4 assms(1) by simp
    ultimately show ?thesis by (intro exI conjI, rule pool_step.acquire) simp_all
  qed
qed

lemma pool_concurrency_pos: "targets \<noteq> [] \<Longrightarrow> 0 < pool_concurrency concurrency (length targets)"
  by (auto simp: pool_concurrency_def)

lemma pool_concurrency_le:
  "pool_concurrency concurrency n \<le> n \<and> (0 < concurrency \<longrightarrow> int (pool_concurrency concurrency n) \<le> concurrency)"
  by (auto simp: pool_concurrency_def)

text \<open>Left alone by its context, the pool runs to its end.\<close>

lemma pool_runs_to_end:
  assumes "0 < cap"
  shows "\<exists>s'. (pool_step cap timeout)\<^sup>*\<^sup>* s s' \<and> pool_finished s' \<and> po_ctx s' = po_ctx s"
proof (induction "pool_work s" arbitrary: s rule: less_induct)
  case less
  show ?case
  proof (cases "pool_finished s")
    case False
    then obtain s1 where s1: "pool_step cap timeout s s1" "po_ctx s1 = po_ctx s"
      using pool_progress [OF assms] by blast
    then obtain s' where "(pool_step cap timeout)\<^sup>*\<^sup>* s1 s'" "pool_finished s'" "po_ctx s' = po_ctx s1"
      using less [OF pool_step_work [OF s1(1)]] by blast
    then show ?thesis using s1 by (metis converse_rtranclp_into_rtranclp)
  qed auto
qed

lemma id_masked: "(word_of_int (pid AND icmpIDMask) :: u16) = word_of_int pid"
proof -
  have m: "icmpIDMask = mask 16" by (simp add: icmpIDMask_def mask_eq_exp_minus_1)
  show ?thesis unfolding m by (rule bit_word_eqI) (simp add: bit_simps)
qed

lemma low_byte_of_id: "(ucast (word_of_int (pid AND icmpIDMask) :: u16) :: byte) = word_of_int pid"
  unfolding id_masked by (rule bit_word_eqI) (simp add: bit_simps)

lemma high_byte_of_id:
  "(ucast (drop_bit 8 (word_of_int (pid AND icmpIDMask) :: u16)) :: byte) = word_of_int (drop_bit 8 pid)"
  unfolding id_masked by (rule bit_word_eqI) (simp add: bit_simps)

lemma ProbeTargets_sound:
  assumes "ProbeTargets targets timeout concurrency c m c'"
  shows "dom m \<subseteq> set targets \<and> (\<forall>t r. m t = Some r \<longrightarrow> pr_Target r = t) \<and> (c' = None \<longrightarrow> dom m = set targets)"
proof (cases "targets = []")
  case False
  then obtain s where s: "(pool_step (pool_concurrency concurrency (length targets)) timeout)\<^sup>*\<^sup>* (pool_start targets c) s"
    "pool_finished s" "m = po_results s" "c' = po_ctx s"
    using assms by (auto simp: ProbeTargets_def)
  then have "pool_tracks targets s" using pool_run_tracks pool_start_ok by blast
  then show ?thesis using s(2-4) by (auto simp: pool_finished_def pool_tracks_def)
qed (use assms in \<open>simp add: ProbeTargets_def\<close>)

lemma ProbeTargets_returns: "\<exists>m. ProbeTargets targets timeout concurrency c m c"
proof (cases "targets = []")
  case False
  then show ?thesis
    using pool_runs_to_end [OF pool_concurrency_pos [OF False], of concurrency timeout "pool_start targets c"]
    by (auto simp: ProbeTargets_def pool_start_def)
qed (simp add: ProbeTargets_def)

section \<open>Properties\<close>

text \<open>C10: The checksum is that of RFC 1071: for every buffer of up to 131074 bytes the 32-bit sum does
  not overflow, the folding loop ends, and the result is the complement of the sum of the
  big-endian 16-bit words (an odd last byte padded with zero) in one's-complement arithmetic,
  computed without any bound on the numbers.\<close>

theorem icmpChecksum_reference:
  assumes "length b \<le> 131074"
  shows "unat (icmpChecksum b) = 65535 - ones_complement (octet_sum b)"
  using assms by (rule unat_icmpChecksum)

theorem icmpChecksum_reference_witness: "unat (icmpChecksum [1, 2, 3]) = 64509"
  using icmpChecksum_reference [of "[1, 2, 3]"] by (simp add: ones_complement_def)

text \<open>Every probe sends a well-formed echo request of 20 bytes, whatever the buffer held before:
  type 8 and code 0, the low 16 bits of the process id as identifier, sequence number 1, the
  payload, and a checksum under which the checksum of the whole message is zero.\<close>

theorem echo_request_valid:
  assumes "20 \<le> length dst"
  shows "\<exists>hi lo. let msg = [8, 0, hi, lo, word_of_int (drop_bit 8 pid), word_of_int pid, 0, 1] @ str_bytes ''gretun-probe''
    in buildEchoRequest pid dst = Some msg \<and> icmpChecksum msg = 0"
proof -
  define i :: u16 where "i = word_of_int (pid AND icmpIDMask)"
  define c where "c = icmpChecksum ([8, 0] @ 0 # 0 # [ucast (drop_bit 8 i), ucast i, 0, 1] @ probeData)"
  have "buildEchoRequest pid dst =
      Some ([8, 0] @ ucast (drop_bit 8 c) # ucast c # [ucast (drop_bit 8 i), ucast i, 0, 1] @ probeData)"
    by (rule buildEchoRequest_eq [OF assms refl refl i_def c_def])
  moreover have "icmpChecksum ([8, 0] @ ucast (drop_bit 8 c) # ucast c #
      [ucast (drop_bit 8 i), ucast i, 0, 1] @ probeData) = 0"
    by (rule checksum_verifies [OF _ _ c_def]) simp_all
  ultimately show ?thesis
    unfolding Let_def i_def low_byte_of_id high_byte_of_id probeData_def by (intro exI conjI) simp_all
qed

theorem echo_request_valid_witness:
  "\<exists>hi lo. buildEchoRequest 70000 (replicate 20 255) =
     Some ([8, 0, hi, lo, 17, 112, 0, 1] @ str_bytes ''gretun-probe'')"
  using echo_request_valid [of "replicate 20 255" 70000] by (auto simp: Let_def drop_bit_eq_div)

text \<open>A series of probes gives its verdict on all of them: the results are those of the first
  probes in order, all of them exactly when the context stays alive at every point where the
  loop looks, and the series counts as a success exactly when it is complete and at least the
  threshold of its probes succeeded. Only a negative count makes the call panic.\<close>

theorem probe_series_verdict:
  "(ProbeMultiple se target count timeout threshold = None \<longleftrightarrow> count < 0) \<and>
   (\<forall>ok rs. ProbeMultiple se target count timeout threshold = Some (ok, rs) \<longrightarrow>
      (\<exists>n \<le> nat count. rs = map (\<lambda>i. Probe (se_probe se i) target timeout) [0..<n] \<and>
         (n = nat count \<longleftrightarrow> alive_until se (nat count) (nat count)) \<and>
         (ok \<longleftrightarrow> alive_until se (nat count) (nat count) \<and>
            threshold \<le> int (length (filter pr_Success rs)))))"
  using probe_loop_spec [of 0 count se target timeout threshold 0]
  by (auto simp: ProbeMultiple_def alive_until_def)

definition demo_pe :: probe_env where
  "demo_pe = \<lparr>pe_now = 0, pe_ctx = None, pe_ListenPacket = Inr (), pe_Resolve = (\<lambda>_. Inr AddrZero), pe_pid = 7,
     pe_start = 1, pe_WriteTo = (\<lambda>_ _. Inr ()), pe_sent = 2, pe_ctx_Deadline = None,
     pe_SetReadDeadline = (\<lambda>_. Inr ()), pe_ReadFrom = (\<lambda>_. Inr ([0, 0], AddrZero)), pe_ctx_after = None,
     pe_end = 5, pe_Parse = (\<lambda>_ _. Inr ICMPTypeEchoReply)\<rparr>"

definition demo_series :: series_env where
  "demo_series = \<lparr>se_check = (\<lambda>_. False), se_probe = (\<lambda>_. demo_pe), se_pause = (\<lambda>i. i = 1)\<rparr>"

lemma demo_probe: "pr_Success (Probe demo_pe target timeout)"
  by (simp add: Probe_def probe_io_def demo_pe_def)

theorem probe_series_verdict_witness:
  "\<exists>rs. ProbeMultiple demo_series ''h'' 2 second 2 = Some (True, rs) \<and> length rs = 2"
proof -
  have alive: "alive_until demo_series 2 2"
    by (auto simp: alive_until_def demo_series_def)
  obtain ok rs where r: "ProbeMultiple demo_series ''h'' 2 second 2 = Some (ok, rs)"
    by (cases "ProbeMultiple demo_series ''h'' 2 second 2") (auto simp: ProbeMultiple_def)
  have "ok \<and> length rs = 2"
    using probe_series_verdict [of demo_series "''h''" 2 second 2] r alive
    by (auto simp: demo_series_def demo_probe)
  then show ?thesis using r by simp
qed

text \<open>C12: The pool of concurrent probes is bounded and ends: at most \<open>concurrency\<close> probes (all targets,
  when it is not positive) are in flight at any moment, no run has more than four steps per
  target and one for the end of the context, and until the call can return some goroutine can
  move, whether or not the context ends.\<close>

theorem probe_pool_terminates:
  assumes "targets \<noteq> []"
    and "(pool_step (pool_concurrency concurrency (length targets)) timeout ^^ k) (pool_start targets c) s"
  shows "k \<le> 4 * length targets + 1 \<and>
    length (po_inflight s) \<le> length targets \<and>
    (0 < concurrency \<longrightarrow> int (length (po_inflight s)) \<le> concurrency) \<and>
    (\<not> pool_finished s \<longrightarrow>
       (\<exists>s'. pool_step (pool_concurrency concurrency (length targets)) timeout s s' \<and> po_ctx s' = po_ctx s))"
proof -
  let ?cap = "pool_concurrency concurrency (length targets)"
  have "pool_work (pool_start targets c) \<le> 4 * length targets + 1"
    by (simp add: pool_work_def pool_start_def)
  then have "k \<le> 4 * length targets + 1" using pool_run_work [OF assms(2)] by linarith
  moreover have "pool_slots_ok ?cap s"
    using pool_run_tracks [of ?cap timeout "pool_start targets c" s targets] assms(2) pool_start_ok
    by (auto dest: relpowp_imp_rtranclp)
  ultimately show ?thesis
    using pool_progress [OF pool_concurrency_pos [OF assms(1)]]
      pool_concurrency_le [of concurrency "length targets"]
    by (auto simp: pool_slots_ok_def)
qed

theorem probe_pool_terminates_witness:
  "\<exists>s. pool_step (pool_concurrency 1 2) second (pool_start [''a'', ''b''] None) s \<and> \<not> pool_finished s \<and>
     (\<exists>s'. pool_step (pool_concurrency 1 2) second s s')"
proof -
  define s where "s = (pool_start [''a'', ''b''] None)\<lparr>po_todo := [''b''], po_waiting := [''a'']\<rparr>"
  have step: "pool_step (pool_concurrency 1 2) second (pool_start [''a'', ''b''] None) s"
    using pool_step.dispatch [of "pool_start [''a'', ''b''] None" "''a''" "[''b'']"]
    by (simp add: pool_start_def s_def)
  moreover have "\<not> pool_finished s" by (simp add: pool_finished_def s_def)
  ultimately show ?thesis
    using probe_pool_terminates [of "[''a'', ''b'']" 1 1 second None s] by (auto simp: numeral_2_eq_2 eq_OO)
qed

text \<open>C27: Probing many targets reports each of them: the call can always run to its end without the
  context ending; every result is filed under its own target, no key is invented, and a target
  is missing only when the context has ended.\<close>

theorem probe_targets_complete:
  "(\<exists>m. ProbeTargets targets timeout concurrency c m c) \<and>
   (\<forall>m c'. ProbeTargets targets timeout concurrency c m c' \<longrightarrow>
      dom m \<subseteq> set targets \<and> (\<forall>t r. m t = Some r \<longrightarrow> pr_Target r = t) \<and>
      (c' = None \<longrightarrow> dom m = set targets))"
  using ProbeTargets_returns ProbeTargets_sound by blast

theorem probe_targets_complete_witness:
  "\<exists>m. ProbeTargets [''a'', ''b''] second 1 None m None \<and> dom m = {''a'', ''b''}"
proof -
  obtain m where m: "ProbeTargets [''a'', ''b''] second 1 None m None"
    using probe_targets_complete [of "[''a'', ''b'']" second 1 None] by blast
  then have "dom m = {''a'', ''b''}"
    using probe_targets_complete [of "[''a'', ''b'']" second 1 None] by auto
  then show ?thesis using m by blast
qed

end
