(* ===== verification/Disco_Stun.thy ===== *)
theory Disco_Stun
  imports Go_Errors Go_Net "HOL-Library.AList"
begin

text \<open>
  Discovery of the public endpoint by STUN, \<open>internal/disco/stun.go\<close>: the loop that sends one
  binding request per server, the goroutine that reads answers, and the final select. The
  STUN message format (the library \<open>pion/stun\<close>), the resolver and the socket are arguments;
  the reads of the socket are a list of what each read returned, so a loop that is still
  waiting is a value of its own. The property says which answer is returned and when.
\<close>

section \<open>Data\<close>

definition DefaultSTUNServers :: "string list" where
  "DefaultSTUNServers = [''stun.l.google.com:19302'', ''stun1.l.google.com:19302'', ''stun.cloudflare.com:3478'']"

record PublicEndpoint =
  pe_Addr :: addrport
  pe_Via :: string

text \<open>The message library: the binding request with a transaction id, the test for a STUN
  message, the transaction id of a decodable message and its XOR-MAPPED-ADDRESS.\<close>

record stun_lib =
  sl_Request :: "byte list \<Rightarrow> byte list"
  sl_IsMessage :: "byte list \<Rightarrow> bool"
  sl_Decode :: "byte list \<Rightarrow> byte list res"
  sl_XORMapped :: "byte list \<Rightarrow> (goip \<times> int) res"

text \<open>Sending: the resolver, the transaction id drawn for the server at a position, the write.\<close>

record stun_net =
  sn_Resolve :: "string \<Rightarrow> addrport res"
  sn_NewTxID :: "nat \<Rightarrow> byte list res"
  sn_WriteTo :: "byte list \<Rightarrow> addrport \<Rightarrow> unit res"

text \<open>One round of the reading loop: the call that sets the deadline, the datagram or error of the
  read, and the context after it.\<close>

record stun_read =
  rd_SetReadDeadline :: "goerror option"
  rd_ReadFrom :: "byte list res"
  rd_ctx :: ctx

section \<open>Sending\<close>

definition send_one :: "stun_lib \<Rightarrow> stun_net \<Rightarrow> nat \<Rightarrow> string \<Rightarrow> byte list res" where
  "send_one lib net i s =
     (case sn_Resolve net s of
        Inl e \<Rightarrow> Inl (EWrap ''resolve %s: %w'' [AStr s] e)
      | Inr raddr \<Rightarrow>
     (case sn_NewTxID net i of
        Inl e \<Rightarrow> Inl (EWrap ''new txid: %w'' [] e)
      | Inr tx \<Rightarrow>
     (case sn_WriteTo net (sl_Request lib tx) raddr of
        Inl e \<Rightarrow> Inl (EWrap ''write %s: %w'' [AStr s] e)
      | Inr _ \<Rightarrow> Inr tx)))"

fun send_loop ::
  "stun_lib \<Rightarrow> stun_net \<Rightarrow> nat \<Rightarrow> string list \<Rightarrow> (byte list \<times> string) list \<Rightarrow> goerror list \<Rightarrow>
   (byte list \<times> string) list \<times> goerror list" where
  "send_loop lib net i [] pending sendErrs = (pending, sendErrs)"
| "send_loop lib net i (s # servers) pending sendErrs =
     (case send_one lib net i s of
        Inl e \<Rightarrow> send_loop lib net (Suc i) servers pending (sendErrs @ [e])
      | Inr tx \<Rightarrow> send_loop lib net (Suc i) servers (AList.update tx s pending) sendErrs)"

section \<open>Reading\<close>

text \<open>The endpoint that a datagram reports, if it answers a pending request.\<close>

definition stun_answer :: "stun_lib \<Rightarrow> (byte list \<times> string) list \<Rightarrow> byte list \<Rightarrow> PublicEndpoint option" where
  "stun_answer lib pending raw =
     (if \<not> sl_IsMessage lib raw then None
      else case sl_Decode lib raw of
        Inl _ \<Rightarrow> None
      | Inr tx \<Rightarrow>
     (case map_of pending tx of
        None \<Rightarrow> None
      | Some via \<Rightarrow>
     (case sl_XORMapped lib raw of
        Inl _ \<Rightarrow> None
      | Inr (ip, port) \<Rightarrow>
     (case addr_from_slice (ip_bytes (ip_To4 ip)) of
        None \<Rightarrow> None
      | Some a \<Rightarrow> Some \<lparr>pe_Addr = (a, word_of_int port), pe_Via = via\<rparr>))))"

datatype reader = Reading | ReaderGone | ReaderResult "PublicEndpoint res"

fun read_loop :: "stun_lib \<Rightarrow> (byte list \<times> string) list \<Rightarrow> stun_read list \<Rightarrow> reader" where
  "read_loop lib pending [] = Reading"
| "read_loop lib pending (r # rs) =
     (case rd_SetReadDeadline r of
        Some e \<Rightarrow> ReaderResult (Inl (EWrap ''set read deadline: %w'' [] e))
      | None \<Rightarrow>
     (case rd_ReadFrom r of
        Inl e \<Rightarrow> ReaderResult (Inl (EWrap ''stun read: %w'' [] e))
      | Inr datagram \<Rightarrow>
          (if rd_ctx r \<noteq> None then ReaderGone
           else case stun_answer lib pending (take 1500 datagram) of
             None \<Rightarrow> read_loop lib pending rs
           | Some ep \<Rightarrow> ReaderResult (Inr ep))))"

text \<open>Without servers of its own the caller gets the default ones.\<close>

definition stun_servers :: "string list \<Rightarrow> string list" where
  "stun_servers given = (if given = [] then DefaultSTUNServers else given)"

text \<open>The results that \<open>DiscoverPublic\<close> may return once the reads \<open>reads\<close> have happened, with the
  context as it is then; the list is empty while the call blocks, and has two elements when
  both cases of the select are ready.\<close>

definition DiscoverPublic ::
  "stun_lib \<Rightarrow> stun_net \<Rightarrow> ctx \<Rightarrow> string list \<Rightarrow> stun_read list \<Rightarrow> PublicEndpoint res list" where
  "DiscoverPublic lib net ctx servers reads =
     (let (pending, sendErrs) = send_loop lib net 0 (stun_servers servers) [] []
      in if pending = [] then [Inl (EWrap ''all STUN servers unreachable: %w'' [] (EJoin sendErrs))]
         else (case ctx of Some e \<Rightarrow> [Inl e] | None \<Rightarrow> []) @
              (case read_loop lib pending reads of ReaderResult r \<Rightarrow> [r] | _ \<Rightarrow> []))"

section \<open>What an answer is\<close>

text \<open>A round of the reading loop that answers the request sent to the server at some position.\<close>

definition good_read :: "stun_read \<Rightarrow> byte list \<Rightarrow> bool" where
  "good_read r datagram =
     (rd_SetReadDeadline r = None \<and> rd_ReadFrom r = Inr datagram \<and> rd_ctx r = None)"

definition answers :: "stun_lib \<Rightarrow> stun_net \<Rightarrow> string list \<Rightarrow> byte list \<Rightarrow> PublicEndpoint \<Rightarrow> bool" where
  "answers lib net servers raw ep =
     (\<exists>i tx ip port. i < length servers \<and> send_one lib net i (servers ! i) = Inr tx \<and>
        sl_IsMessage lib raw \<and> sl_Decode lib raw = Inr tx \<and> sl_XORMapped lib raw = Inr (ip, port) \<and>
        addr_from_slice (ip_bytes (ip_To4 ip)) = Some (fst (pe_Addr ep)) \<and>
        snd (pe_Addr ep) = word_of_int port \<and> servers ! i = pe_Via ep)"

text \<open>No two requests carry the same transaction id.\<close>

definition txids_distinct :: "stun_lib \<Rightarrow> stun_net \<Rightarrow> string list \<Rightarrow> bool" where
  "txids_distinct lib net servers =
     (\<forall>i < length servers. \<forall>j < length servers. \<forall>tx.
        send_one lib net i (servers ! i) = Inr tx \<longrightarrow> send_one lib net j (servers ! j) = Inr tx \<longrightarrow> i = j)"

section \<open>Lemmas\<close>

lemma send_loop_append:
  "send_loop lib net i (ss @ [s]) pending errs =
     (let (p, es) = send_loop lib net i ss pending errs in
      case send_one lib net (i + length ss) s of
        Inl e \<Rightarrow> (p, es @ [e])
      | Inr tx \<Rightarrow> (AList.update tx s p, es))"
  by (induction ss arbitrary: i pending errs) (auto split: sum.splits)

lemma send_loop_pending:
  assumes "txids_distinct lib net servers" and "send_loop lib net 0 servers [] [] = (pending, errs)"
  shows "map_of pending tx = Some s \<longleftrightarrow>
    (\<exists>i < length servers. servers ! i = s \<and> send_one lib net i (servers ! i) = Inr tx)"
  using assms
proof (induction servers arbitrary: pending errs tx s rule: rev_induct)
  case (snoc a ss)
  obtain p es where p: "send_loop lib net 0 ss [] [] = (p, es)" by fastforce
  have "txids_distinct lib net ss"
    using snoc.prems(1) by (auto simp: txids_distinct_def nth_append)
  note IH = snoc.IH [OF this p]
  have new: "send_one lib net (length ss) a = Inr t \<Longrightarrow> i < length ss \<Longrightarrow> send_one lib net i (ss ! i) \<noteq> Inr t" for i t
    using snoc.prems(1) unfolding txids_distinct_def
    by (metis length_append_singleton less_SucI lessI less_irrefl nth_append nth_append_length)
  show ?case
  proof (cases "send_one lib net (length ss) a")
    case (Inl e)
    then show ?thesis using snoc.prems(2) p IH by (auto simp: send_loop_append nth_append less_Suc_eq)
  next
    case (Inr t)
    then have "pending = AList.update t a p" using snoc.prems(2) p by (simp add: send_loop_append)
    then show ?thesis using IH Inr new by (auto simp: update_conv' nth_append less_Suc_eq)
  qed
qed simp

lemma send_loop_errors:
  assumes "\<forall>i < length servers. send_one lib net i (servers ! i) = Inl (errs i)"
  shows "send_loop lib net 0 servers [] [] = ([], map errs [0..<length servers])"
  using assms
proof (induction servers rule: rev_induct)
  case (snoc a ss)
  then have "\<forall>i < length ss. send_one lib net i (ss ! i) = Inl (errs i)"
    by (metis length_append_singleton less_SucI nth_append)
  then have "send_loop lib net 0 ss [] [] = ([], map errs [0..<length ss])"
    by (rule snoc.IH)
  moreover have "send_one lib net (length ss) a = Inl (errs (length ss))"
    using snoc.prems by (auto simp: nth_append)
  ultimately show ?case by (simp add: send_loop_append)
qed simp

lemma stun_answer_iff:
  assumes "txids_distinct lib net servers" and "send_loop lib net 0 servers [] [] = (pending, errs)"
  shows "stun_answer lib pending raw = Some ep \<longleftrightarrow> answers lib net servers raw ep"
proof -
  have "stun_answer lib pending raw = Some ep \<longleftrightarrow>
      (\<exists>tx ip port. sl_IsMessage lib raw \<and> sl_Decode lib raw = Inr tx \<and> map_of pending tx = Some (pe_Via ep) \<and>
         sl_XORMapped lib raw = Inr (ip, port) \<and>
         addr_from_slice (ip_bytes (ip_To4 ip)) = Some (fst (pe_Addr ep)) \<and> snd (pe_Addr ep) = word_of_int port)"
    by (cases ep) (auto simp: stun_answer_def split: sum.splits option.splits)
  then show ?thesis
    unfolding send_loop_pending [OF assms] answers_def by (simp only:) blast
qed

lemma read_loop_iff:
  "read_loop lib pending rs = ReaderResult (Inr ep) \<longleftrightarrow>
     (\<exists>n < length rs. (\<forall>j < n. \<exists>d. good_read (rs ! j) d \<and> stun_answer lib pending (take 1500 d) = None) \<and>
        (\<exists>d. good_read (rs ! n) d \<and> stun_answer lib pending (take 1500 d) = Some ep))"
proof (induction rs)
  case (Cons r rs)
  have step: "read_loop lib pending (r # rs) = ReaderResult (Inr ep) \<longleftrightarrow>
      (\<exists>d. good_read r d \<and> (stun_answer lib pending (take 1500 d) = Some ep \<or>
         stun_answer lib pending (take 1500 d) = None \<and> read_loop lib pending rs = ReaderResult (Inr ep)))"
    by (auto simp: good_read_def split: option.splits sum.splits)
  show ?case
    unfolding step Cons.IH by (auto simp: Ex_less_Suc2 All_less_Suc2 good_read_def)
qed simp

lemma no_pending_no_answer:
  assumes "txids_distinct lib net servers" and "send_loop lib net 0 servers [] [] = ([], errs)"
  shows "\<not> answers lib net servers raw ep"
  using stun_answer_iff [OF assms, of raw ep] by (auto simp: stun_answer_def split: sum.splits if_splits)

section \<open>Properties\<close>

text \<open>C25: The discovery returns the first answer and nothing else: when the transaction ids differ, an
  endpoint may be returned exactly when some read carries the transaction id of one of the
  requests that were sent, reports that endpoint and is labelled with the server that request
  was sent to, and all reads before it succeeded without doing so. The datagram's sender is
  not looked at: an answer under the id of another server's request counts as that server's.
  When no request could be sent, the call fails at once and reports every failure in order.
  The servers are those given, or the three default ones when none is given.\<close>

theorem stun_first_answer:
  assumes "servers = stun_servers given" and "txids_distinct lib net servers"
  shows "(Inr ep \<in> set (DiscoverPublic lib net ctx given reads) \<longleftrightarrow>
      (\<exists>n < length reads.
         (\<forall>j < n. \<exists>d. good_read (reads ! j) d \<and> (\<forall>ep'. \<not> answers lib net servers (take 1500 d) ep')) \<and>
         (\<exists>d. good_read (reads ! n) d \<and> answers lib net servers (take 1500 d) ep))) \<and>
    ((\<forall>i < length servers. send_one lib net i (servers ! i) = Inl (errs i)) \<longrightarrow>
      DiscoverPublic lib net ctx given reads =
        [Inl (EWrap ''all STUN servers unreachable: %w'' [] (EJoin (map errs [0..<length servers])))])"
proof -
  obtain pending es where p: "send_loop lib net 0 servers [] [] = (pending, es)" by fastforce
  note ans = stun_answer_iff [OF assms(2) p]
  have none: "stun_answer lib pending raw = None \<longleftrightarrow> (\<forall>ep'. \<not> answers lib net servers raw ep')" for raw
    using ans by (metis not_None_eq)
  have "Inr ep \<in> set (DiscoverPublic lib net ctx given reads) \<longleftrightarrow>
      pending \<noteq> [] \<and> read_loop lib pending reads = ReaderResult (Inr ep)"
    using assms(1) p by (auto simp: DiscoverPublic_def split: option.splits reader.splits)
  also have "\<dots> \<longleftrightarrow> read_loop lib pending reads = ReaderResult (Inr ep)"
    using no_pending_no_answer [OF assms(2)] p by (auto simp: read_loop_iff ans)
  finally show ?thesis
    unfolding read_loop_iff ans none
    using send_loop_errors [of servers lib net errs] assms(1) by (auto simp: DiscoverPublic_def)
qed

definition demo_stun_lib :: stun_lib where
  "demo_stun_lib = \<lparr>sl_Request = (\<lambda>tx. 1 # tx), sl_IsMessage = (\<lambda>b. b \<noteq> []), sl_Decode = Inr,
     sl_XORMapped = (\<lambda>b. Inr (Some [203, 0, 113, 5], 41641))\<rparr>"

definition demo_stun_net :: stun_net where
  "demo_stun_net = \<lparr>sn_Resolve = (\<lambda>s. if s = ''a'' then Inl (EMsg ''no such host'') else Inr (Addr4 1, 3478)),
     sn_NewTxID = (\<lambda>i. Inr [of_nat i]), sn_WriteTo = (\<lambda>_ _. Inr ())\<rparr>"

definition demo_reads :: "stun_read list" where
  "demo_reads = map (\<lambda>b. \<lparr>rd_SetReadDeadline = None, rd_ReadFrom = Inr [b], rd_ctx = None\<rparr>) [9, 1]"

theorem stun_first_answer_witness:
  "Inr \<lparr>pe_Addr = (Addr4 0xCB007105, 41641), pe_Via = ''b''\<rparr> \<in>
     set (DiscoverPublic demo_stun_lib demo_stun_net None [''a'', ''b''] demo_reads)"
proof -
  have "txids_distinct demo_stun_lib demo_stun_net [''a'', ''b'']"
    by (auto simp: txids_distinct_def send_one_def demo_stun_net_def less_Suc_eq)
  moreover have "answers demo_stun_lib demo_stun_net [''a'', ''b''] [1] \<lparr>pe_Addr = (Addr4 0xCB007105, 41641), pe_Via = ''b''\<rparr>"
    by (auto simp: answers_def send_one_def demo_stun_lib_def demo_stun_net_def intro!: exI [of _ 1]) code_simp
  moreover have "\<not> answers demo_stun_lib demo_stun_net [''a'', ''b''] [9] ep'" for ep'
  proof
    assume "answers demo_stun_lib demo_stun_net [''a'', ''b''] [9] ep'"
    then obtain i where "i < Suc (Suc 0)" and "(of_nat i :: byte) = 9"
      by (auto simp: answers_def send_one_def demo_stun_lib_def demo_stun_net_def split: if_splits)
    then show False by (auto simp: less_Suc_eq)
  qed
  ultimately show ?thesis
    using stun_first_answer [of "[''a'', ''b'']" "[''a'', ''b'']" demo_stun_lib demo_stun_net _ None demo_reads]
    by (auto simp: stun_servers_def demo_reads_def good_read_def less_Suc_eq intro!: exI [of _ 1])
qed

end
