(* ===== verification/Coord_Auth.thy ===== *)
theory Coord_Auth
  imports Go_Errors
begin

text \<open>
  Request signatures of the coordinator API, \<open>internal/coord/auth.go\<close>. An HTTP request is
  a record with its method, path, query, headers and body; the clock is the number of Unix
  seconds as an int64, whose subtraction wraps. SHA-256 and Ed25519 are arguments.
\<close>

section \<open>Requests\<close>

record http_request =
  rq_Method :: string
  rq_Path :: string
  rq_Query :: "(string \<times> string) list"
  rq_Header :: "(string \<times> string) list"
  rq_Body :: "byte list res"

text \<open>\<open>Header.Get\<close> and \<open>Values.Get\<close>: the first value, or the empty string.\<close>

definition get_value :: "(string \<times> string) list \<Rightarrow> string \<Rightarrow> string" where
  "get_value kvs k = (case map_of kvs k of None \<Rightarrow> '''' | Some v \<Rightarrow> v)"

record crypto =
  sha256 :: "byte list \<Rightarrow> byte list"
  ed25519_Sign :: "byte list \<Rightarrow> byte list \<Rightarrow> byte list"
  ed25519_Verify :: "byte list \<Rightarrow> byte list \<Rightarrow> byte list \<Rightarrow> bool"

section \<open>Signing and verification\<close>

definition authScheme :: string where "authScheme = ''Gretun''"
definition headerAuth :: string where "headerAuth = ''Authorization''"
definition headerTs :: string where "headerTs = ''X-Gretun-Timestamp''"
definition headerKey :: string where "headerKey = ''X-Gretun-Node''"
definition maxClockSkew :: int where "maxClockSkew = 60"

lemmas auth_defs = authScheme_def headerAuth_def headerTs_def headerKey_def

definition signingMaterial :: "crypto \<Rightarrow> string \<Rightarrow> string \<Rightarrow> string \<Rightarrow> byte list \<Rightarrow> byte list" where
  "signingMaterial cr ts method path body =
     str_bytes ts @ [10] @ str_bytes method @ [10] @ str_bytes path @ [10] @ sha256 cr body"

text \<open>The three results are the timestamp, the node key and the authorization header.\<close>

definition SignRequest ::
  "crypto \<Rightarrow> int64 \<Rightarrow> byte list \<Rightarrow> byte list \<Rightarrow> string \<Rightarrow> string \<Rightarrow> byte list \<Rightarrow> string \<times> string \<times> string" where
  "SignRequest cr now priv pub method path body =
     (let ts = fmt_int (sint now);
          digest = signingMaterial cr ts method path body;
          sig = ed25519_Sign cr priv digest
      in (ts, b64_encode pub, authScheme @ '' '' @ b64_encode sig))"

definition stale :: "int64 \<Rightarrow> int64 \<Rightarrow> bool" where
  "stale now ts = (sint (now - ts) > maxClockSkew \<or> sint (ts - now) > maxClockSkew)"

definition VerifyRequest :: "crypto \<Rightarrow> int64 \<Rightarrow> http_request \<Rightarrow> (byte list \<times> byte list) res" where
  "VerifyRequest cr now r =
     (let ts = get_value (rq_Header r) headerTs;
          nodeB64 = get_value (rq_Header r) headerKey;
          auth = get_value (rq_Header r) headerAuth
      in
      if ts = '''' \<or> nodeB64 = '''' \<or> auth = '''' then Inl (EMsg ''missing auth headers'')
      else if \<not> has_prefix auth (authScheme @ '' '') then Inl (EMsg ''bad auth scheme'')
      else case b64_decode (trim_prefix auth (authScheme @ '' '')) of
        None \<Rightarrow> Inl (EWrap ''decode sig: %w'' [] (EMsg ''illegal base64 data''))
      | Some sig \<Rightarrow>
        (case b64_decode nodeB64 of
          None \<Rightarrow> Inl (EWrap ''decode node pub: %w'' [] (EMsg ''illegal base64 data''))
        | Some pubBytes \<Rightarrow>
          (if length pubBytes \<noteq> 32 then Inl (EFmt ''bad pubkey length %d'' [AInt (int (length pubBytes))])
           else case parse_int64 ts of
             None \<Rightarrow> Inl (EWrap ''bad timestamp: %w'' [] (EMsg ''invalid syntax''))
           | Some tsInt \<Rightarrow>
             (if stale now (word_of_int tsInt) then Inl (EMsg ''stale timestamp'')
              else case rq_Body r of
                Inl e \<Rightarrow> Inl (EWrap ''read body: %w'' [] e)
              | Inr body \<Rightarrow>
                  (if \<not> ed25519_Verify cr pubBytes (signingMaterial cr ts (rq_Method r) (rq_Path r) body) sig
                   then Inl (EMsg ''signature verify failed'')
                   else Inr (pubBytes, body))))))"

section \<open>Properties\<close>

subsection \<open>Freshness\<close>

lemma sint_diff:
  assumes "- (2 ^ 63) \<le> sint a - sint b" and "sint a - sint b < 2 ^ 63"
  shows "sint (a - b :: int64) = sint a - sint b"
  using assms by (simp add: sint_word_ariths signed_take_bit_int_eq_self)

lemma sint_diff_mod: "sint (a - b :: int64) = (sint a - sint b + 2 ^ 63) mod 2 ^ 64 - 2 ^ 63"
  by (simp add: sint_word_ariths signed_take_bit_eq_take_bit_shift take_bit_eq_mod)

lemma mod_below: "- m \<le> x \<Longrightarrow> x < (0 :: int) \<Longrightarrow> x mod m = x + m"
  using mod_pos_pos_trivial [of "x + m" m] by simp

lemma sint_range: "- (2 ^ 63) \<le> sint (a :: int64)" "sint (a :: int64) < 2 ^ 63"
  using sint_ge [of a] sint_lt [of a] by simp_all

text \<open>C22: With the clock between the epoch and 2 to the 62 seconds, a timestamp passes the
  freshness check exactly when it is at most 60 seconds away from the clock, or when it lies
  exactly 2 to the 63 seconds in the past: there both wrapped differences are the most
  negative int64 and the check passes.\<close>

theorem freshness_iff:
  assumes "0 \<le> sint now" and "sint now < 2 ^ 62"
  shows "\<not> stale now ts \<longleftrightarrow> \<bar>sint now - sint ts\<bar> \<le> 60 \<or> sint ts = sint now - 2 ^ 63"
proof -
  let ?d = "sint now - sint ts"
  have rev_diff: "sint (ts - now) = - ?d" if "?d \<le> 2 ^ 63"
    using sint_diff [of ts now] that assms sint_range [of ts] by simp
  consider "?d < 2 ^ 63" | "?d = 2 ^ 63" | "2 ^ 63 < ?d" by linarith
  then show ?thesis
  proof cases
    case 1
    then have "sint (now - ts) = ?d"
      using sint_diff [of now ts] assms sint_range [of ts] by simp
    with 1 rev_diff show ?thesis by (auto simp: stale_def maxClockSkew_def)
  next
    case 2
    then have "sint (now - ts) = - (2 ^ 63)" by (simp add: sint_word_ariths signed_take_bit_eq_if_positive) 
    with 2 rev_diff show ?thesis by (auto simp: stale_def maxClockSkew_def)
  next
    case 3
    then have "sint (ts - now) = 2 ^ 64 - ?d"
      using assms sint_range [of ts] mod_below [of "2 ^ 64" "sint ts - sint now + 2 ^ 63"]
      by (simp add: sint_diff_mod)
    with 3 assms sint_range [of ts] show ?thesis by (auto simp: stale_def maxClockSkew_def)
  qed
qed

theorem freshness_iff_witness:
  "\<not> stale 1700000000 1700000060 \<and> stale 1700000000 1700000061 \<and>
   \<not> stale 1700000000 (word_of_int (1700000000 - 2 ^ 63))"
proof -
  have v: "sint (1700000000 :: int64) = 1700000000" "sint (1700000060 :: int64) = 1700000060"
    "sint (1700000061 :: int64) = 1700000061"
    "sint (word_of_int (1700000000 - 2 ^ 63) :: int64) = 1700000000 - 2 ^ 63"
    by code_simp+
  show ?thesis
    using freshness_iff [of 1700000000 1700000060] freshness_iff [of 1700000000 1700000061]
      freshness_iff [of 1700000000 "word_of_int (1700000000 - 2 ^ 63)"]
    unfolding v by simp
qed

subsection \<open>Signed requests are accepted\<close>

lemma parse_fmt_sint: "parse_int64 (fmt_int (sint (w :: int64))) = Some (sint w)"
  using sint_range [of w] by (intro parse_int64_fmt_int) auto

lemma VerifyRequest_signed:
  assumes "\<And>m. ed25519_Verify cr pub m (ed25519_Sign cr priv m)" and "length pub = 32"
    and "SignRequest cr signed_at priv pub (rq_Method r) (rq_Path r) body = (ts, nodeB64, authHeader)"
    and "rq_Header r = [(headerTs, ts), (headerKey, nodeB64), (headerAuth, authHeader)]"
    and "rq_Body r = Inr body" and "\<not> stale now signed_at"
  shows "VerifyRequest cr now r = Inr (pub, body)"
proof -
  let ?sig = "ed25519_Sign cr priv (signingMaterial cr ts (rq_Method r) (rq_Path r) body)"
  have s: "ts = fmt_int (sint signed_at)" "nodeB64 = b64_encode pub"
    "authHeader = (authScheme @ '' '') @ b64_encode ?sig"
    using assms(3) by (auto simp: SignRequest_def Let_def)
  have h: "get_value (rq_Header r) headerTs = ts" "get_value (rq_Header r) headerKey = nodeB64"
    "get_value (rq_Header r) headerAuth = authHeader"
    by (simp_all add: get_value_def assms(4) auth_defs)
  have ne: "ts \<noteq> ''''" "nodeB64 \<noteq> ''''" "authHeader \<noteq> ''''"
    using assms(2) by (auto simp: s fmt_int_def)
  have pre: "has_prefix authHeader (authScheme @ '' '')"
    "trim_prefix authHeader (authScheme @ '' '') = b64_encode ?sig"
    unfolding s(3) by (simp_all only: has_prefix_append trim_prefix_append)
  show ?thesis
    unfolding VerifyRequest_def Let_def h pre
    using ne pre(1) assms(1,2,5,6) by (simp add: s(1,2) parse_fmt_sint)
qed

text \<open>A request that carries the three headers of \<open>SignRequest\<close> for its own method, path and
  body is accepted, as the signer's, whenever the server's clock does not find the timestamp
  stale: for every key pair whose signatures verify, every method, path, query and body.\<close>

theorem verify_accepts_signed:
  assumes "\<And>m. ed25519_Verify cr pub m (ed25519_Sign cr priv m)" and "length pub = 32"
    and "SignRequest cr signed_at priv pub (rq_Method r) (rq_Path r) body = (ts, nodeB64, authHeader)"
    and "rq_Header r = [(headerTs, ts), (headerKey, nodeB64), (headerAuth, authHeader)]"
    and "rq_Body r = Inr body" and "\<not> stale now signed_at"
  shows "VerifyRequest cr now r = Inr (pub, body)"
  using assms by (rule VerifyRequest_signed)

subsection \<open>What a signature covers\<close>

lemma digits_no_newline: "parse_digits s = Some n \<Longrightarrow> CHR 0x0A \<notin> set s"
  by (auto simp: parse_digits_def is_digit_def split: if_splits)

lemma parse_int64_no_newline: "parse_int64 s = Some i \<Longrightarrow> CHR 0x0A \<notin> set s"
  by (cases s) (auto simp: parse_int64_def Let_def split: option.splits if_splits dest: digits_no_newline)

lemma newline_byte: "(10 :: byte) = byte_of_char (CHR 0x0A)"
  by (simp add: byte_of_char_def)

lemma newline_bytes: "CHR 0x0A \<notin> set s \<Longrightarrow> 10 \<notin> set (str_bytes s)"
  unfolding newline_byte by simp

lemma signingMaterial_inject:
  assumes "CHR 0x0A \<notin> set ts" "CHR 0x0A \<notin> set ts'" "CHR 0x0A \<notin> set m" "CHR 0x0A \<notin> set m'"
    and "\<And>b. length (sha256 cr b) = 32"
    and "signingMaterial cr ts m p b = signingMaterial cr ts' m' p' b'"
  shows "ts = ts'" and "m = m'" and "p = p'" and "sha256 cr b = sha256 cr b'"
proof -
  note sep = append_sep_eq_iff [OF newline_bytes newline_bytes]
  from assms(6) have "str_bytes ts @ 10 # str_bytes m @ 10 # str_bytes p @ 10 # sha256 cr b =
      str_bytes ts' @ 10 # str_bytes m' @ 10 # str_bytes p' @ 10 # sha256 cr b'"
    by (simp add: signingMaterial_def)
  then have 1: "ts = ts'" "m = m'"
    and 2: "str_bytes p @ 10 # sha256 cr b = str_bytes p' @ 10 # sha256 cr b'"
    using assms(1-4) by (simp_all add: sep)
  from 2 assms(5) have "str_bytes p = str_bytes p'" "sha256 cr b = sha256 cr b'" by simp_all
  with 1 show "ts = ts'" "m = m'" "p = p'" "sha256 cr b = sha256 cr b'" by simp_all
qed

lemma VerifyRequest_ok:
  assumes "VerifyRequest cr now r = Inr (pub, body)"
  obtains i sig where "parse_int64 (get_value (rq_Header r) headerTs) = Some i"
    "\<not> stale now (word_of_int i)" "length pub = 32" "rq_Body r = Inr body"
    "b64_decode (get_value (rq_Header r) headerKey) = Some pub"
    "b64_decode (trim_prefix (get_value (rq_Header r) headerAuth) (authScheme @ '' '')) = Some sig"
    "ed25519_Verify cr pub (signingMaterial cr (get_value (rq_Header r) headerTs) (rq_Method r) (rq_Path r) body) sig"
  using assms by (auto simp: VerifyRequest_def Let_def split: if_splits option.splits sum.splits)

text \<open>C21: A signature covers the request: when two accepted requests present the same signed
  bytes, they have the same timestamp text, method and path and bodies with the same SHA-256
  hash. Only the query and the other headers are left out. Methods contain no line break and
  the hash has its documented length of 32 bytes.\<close>

theorem signature_binds_request:
  assumes "VerifyRequest cr now r = Inr (pub, body)" and "VerifyRequest cr now' r' = Inr (pub', body')"
    and "CHR 0x0A \<notin> set (rq_Method r)" and "CHR 0x0A \<notin> set (rq_Method r')"
    and "\<And>b. length (sha256 cr b) = 32"
    and "signingMaterial cr (get_value (rq_Header r) headerTs) (rq_Method r) (rq_Path r) body =
      signingMaterial cr (get_value (rq_Header r') headerTs) (rq_Method r') (rq_Path r') body'"
  shows "get_value (rq_Header r) headerTs = get_value (rq_Header r') headerTs \<and>
    rq_Method r = rq_Method r' \<and> rq_Path r = rq_Path r' \<and> sha256 cr body = sha256 cr body'"
proof -
  have "CHR 0x0A \<notin> set (get_value (rq_Header r) headerTs)" "CHR 0x0A \<notin> set (get_value (rq_Header r') headerTs)"
    using assms(1,2) by (auto elim!: VerifyRequest_ok dest: parse_int64_no_newline)
  from signingMaterial_inject [OF this assms(3-6)] show ?thesis by simp
qed

text \<open>A signature scheme for the witnesses, in which a signature is the message itself behind
  the key.\<close>

definition demo_crypto :: crypto where
  "demo_crypto = \<lparr>sha256 = (\<lambda>b. take 32 (b @ replicate 32 0)),
     ed25519_Sign = (\<lambda>priv m. take 2 priv @ m), ed25519_Verify = (\<lambda>pub m s. s = take 2 pub @ m)\<rparr>"

definition demo_request :: http_request where
  "demo_request = (case SignRequest demo_crypto 1700000000 (replicate 32 5) (replicate 32 5) ''GET'' ''/v1/peers'' [] of
     (ts, node, auth) \<Rightarrow>
       \<lparr>rq_Method = ''GET'', rq_Path = ''/v1/peers'', rq_Query = [],
        rq_Header = [(headerTs, ts), (headerKey, node), (headerAuth, auth)], rq_Body = Inr []\<rparr>)"

lemma demo_request_fields [simp]:
  "rq_Method demo_request = ''GET''" "rq_Path demo_request = ''/v1/peers''" "rq_Body demo_request = Inr []"
  by (simp_all add: demo_request_def split: prod.split)

lemma demo_not_stale: "\<not> stale 1700000030 1700000000"
  by code_simp

theorem verify_accepts_signed_witness:
  "VerifyRequest demo_crypto 1700000030 demo_request = Inr (replicate 32 5, [])"
proof -
  obtain ts node auth where s: "SignRequest demo_crypto 1700000000 (replicate 32 5) (replicate 32 5)
      ''GET'' ''/v1/peers'' [] = (ts, node, auth)"
    by (metis prod_cases3)
  have h: "rq_Header demo_request = [(headerTs, ts), (headerKey, node), (headerAuth, auth)]"
    by (simp add: demo_request_def s)
  show ?thesis
  proof (rule verify_accepts_signed [OF _ _ _ h _ demo_not_stale])
    show "ed25519_Verify demo_crypto (replicate 32 5) m (ed25519_Sign demo_crypto (replicate 32 5) m)" for m
      by (simp add: demo_crypto_def)
    show "SignRequest demo_crypto 1700000000 (replicate 32 5) (replicate 32 5) (rq_Method demo_request)
        (rq_Path demo_request) [] = (ts, node, auth)"
      by (simp add: s)
  qed simp_all
qed

lemma demo_verified:
  "VerifyRequest demo_crypto 1700000030 demo_request = Inr (replicate 32 5, [])"
proof -
  obtain ts node auth where s: "SignRequest demo_crypto 1700000000 (replicate 32 5) (replicate 32 5)
      ''GET'' ''/v1/peers'' [] = (ts, node, auth)"
    by (metis prod_cases3)
  have h: "rq_Header demo_request = [(headerTs, ts), (headerKey, node), (headerAuth, auth)]"
    by (simp add: demo_request_def s)
  show ?thesis
  proof (rule VerifyRequest_signed [OF _ _ _ h _ demo_not_stale])
    show "ed25519_Verify demo_crypto (replicate 32 5) m (ed25519_Sign demo_crypto (replicate 32 5) m)" for m
      by (simp add: demo_crypto_def)
    show "SignRequest demo_crypto 1700000000 (replicate 32 5) (replicate 32 5) (rq_Method demo_request)
        (rq_Path demo_request) [] = (ts, node, auth)"
      by (simp add: s)
  qed simp_all
qed

lemma VerifyRequest_query: "VerifyRequest cr now (r\<lparr>rq_Query := q\<rparr>) = VerifyRequest cr now r"
proof -
  have same: "rq_Header (r\<lparr>rq_Query := q\<rparr>) = rq_Header r" "rq_Method (r\<lparr>rq_Query := q\<rparr>) = rq_Method r"
    "rq_Path (r\<lparr>rq_Query := q\<rparr>) = rq_Path r" "rq_Body (r\<lparr>rq_Query := q\<rparr>) = rq_Body r"
    by simp_all
  show ?thesis unfolding VerifyRequest_def same ..
qed

theorem signature_binds_request_witness:
  "rq_Path demo_request = rq_Path (demo_request\<lparr>rq_Query := [(''since'', ''x'')]\<rparr>) \<and>
   VerifyRequest demo_crypto 1700000030 (demo_request\<lparr>rq_Query := [(''since'', ''x'')]\<rparr>) = Inr (replicate 32 5, [])"
proof -
  have v: "VerifyRequest demo_crypto 1700000030 (demo_request\<lparr>rq_Query := [(''since'', ''x'')]\<rparr>) =
      Inr (replicate 32 5, [])"
    by (simp only: VerifyRequest_query demo_verified)
  from signature_binds_request [OF demo_verified v] v show ?thesis
    by (simp add: demo_crypto_def)
qed

end
