(* ===== verification/Disco_Envelope.thy ===== *)
theory Disco_Envelope
  imports Go_Errors
begin

text \<open>
  Keys and disco messages, \<open>internal/disco/keys.go\<close>, \<open>internal/disco/envelope.go\<close> and
  \<open>internal/disco/hash.go\<close>: generation, storage and loading of the two key pairs, sealing
  and opening, and the wire format of an envelope. The primitives of \<open>golang.org/x/crypto\<close>
  (box, X25519), the random source, the file system and the JSON text of a value are
  arguments.
\<close>

section \<open>Keys\<close>

record NodeKey =
  nk_Priv :: "byte list"
  nk_Pub :: "byte list"

record DiscoKey =
  dk_Priv :: "byte list"
  dk_Pub :: "byte list"

definition ed25519_PublicKeySize :: nat where "ed25519_PublicKeySize = 32"
definition ed25519_PrivateKeySize :: nat where "ed25519_PrivateKeySize = 64"

text \<open>The random source yields the requested number of bytes or an error. The Ed25519 key
  generator returns a pair of public and private key, \<open>x25519\<close> the public half of a
  Curve25519 private key.\<close>

definition GenerateNodeKey :: "(byte list \<times> byte list) res \<Rightarrow> NodeKey res" where
  "GenerateNodeKey gen = bind_res gen (\<lambda>(pub, priv). Inr \<lparr>nk_Priv = priv, nk_Pub = pub\<rparr>)"

definition copy32 :: "byte list \<Rightarrow> byte list" where
  "copy32 b = take 32 (b @ replicate 32 0)"

definition GenerateDiscoKey :: "(byte list \<Rightarrow> byte list res) \<Rightarrow> byte list res \<Rightarrow> DiscoKey res" where
  "GenerateDiscoKey x25519 rnd =
     bind_res rnd (\<lambda>priv. bind_res (x25519 priv) (\<lambda>pub. Inr \<lparr>dk_Priv = copy32 priv, dk_Pub = copy32 pub\<rparr>))"

record persisted =
  NodePriv :: string
  NodePub :: string
  DiscoPriv :: string
  DiscoPub :: string

definition b64_res :: "string \<Rightarrow> byte list res" where
  "b64_res s = (case b64_decode s of
     None \<Rightarrow> Inl (EFmt ''illegal base64 data at input byte'' []) | Some b \<Rightarrow> Inr b)"

definition wrap_res :: "string \<Rightarrow> 'a res \<Rightarrow> 'a res" where
  "wrap_res f r = (case r of Inl e \<Rightarrow> Inl (EWrap f [] e) | Inr x \<Rightarrow> Inr x)"

definition nodeKeyFromPersisted :: "persisted \<Rightarrow> NodeKey res" where
  "nodeKeyFromPersisted p =
     bind_res (wrap_res ''decode node priv: %w'' (b64_res (NodePriv p))) (\<lambda>priv.
     bind_res (wrap_res ''decode node pub: %w'' (b64_res (NodePub p))) (\<lambda>pub.
     if length priv \<noteq> ed25519_PrivateKeySize \<or> length pub \<noteq> ed25519_PublicKeySize
     then Inl (EFmt ''bad node key sizes'' [])
     else Inr \<lparr>nk_Priv = priv, nk_Pub = pub\<rparr>))"

definition discoKeyFromPersisted :: "persisted \<Rightarrow> DiscoKey res" where
  "discoKeyFromPersisted p =
     bind_res (wrap_res ''decode disco priv: %w'' (b64_res (DiscoPriv p))) (\<lambda>priv.
     bind_res (wrap_res ''decode disco pub: %w'' (b64_res (DiscoPub p))) (\<lambda>pub.
     if length priv \<noteq> 32 \<or> length pub \<noteq> 32 then Inl (EFmt ''bad disco key sizes'' [])
     else Inr \<lparr>dk_Priv = copy32 priv, dk_Pub = copy32 pub\<rparr>))"

definition persist :: "NodeKey \<Rightarrow> DiscoKey \<Rightarrow> persisted" where
  "persist nk dk =
     \<lparr>NodePriv = b64_encode (nk_Priv nk), NodePub = b64_encode (nk_Pub nk),
      DiscoPriv = b64_encode (dk_Priv dk), DiscoPub = b64_encode (dk_Pub dk)\<rparr>"

text \<open>The key file: absent, unreadable or with a content. \<open>LoadOrCreateKeys\<close> returns the
  keys and the file afterwards; the arguments are the error of creating the directory, the
  JSON codec of the stored record, the two key generators and the error of writing the
  file.\<close>

datatype keyfile = NoFile | Unreadable goerror | Content "byte list"

record key_env =
  ke_path :: string
  ke_mkdir :: "goerror option"
  ke_Unmarshal :: "byte list \<Rightarrow> persisted res"
  ke_MarshalIndent :: "persisted \<Rightarrow> byte list res"
  ke_node_gen :: "(byte list \<times> byte list) res"
  ke_x25519 :: "byte list \<Rightarrow> byte list res"
  ke_rand :: "byte list res"
  ke_write :: "goerror option"

definition load_keys :: "key_env \<Rightarrow> byte list \<Rightarrow> (NodeKey \<times> DiscoKey) res" where
  "load_keys ke b =
     (case ke_Unmarshal ke b of
        Inl e \<Rightarrow> Inl (EWrap ''decode %s: %w'' [AStr (ke_path ke)] e)
      | Inr p \<Rightarrow>
          bind_res (nodeKeyFromPersisted p) (\<lambda>nk.
          bind_res (discoKeyFromPersisted p) (\<lambda>dk. Inr (nk, dk))))"

definition create_keys :: "key_env \<Rightarrow> keyfile \<Rightarrow> (NodeKey \<times> DiscoKey) res \<times> keyfile" where
  "create_keys ke f =
     (case bind_res (GenerateNodeKey (ke_node_gen ke)) (\<lambda>nk.
           bind_res (GenerateDiscoKey (ke_x25519 ke) (ke_rand ke)) (\<lambda>dk.
           bind_res (ke_MarshalIndent ke (persist nk dk)) (\<lambda>buf. Inr (nk, dk, buf)))) of
        Inl e \<Rightarrow> (Inl e, f)
      | Inr (nk, dk, buf) \<Rightarrow>
          (case ke_write ke of
             Some e \<Rightarrow> (Inl e, f)
           | None \<Rightarrow> (Inr (nk, dk), Content buf)))"

definition LoadOrCreateKeys :: "key_env \<Rightarrow> keyfile \<Rightarrow> (NodeKey \<times> DiscoKey) res \<times> keyfile" where
  "LoadOrCreateKeys ke f =
     (case ke_mkdir ke of
        Some e \<Rightarrow> (Inl e, f)
      | None \<Rightarrow>
          (case f of
             Content b \<Rightarrow> (load_keys ke b, f)
           | Unreadable e \<Rightarrow> (Inl e, f)
           | NoFile \<Rightarrow> create_keys ke f))"

definition NodeKey_B64 :: "NodeKey \<Rightarrow> string" where
  "NodeKey_B64 k = b64_encode (nk_Pub k)"

definition DiscoKey_B64 :: "DiscoKey \<Rightarrow> string" where
  "DiscoKey_B64 k = b64_encode (dk_Pub k)"

definition DecodeDiscoPub :: "string \<Rightarrow> byte list res" where
  "DecodeDiscoPub s =
     bind_res (b64_res s) (\<lambda>b.
       if length b \<noteq> 32 then Inl (EFmt ''disco pubkey length %d, want 32'' [AInt (int (length b))])
       else Inr (copy32 b))"

section \<open>Sealing\<close>

record box =
  box_Seal :: "byte list \<Rightarrow> byte list \<Rightarrow> byte list \<Rightarrow> byte list \<Rightarrow> byte list"
  box_Open :: "byte list \<Rightarrow> byte list \<Rightarrow> byte list \<Rightarrow> byte list \<Rightarrow> byte list option"

text \<open>\<open>box_Seal bx m n pub priv\<close> and \<open>box_Open bx c n pub priv\<close> are the ciphertext and the
  plaintext alone; \<open>box.Seal\<close> appends the ciphertext to its first argument.\<close>

definition Seal :: "box \<Rightarrow> byte list res \<Rightarrow> byte list \<Rightarrow> byte list \<Rightarrow> DiscoKey \<Rightarrow> byte list res" where
  "Seal bx rnd plaintext recipient sender =
     bind_res rnd (\<lambda>nonce. Inr (nonce @ box_Seal bx plaintext nonce recipient (dk_Priv sender)))"

definition Open :: "box \<Rightarrow> byte list \<Rightarrow> byte list \<Rightarrow> DiscoKey \<Rightarrow> byte list option" where
  "Open bx sealed sender recipient =
     (if length sealed < 24 then None
      else box_Open bx (drop 24 sealed) (take 24 sealed) sender (dk_Priv recipient))"

section \<open>Envelopes\<close>

definition Magic :: "byte list" where
  "Magic = [0x54, 0x53, 0xF0, 0x9F, 0x92, 0xAC]"

definition magicLen :: nat where "magicLen = 6"
definition pubkeyLen :: nat where "pubkeyLen = 32"
definition envelopeMin :: nat where "envelopeMin = magicLen + pubkeyLen + 24"

lemmas wire_defs = Magic_def magicLen_def pubkeyLen_def envelopeMin_def

definition MsgPing :: string where "MsgPing = ''ping''"
definition MsgPong :: string where "MsgPong = ''pong''"
definition MsgCallMeMaybe :: string where "MsgCallMeMaybe = ''call_me_maybe''"

lemmas msg_defs = MsgPing_def MsgPong_def MsgCallMeMaybe_def

record Body =
  b_Type :: string
  b_Tx :: string
  b_NodeKey :: string
  b_Src :: string
  b_Endpoints :: "string list"

definition empty_body :: Body where
  "empty_body = \<lparr>b_Type = '''', b_Tx = '''', b_NodeKey = '''', b_Src = '''', b_Endpoints = []\<rparr>"

text \<open>The JSON codec of a body: \<open>Body.Marshal\<close> and the call behind \<open>UnmarshalBody\<close>.\<close>

record body_codec =
  Marshal :: "Body \<Rightarrow> byte list res"
  Unmarshal :: "byte list \<Rightarrow> Body res"

definition UnmarshalBody :: "body_codec \<Rightarrow> byte list \<Rightarrow> Body \<times> goerror option" where
  "UnmarshalBody cd raw = (case Unmarshal cd raw of Inl e \<Rightarrow> (empty_body, Some e) | Inr b \<Rightarrow> (b, None))"

definition BuildEnvelope ::
  "box \<Rightarrow> body_codec \<Rightarrow> byte list res \<Rightarrow> DiscoKey \<Rightarrow> byte list \<Rightarrow> Body \<Rightarrow> byte list res" where
  "BuildEnvelope bx cd rnd sender recipient body =
     bind_res (Marshal cd body) (\<lambda>plaintext.
     bind_res (Seal bx rnd plaintext recipient sender) (\<lambda>sealed.
     Inr (Magic @ dk_Pub sender @ sealed)))"

definition ParseEnvelope :: "byte list \<Rightarrow> (byte list \<times> byte list) res" where
  "ParseEnvelope buf =
     (if length buf < envelopeMin then
        Inl (EFmt ''envelope too short (%d bytes)'' [AInt (int (length buf))])
      else if take magicLen buf \<noteq> Magic then Inl (EMsg ''envelope: bad magic'')
      else Inr (take pubkeyLen (drop magicLen buf), drop (magicLen + pubkeyLen) buf))"

text \<open>\<open>OpenEnvelope\<close> returns the sender and the body, or the error of the first step that
  fails.\<close>

definition OpenEnvelope :: "box \<Rightarrow> body_codec \<Rightarrow> byte list \<Rightarrow> DiscoKey \<Rightarrow> (byte list \<times> Body) res" where
  "OpenEnvelope bx cd buf recipient =
     bind_res (ParseEnvelope buf) (\<lambda>(sender, sealed).
       case Open bx sealed sender recipient of
         None \<Rightarrow> Inl (EMsg ''envelope: decrypt failed'')
       | Some plain \<Rightarrow>
           (case UnmarshalBody cd plain of
              (body, Some e) \<Rightarrow> Inl e
            | (body, None) \<Rightarrow> Inr (sender, body)))"

section \<open>Properties\<close>

subsection \<open>The wire format\<close>

text \<open>A buffer is accepted as an envelope exactly when it is the six magic bytes followed by a
  32-byte sender key and a sealed part of at least 24 bytes, and these two parts are what the
  parser returns.\<close>

theorem ParseEnvelope_iff:
  "ParseEnvelope buf = Inr (sender, sealed) \<longleftrightarrow>
     buf = Magic @ sender @ sealed \<and> length sender = 32 \<and> 24 \<le> length sealed"
proof
  assume "ParseEnvelope buf = Inr (sender, sealed)"
  then have *: "62 \<le> length buf" "take 6 buf = Magic" "sender = take 32 (drop 6 buf)" "sealed = drop 38 buf"
    by (auto simp: ParseEnvelope_def envelopeMin_def magicLen_def pubkeyLen_def split: if_splits)
  have "buf = take 6 buf @ take 32 (drop 6 buf) @ drop 32 (drop 6 buf)"
    by (simp only: append_take_drop_id)
  with * show "buf = Magic @ sender @ sealed \<and> length sender = 32 \<and> 24 \<le> length sealed" by auto
next
  assume "buf = Magic @ sender @ sealed \<and> length sender = 32 \<and> 24 \<le> length sealed"
  then show "ParseEnvelope buf = Inr (sender, sealed)"
    by (auto simp: ParseEnvelope_def wire_defs)
qed

lemma ParseEnvelope_append:
  "length sender = 32 \<Longrightarrow> 24 \<le> length sealed \<Longrightarrow> ParseEnvelope (Magic @ sender @ sealed) = Inr (sender, sealed)"
  by (auto simp: ParseEnvelope_def wire_defs)

subsection \<open>Sealing and opening\<close>

text \<open>What the code relies on from NaCl box: opening with the other half of the two key pairs
  inverts sealing. \<open>pub_of\<close> is the public key of a private key.\<close>

definition box_law :: "box \<Rightarrow> (byte list \<Rightarrow> byte list) \<Rightarrow> bool" where
  "box_law bx pub_of =
     (\<forall>m n a b. length n = 24 \<longrightarrow>
        box_Open bx (box_Seal bx m n (pub_of b) a) n (pub_of a) b = Some m)"

text \<open>JSON keeps the strings that are valid UTF-8, among them those of ASCII characters.\<close>

definition ascii_body :: "Body \<Rightarrow> bool" where
  "ascii_body b = list_all ascii (b_Type b # b_Tx b # b_NodeKey b # b_Src b # b_Endpoints b)"

definition codec_law :: "body_codec \<Rightarrow> bool" where
  "codec_law cd = (\<forall>b buf. ascii_body b \<longrightarrow> Marshal cd b = Inr buf \<longrightarrow> Unmarshal cd buf = Inr b)"

definition keypair :: "(byte list \<Rightarrow> byte list) \<Rightarrow> DiscoKey \<Rightarrow> bool" where
  "keypair pub_of k = (dk_Pub k = pub_of (dk_Priv k) \<and> length (dk_Pub k) = 32)"

lemma Open_Seal:
  assumes "box_law bx pub_of" and "length nonce = 24" and "keypair pub_of sender" and "keypair pub_of recipient"
    and "Seal bx (Inr nonce) m (dk_Pub recipient) sender = Inr sealed"
  shows "Open bx sealed (dk_Pub sender) recipient = Some m" and "24 \<le> length sealed"
  using assms by (auto simp: Seal_def Open_def box_law_def keypair_def)

lemma OpenEnvelope_Build:
  assumes "box_law bx pub_of" and "codec_law cd"
    and "keypair pub_of sender" and "keypair pub_of recipient" and "length nonce = 24"
    and "BuildEnvelope bx cd (Inr nonce) sender (dk_Pub recipient) body = Inr buf" and "ascii_body body"
  shows "OpenEnvelope bx cd buf recipient = Inr (dk_Pub sender, body)"
proof -
  from assms(6) obtain m sealed where m: "Marshal cd body = Inr m"
    "Seal bx (Inr nonce) m (dk_Pub recipient) sender = Inr sealed" "buf = Magic @ dk_Pub sender @ sealed"
    by (auto simp: BuildEnvelope_def bind_res_eq_Inr_iff)
  note o = Open_Seal [OF assms(1,5,3,4) m(2)]
  have "Unmarshal cd m = Inr body" using assms(2,7) m(1) by (auto simp: codec_law_def)
  moreover have "length (dk_Pub sender) = 32" using assms(3) unfolding keypair_def by blast
  ultimately show ?thesis
    using m(3) o by (simp add: OpenEnvelope_def ParseEnvelope_append UnmarshalBody_def)
qed

text \<open>C7: An envelope that one node builds for another is opened by it to the same body, with
  the sender's public key; this holds for every body of ASCII texts, as the daemon makes them,
  and every pair of nodes, given that NaCl box opens what it seals and that the JSON codec
  reads what it writes.\<close>

theorem open_build_envelope:
  assumes "box_law bx pub_of" and "codec_law cd"
    and "keypair pub_of sender" and "keypair pub_of recipient" and "length nonce = 24"
    and "BuildEnvelope bx cd (Inr nonce) sender (dk_Pub recipient) body = Inr buf" and "ascii_body body"
  shows "OpenEnvelope bx cd buf recipient = Inr (dk_Pub sender, body)"
  using assms by (rule OpenEnvelope_Build)

text \<open>A box and a codec for the witnesses: the sealed text is the plaintext behind a tag that
  both sides can compute, and the codec handles bodies that have a type and nothing else.\<close>

definition demo_pub :: "byte list \<Rightarrow> byte list" where
  "demo_pub = map (\<lambda>b. b + 1)"

definition demo_tag :: "byte list \<Rightarrow> byte list \<Rightarrow> byte list" where
  "demo_tag pub priv = map2 (\<lambda>p q. p + 1 + q) priv pub"

definition demo_box :: box where
  "demo_box = \<lparr>box_Seal = (\<lambda>m n pub priv. demo_tag pub priv @ m),
     box_Open = (\<lambda>c n pub priv.
       let t = demo_tag pub priv in if take (length t) c = t then Some (drop (length t) c) else None)\<rparr>"

definition demo_codec :: body_codec where
  "demo_codec =
     \<lparr>Marshal = (\<lambda>b. if b = empty_body\<lparr>b_Type := b_Type b\<rparr> then Inr (str_bytes (b_Type b))
                     else Inl (EMsg ''unsupported'')),
      Unmarshal = (\<lambda>raw. Inr (empty_body\<lparr>b_Type := map (\<lambda>b. char_of (unat b)) raw\<rparr>))\<rparr>"

definition demo_key :: "byte \<Rightarrow> DiscoKey" where
  "demo_key b = \<lparr>dk_Priv = replicate 32 b, dk_Pub = replicate 32 (b + 1)\<rparr>"

lemma demo_tag_comm: "demo_tag (demo_pub a) b = demo_tag (demo_pub b) a"
  by (simp add: demo_tag_def demo_pub_def zip_map2 zip_commute [of a b] ac_simps case_prod_unfold)

lemma demo_box_law: "box_law demo_box demo_pub"
  by (simp add: box_law_def demo_box_def demo_tag_comm Let_def)

lemma str_bytes_back: "map (\<lambda>b. char_of (unat b)) (str_bytes s) = s"
  by (simp add: str_bytes_def o_def)

lemma demo_codec_law: "codec_law demo_codec"
  by (auto simp: codec_law_def demo_codec_def str_bytes_back split: if_splits)

lemma demo_keypair: "keypair demo_pub (demo_key b)"
  by (simp add: keypair_def demo_key_def demo_pub_def)

lemma demo_build: "\<exists>buf. BuildEnvelope demo_box demo_codec (Inr (replicate 24 0)) (demo_key 1) (dk_Pub (demo_key 2))
     (empty_body\<lparr>b_Type := MsgPing\<rparr>) = Inr buf"
  by (simp add: BuildEnvelope_def demo_codec_def Seal_def)

theorem open_build_envelope_witness:
  "\<exists>buf. OpenEnvelope demo_box demo_codec buf (demo_key 2) =
     Inr (dk_Pub (demo_key 1), empty_body\<lparr>b_Type := MsgPing\<rparr>)"
proof -
  obtain buf where "BuildEnvelope demo_box demo_codec (Inr (replicate 24 0)) (demo_key 1)
      (dk_Pub (demo_key 2)) (empty_body\<lparr>b_Type := MsgPing\<rparr>) = Inr buf"
    using demo_build by blast
  from open_build_envelope [OF demo_box_law demo_codec_law demo_keypair demo_keypair _ this]
  show ?thesis by (auto simp: ascii_body_def ascii_def empty_body_def MsgPing_def)
qed

subsection \<open>The key file\<close>

lemma copy32_id [simp]: "length b = 32 \<Longrightarrow> copy32 b = b"
  by (simp add: copy32_def)

lemma length_copy32 [simp]: "length (copy32 b) = 32"
  by (simp add: copy32_def)

lemma from_persist:
  assumes "length (nk_Priv nk) = 64" "length (nk_Pub nk) = 32" "length (dk_Priv dk) = 32" "length (dk_Pub dk) = 32"
  shows "nodeKeyFromPersisted (persist nk dk) = Inr nk" and "discoKeyFromPersisted (persist nk dk) = Inr dk"
  using assms
  by (simp_all add: nodeKeyFromPersisted_def discoKeyFromPersisted_def persist_def b64_res_def wrap_res_def
      ed25519_PrivateKeySize_def ed25519_PublicKeySize_def)

text \<open>A stored record of ASCII texts is read back from the JSON text written for it, and the Ed25519
  generator returns keys of the documented sizes.\<close>

definition ascii_persisted :: "persisted \<Rightarrow> bool" where
  "ascii_persisted p = list_all ascii [NodePriv p, NodePub p, DiscoPriv p, DiscoPub p]"

definition key_env_law :: "key_env \<Rightarrow> bool" where
  "key_env_law ke =
     ((\<forall>p buf. ascii_persisted p \<longrightarrow> ke_MarshalIndent ke p = Inr buf \<longrightarrow> ke_Unmarshal ke buf = Inr p) \<and>
      (\<forall>pub priv. ke_node_gen ke = Inr (pub, priv) \<longrightarrow> length pub = 32 \<and> length priv = 64))"

lemma b64_encode_ascii: "ascii (b64_encode bs)"
proof -
  have char: "of_char (b64_char n) < (128 :: nat)" for n
    by (simp add: b64_char_def of_char_of) arith
  show ?thesis
    by (induction bs rule: b64_encode.induct) (simp_all add: ascii_def char)
qed

lemma persist_ascii: "ascii_persisted (persist nk dk)"
  by (simp add: ascii_persisted_def persist_def b64_encode_ascii)

text \<open>C31: The key file is written once: when a first start has created the keys, every later start that
  finds the file as the first one left it loads exactly the same two key pairs, whatever its
  random source, and leaves the file as it is. (Both can create the directory, JSON gives back
  the ASCII texts it was given, and the generated keys have the documented sizes.)\<close>

theorem keys_survive_restart:
  assumes "key_env_law ke" and "ke_mkdir ke' = None" and "ke_Unmarshal ke' = ke_Unmarshal ke"
    and "LoadOrCreateKeys ke NoFile = (Inr (nk, dk), f)"
  shows "LoadOrCreateKeys ke' f = (Inr (nk, dk), f)"
proof -
  from assms(4) have "create_keys ke NoFile = (Inr (nk, dk), f)"
    by (auto simp: LoadOrCreateKeys_def split: option.splits)
  then obtain buf where buf: "GenerateNodeKey (ke_node_gen ke) = Inr nk"
    "GenerateDiscoKey (ke_x25519 ke) (ke_rand ke) = Inr dk"
    "ke_MarshalIndent ke (persist nk dk) = Inr buf" "f = Content buf"
    by (auto simp: create_keys_def bind_res_eq_Inr_iff split: sum.splits option.splits)
  have "length (nk_Priv nk) = 64 \<and> length (nk_Pub nk) = 32"
    using assms(1) buf(1) by (auto simp: key_env_law_def GenerateNodeKey_def bind_res_eq_Inr_iff)
  moreover have "length (dk_Priv dk) = 32 \<and> length (dk_Pub dk) = 32"
    using buf(2) by (auto simp: GenerateDiscoKey_def bind_res_eq_Inr_iff)
  ultimately have "load_keys ke' buf = Inr (nk, dk)"
    using assms(1,3) buf(3) from_persist [of nk dk] persist_ascii [of nk dk]
    by (simp add: load_keys_def key_env_law_def)
  with buf(4) assms(2) show ?thesis by (simp add: LoadOrCreateKeys_def)
qed

definition demo_unmarshal :: "byte list \<Rightarrow> persisted res" where
  "demo_unmarshal raw =
     (if raw = [1] then Inr (persist \<lparr>nk_Priv = replicate 64 7, nk_Pub = replicate 32 8\<rparr> (demo_key 3))
      else Inl (EMsg ''unexpected end of JSON input''))"

definition demo_env_keys :: key_env where
  "demo_env_keys =
     \<lparr>ke_path = ''keys.json'', ke_mkdir = None, ke_Unmarshal = demo_unmarshal,
      ke_MarshalIndent = (\<lambda>p. if demo_unmarshal [1] = Inr p then Inr [1] else Inl (EMsg ''unsupported'')),
      ke_node_gen = Inr (replicate 32 8, replicate 64 7), ke_x25519 = (\<lambda>p. Inr (demo_pub p)),
      ke_rand = Inr (replicate 32 3), ke_write = None\<rparr>"

lemma demo_first_start:
  "LoadOrCreateKeys demo_env_keys NoFile =
     (Inr (\<lparr>nk_Priv = replicate 64 7, nk_Pub = replicate 32 8\<rparr>, demo_key 3), Content [1])"
  by (simp add: LoadOrCreateKeys_def create_keys_def demo_env_keys_def GenerateNodeKey_def
      GenerateDiscoKey_def demo_unmarshal_def demo_key_def demo_pub_def)

theorem keys_survive_restart_witness:
  "LoadOrCreateKeys (demo_env_keys\<lparr>ke_rand := Inr (replicate 32 9)\<rparr>) (Content [1]) =
     (Inr (\<lparr>nk_Priv = replicate 64 7, nk_Pub = replicate 32 8\<rparr>, demo_key 3), Content [1])"
proof -
  have "key_env_law demo_env_keys"
    by (auto simp: key_env_law_def demo_env_keys_def demo_unmarshal_def split: if_splits)
  from keys_survive_restart [OF this _ _ demo_first_start] show ?thesis
    by (simp add: demo_env_keys_def)
qed

end
