(* ===== verification/Daemon_Peer.thy ===== *)
theory Daemon_Peer
  imports Disco_Envelope Tunnel_Gre
begin

text \<open>
  The per-peer state machine of the daemon, \<open>internal/daemon/peer.go\<close>. The state is the
  struct \<open>peerFSM\<close> with the local variable \<open>punchDeadline\<close> of its driver goroutine, over
  the kernel state of a \<open>Netlinker\<close>. Every branch of the driver's select loop is a function
  that returns the new state and the messages and metric updates it emits. The step relation
  at the end interleaves these branches with the other goroutine that calls \<open>update\<close>,
  \<open>onUDP\<close> and \<open>onSignal\<close>; \<open>update\<close> is two steps there, because it sends its event before
  it writes the snapshot.
\<close>

section \<open>Data\<close>

record RemoteEndpoint =
  re_Addr :: addrport
  re_Source :: string

record RemotePeer =
  rp_NodeKey :: "byte list"
  rp_DiscoKey :: "byte list"
  rp_Name :: string
  rp_TunnelIP :: addr
  rp_Endpoints :: "RemoteEndpoint list"
  rp_UpdatedAt :: gotime

datatype peerState = stateUnknown | stateHaveEndpoints | statePunching | stateDirect | stateRelay

fun peerState_String :: "peerState \<Rightarrow> string" where
  "peerState_String stateUnknown = ''unknown''"
| "peerState_String stateHaveEndpoints = ''have_endpoints''"
| "peerState_String statePunching = ''punching''"
| "peerState_String stateDirect = ''direct''"
| "peerState_String stateRelay = ''relay''"

definition punchAttemptDur :: duration where "punchAttemptDur = 5 * second"
definition pongMissDeadline :: duration where "pongMissDeadline = 75 * second"
definition incomingCap :: nat where "incomingCap = 32"

record peerDeps =
  pd_self :: DiscoKey
  pd_selfNode :: NodeKey
  pd_ifaceName :: string
  pd_fouPort :: u16
  pd_selfTunnel :: addr
  pd_aggressive :: bool
  pd_metrics :: bool

datatype fsmEvent = evUpdate | evUDP addrport Body | evSignal Body

record peerFSM =
  deps :: peerDeps
  fsm_peer :: RemotePeer
  state :: peerState
  winning :: addrport
  tunnelUp :: bool
  lastPong :: gotime
  punchStart :: gotime
  stopped :: bool
  incoming :: "fsmEvent list"
  punchDeadline :: gotime

text \<open>What the machine emits: an envelope written to the disco socket (with the message it
  carries), the start of the goroutine that announces this node through the coordinator, and
  updates of the metrics.\<close>

datatype effect =
    UDPWrite addrport Body "byte list"
  | GoCallMeMaybe
  | IncPings
  | IncPongs
  | ObservePunch duration

text \<open>What one branch reads from outside: the clock (two readings), the addresses of the local
  interfaces, the port of the disco socket, fresh transaction ids and the builder of
  envelopes.\<close>

datatype ifaddr = IfNet ipnet | IfOther

record fsm_env =
  fe_now :: gotime
  fe_now2 :: gotime
  fe_ifaddrs :: "ifaddr list res"
  fe_port :: int
  fe_tx :: "nat \<Rightarrow> string"
  fe_build :: "DiscoKey \<Rightarrow> byte list \<Rightarrow> Body \<Rightarrow> byte list res"

section \<open>Creation and the inbox\<close>

definition newPeerFSM :: "peerDeps \<Rightarrow> RemotePeer \<Rightarrow> peerFSM" where
  "newPeerFSM d peer =
     \<lparr>deps = d, fsm_peer = peer, state = stateUnknown, winning = addrport_zero, tunnelUp = False,
      lastPong = zero_time, punchStart = zero_time, stopped = False, incoming = [],
      punchDeadline = zero_time\<rparr>"

text \<open>A send on the buffered channel in a select with a default: \<open>None\<close> when it is full.\<close>

definition try_send :: "fsmEvent \<Rightarrow> peerFSM \<Rightarrow> peerFSM option" where
  "try_send ev p =
     (if length (incoming p) < incomingCap then Some (p\<lparr>incoming := incoming p @ [ev]\<rparr>) else None)"

definition set_peer :: "RemotePeer \<Rightarrow> peerFSM \<Rightarrow> peerFSM" where
  "set_peer peer p = p\<lparr>fsm_peer := peer\<rparr>"

text \<open>\<open>update\<close> without interference: the event, then the snapshot; with a full inbox the
  snapshot is dropped as well.\<close>

definition update :: "RemotePeer \<Rightarrow> peerFSM \<Rightarrow> peerFSM" where
  "update peer p = (case try_send evUpdate p of None \<Rightarrow> p | Some p' \<Rightarrow> set_peer peer p')"

definition onUDP :: "addrport \<Rightarrow> Body \<Rightarrow> peerFSM \<Rightarrow> peerFSM" where
  "onUDP from body p = (case try_send (evUDP from body) p of None \<Rightarrow> p | Some p' \<Rightarrow> p')"

definition onSignal :: "Body \<Rightarrow> peerFSM \<Rightarrow> peerFSM" where
  "onSignal body p = (case try_send (evSignal body) p of None \<Rightarrow> p | Some p' \<Rightarrow> p')"

definition stop :: "peerFSM \<Rightarrow> peerFSM" where
  "stop p = p\<lparr>stopped := True\<rparr>"

section \<open>Sending\<close>

definition sendDisco :: "fsm_env \<Rightarrow> addrport \<Rightarrow> Body \<Rightarrow> peerFSM \<Rightarrow> effect list" where
  "sendDisco fe to body p =
     (case fe_build fe (pd_self (deps p)) (rp_DiscoKey (fsm_peer p)) body of
        Inl _ \<Rightarrow> []
      | Inr env \<Rightarrow> [UDPWrite to body env])"

definition ping_body :: "string \<Rightarrow> peerFSM \<Rightarrow> Body" where
  "ping_body tx p =
     \<lparr>b_Type = MsgPing, b_Tx = tx, b_NodeKey = NodeKey_B64 (pd_selfNode (deps p)), b_Src = '''',
      b_Endpoints = []\<rparr>"

definition sendPing :: "fsm_env \<Rightarrow> string \<Rightarrow> addrport \<Rightarrow> peerFSM \<Rightarrow> effect list" where
  "sendPing fe tx to p =
     sendDisco fe to (ping_body tx p) p @ (if pd_metrics (deps p) then [IncPings] else [])"

definition sendPong :: "fsm_env \<Rightarrow> addrport \<Rightarrow> string \<Rightarrow> peerFSM \<Rightarrow> effect list" where
  "sendPong fe to tx p =
     sendDisco fe to
       \<lparr>b_Type = MsgPong, b_Tx = tx, b_NodeKey = '''', b_Src = addrport_String to, b_Endpoints = []\<rparr> p"

text \<open>\<open>if_To4\<close> is the IPv4 form of an interface address, as both loops over
  \<open>net.InterfaceAddrs\<close> compute it.\<close>

definition if_To4 :: "ifaddr \<Rightarrow> byte list option" where
  "if_To4 a = (case a of IfOther \<Rightarrow> None | IfNet n \<Rightarrow> ip_To4 (Some (net_IP n)))"

definition gatherLocalAddrPorts :: "fsm_env \<Rightarrow> string list" where
  "gatherLocalAddrPorts fe =
     (case fe_ifaddrs fe of
        Inl _ \<Rightarrow> []
      | Inr addrs \<Rightarrow>
          List.map_filter
            (\<lambda>a. case if_To4 a of
                   None \<Rightarrow> None
                 | Some v4 \<Rightarrow>
                     (if ip_IsLoopback (Some v4) then None
                      else Some (ip_String (Some v4) @ '':'' @ fmt_int (fe_port fe))))
            addrs)"

definition callMeMaybe_body :: "fsm_env \<Rightarrow> Body" where
  "callMeMaybe_body fe = empty_body\<lparr>b_Type := MsgCallMeMaybe, b_Endpoints := gatherLocalAddrPorts fe\<rparr>"

text \<open>The goroutine \<open>sendCallMeMaybe\<close>: the recipient and the envelope it posts to the
  coordinator, if the envelope can be built.\<close>

definition sendCallMeMaybe :: "fsm_env \<Rightarrow> peerFSM \<Rightarrow> (byte list \<times> byte list) option" where
  "sendCallMeMaybe fe p =
     (case fe_build fe (pd_self (deps p)) (rp_DiscoKey (fsm_peer p)) (callMeMaybe_body fe) of
        Inl _ \<Rightarrow> None
      | Inr env \<Rightarrow> Some (rp_DiscoKey (fsm_peer p), env))"

section \<open>The tunnel of a peer\<close>

definition firstGlobalV4 :: "fsm_env \<Rightarrow> addr" where
  "firstGlobalV4 fe =
     (case fe_ifaddrs fe of
        Inl _ \<Rightarrow> AddrZero
      | Inr addrs \<Rightarrow>
          (case List.map_filter
                  (\<lambda>a. case if_To4 a of
                         None \<Rightarrow> None
                       | Some v4 \<Rightarrow>
                           (if ip_IsLoopback (Some v4) \<or> \<not> ip_IsGlobalUnicast (Some v4) then None
                            else addr_from_slice v4))
                  addrs of
             [] \<Rightarrow> AddrZero
           | a # _ \<Rightarrow> a))"

definition tunnel_cfg :: "addr \<Rightarrow> addrport \<Rightarrow> peerFSM \<Rightarrow> Config" where
  "tunnel_cfg local to p =
     \<lparr>cfg_Name = pd_ifaceName (deps p), cfg_LocalIP = addr_AsSlice local,
      cfg_RemoteIP = addr_AsSlice (fst to), cfg_Key = 0, cfg_TTL = 0, cfg_MTU = 0,
      cfg_Encap = EncapFOU, cfg_EncapSport = pd_fouPort (deps p), cfg_EncapDport = snd to,
      cfg_EncapChecksum = True\<rparr>"

definition bringUpTunnel :: "'k Netlinker \<Rightarrow> fsm_env \<Rightarrow> addrport \<Rightarrow> peerFSM \<Rightarrow> 'k \<Rightarrow> peerFSM \<times> 'k" where
  "bringUpTunnel nl fe to p k =
     (if tunnelUp p then (p, k)
      else let local = firstGlobalV4 fe in
        if \<not> addr_IsValid local then (p, k)
        else case Create background nl (tunnel_cfg local to p) k of
          (Some e, k1) \<Rightarrow> (p, k1)
        | (None, k1) \<Rightarrow>
            (p\<lparr>tunnelUp := True\<rparr>,
             if addr_IsValid (pd_selfTunnel (deps p)) \<and> addr_IsValid (rp_TunnelIP (fsm_peer p))
             then snd (AssignIP background nl (pd_ifaceName (deps p))
                    (addr_String (pd_selfTunnel (deps p)) @ ''/30'') k1)
             else k1))"

definition teardown :: "'k Netlinker \<Rightarrow> peerFSM \<Rightarrow> 'k \<Rightarrow> 'k" where
  "teardown nl p k =
     (if tunnelUp p then snd (Delete background nl (pd_ifaceName (deps p)) k) else k)"

section \<open>The branches of the driver\<close>

definition setState :: "peerState \<Rightarrow> peerFSM \<Rightarrow> peerFSM" where
  "setState s p = p\<lparr>state := s\<rparr>"

definition enter :: "peerState \<Rightarrow> effect list" where
  "enter s = (if s = stateUnknown then [GoCallMeMaybe] else [])"

definition run_start :: "peerFSM \<Rightarrow> peerFSM \<times> effect list" where
  "run_start p = (setState stateUnknown (p\<lparr>punchDeadline := zero_time\<rparr>), enter stateUnknown)"

text \<open>\<open>onPeerUpdate\<close> writes the state twice, each time under the lock of its own \<open>setState\<close>: the
  first write, the rest, and the whole.\<close>

definition noticeEndpoints :: "peerFSM \<Rightarrow> peerFSM" where
  "noticeEndpoints p =
     (if rp_Endpoints (fsm_peer p) \<noteq> [] \<and> state p = stateUnknown then setState stateHaveEndpoints p else p)"

definition startPunching :: "fsm_env \<Rightarrow> peerFSM \<Rightarrow> peerFSM" where
  "startPunching fe p =
     (setState statePunching p)\<lparr>punchStart := fe_now fe, punchDeadline := fe_now2 fe + punchAttemptDur\<rparr>"

definition onPeerUpdate :: "fsm_env \<Rightarrow> peerFSM \<Rightarrow> peerFSM" where
  "onPeerUpdate fe p =
     (if rp_Endpoints (fsm_peer p) \<noteq> [] \<and> state p = stateUnknown
      then startPunching fe (setState stateHaveEndpoints p)
      else p)"

fun absorb_loop :: "string list \<Rightarrow> addrport list \<Rightarrow> RemoteEndpoint list \<Rightarrow> RemoteEndpoint list" where
  "absorb_loop [] seen eps = eps"
| "absorb_loop (s # addrs) seen eps =
     (case parse_addrport s of
        None \<Rightarrow> absorb_loop addrs seen eps
      | Some ap \<Rightarrow>
          (if ap \<in> set seen then absorb_loop addrs seen eps
           else absorb_loop addrs (ap # seen)
                  (eps @ [\<lparr>re_Addr = ap, re_Source = ''call_me_maybe''\<rparr>])))"

definition absorbEndpoints :: "string list \<Rightarrow> peerFSM \<Rightarrow> peerFSM" where
  "absorbEndpoints addrs p =
     p\<lparr>fsm_peer := (fsm_peer p)\<lparr>rp_Endpoints :=
        absorb_loop addrs (map re_Addr (rp_Endpoints (fsm_peer p))) (rp_Endpoints (fsm_peer p))\<rparr>\<rparr>"

definition onPong :: "'k Netlinker \<Rightarrow> fsm_env \<Rightarrow> addrport \<Rightarrow> peerFSM \<Rightarrow> 'k \<Rightarrow> (peerFSM \<times> 'k) \<times> effect list" where
  "onPong nl fe from p k =
     (let counted = (if pd_metrics (deps p) then [IncPongs] else []) in
      if state p \<noteq> stateDirect then
        (let p1 = setState stateDirect (p\<lparr>winning := from, lastPong := fe_now fe\<rparr>);
             since = time_sub (fe_now2 fe) (punchStart p)
         in (bringUpTunnel nl fe from p1 k,
             counted @
             (if pd_metrics (deps p) \<and> punchStart p \<noteq> zero_time then [ObservePunch since] else [])))
      else ((p\<lparr>lastPong := fe_now fe\<rparr>, k), counted))"

definition onDiscoUDP ::
  "'k Netlinker \<Rightarrow> fsm_env \<Rightarrow> addrport \<Rightarrow> Body \<Rightarrow> peerFSM \<Rightarrow> 'k \<Rightarrow> (peerFSM \<times> 'k) \<times> effect list" where
  "onDiscoUDP nl fe from body p k =
     (if b_Type body = MsgPing then ((p, k), sendPong fe from (b_Tx body) p)
      else if b_Type body = MsgPong then onPong nl fe from p k
      else if b_Type body = MsgCallMeMaybe then
        ((onPeerUpdate fe (absorbEndpoints (b_Endpoints body) p), k), [])
      else ((p, k), []))"

definition onDiscoSignal ::
  "'k Netlinker \<Rightarrow> fsm_env \<Rightarrow> Body \<Rightarrow> peerFSM \<Rightarrow> 'k \<Rightarrow> (peerFSM \<times> 'k) \<times> effect list" where
  "onDiscoSignal nl fe body p k = onDiscoUDP nl fe addrport_zero body p k"

fun handle ::
  "'k Netlinker \<Rightarrow> fsm_env \<Rightarrow> fsmEvent \<Rightarrow> peerFSM \<Rightarrow> 'k \<Rightarrow> (peerFSM \<times> 'k) \<times> effect list" where
  "handle nl fe evUpdate p k = ((onPeerUpdate fe p, k), [])"
| "handle nl fe (evUDP from body) p k = onDiscoUDP nl fe from body p k"
| "handle nl fe (evSignal body) p k = onDiscoSignal nl fe body p k"

text \<open>\<open>handle\<close> up to the first of the two writes, where another goroutine may see the machine.\<close>

fun handle_begin ::
  "'k Netlinker \<Rightarrow> fsm_env \<Rightarrow> fsmEvent \<Rightarrow> peerFSM \<Rightarrow> 'k \<Rightarrow> (peerFSM \<times> 'k) \<times> effect list" where
  "handle_begin nl fe evUpdate p k = ((noticeEndpoints p, k), [])"
| "handle_begin nl fe (evUDP from body) p k =
     (if b_Type body = MsgCallMeMaybe then ((noticeEndpoints (absorbEndpoints (b_Endpoints body) p), k), [])
      else onDiscoUDP nl fe from body p k)"
| "handle_begin nl fe (evSignal body) p k =
     (if b_Type body = MsgCallMeMaybe then ((noticeEndpoints (absorbEndpoints (b_Endpoints body) p), k), [])
      else onDiscoSignal nl fe body p k)"

definition tickPunch :: "fsm_env \<Rightarrow> peerFSM \<Rightarrow> peerFSM \<times> effect list" where
  "tickPunch fe p =
     (if state p \<noteq> statePunching then (p, [])
      else if fe_now fe > punchDeadline p then (setState stateRelay p, [])
      else (p, concat (map (\<lambda>(i, e). sendPing fe (fe_tx fe i) (re_Addr e) p)
                 (enumerate 0 (rp_Endpoints (fsm_peer p))))))"

definition keepalive :: "fsm_env \<Rightarrow> peerFSM \<Rightarrow> peerFSM \<times> effect list" where
  "keepalive fe p =
     (if state p \<noteq> stateDirect then (p, [])
      else if time_sub (fe_now fe) (lastPong p) > pongMissDeadline then (setState statePunching p, [])
      else (p, sendPing fe (fe_tx fe 0) (winning p) p))"

section \<open>Interleaving\<close>

text \<open>The machine with its kernel, the clock, the snapshot an \<open>update\<close> call has announced but
  not yet written, and whether the driver has returned.\<close>

record 'k psys =
  ps_fsm :: peerFSM
  ps_kernel :: 'k
  ps_clock :: gotime
  ps_pending :: "RemotePeer option"
  ps_exited :: bool

definition timed :: "fsm_env \<Rightarrow> 'k psys \<Rightarrow> bool" where
  "timed fe s = (ps_clock s \<le> fe_now fe \<and> fe_now fe \<le> fe_now2 fe)"

text \<open>Only the driver writes the state, so it is between the two writes of \<open>onPeerUpdate\<close> exactly
  when the state is \<open>have_endpoints\<close>; there it takes no event and no tick. The calls of other
  goroutines happen at any time. The check of \<open>onPeerUpdate\<close> and its first write are one
  step.\<close>

definition driver_free :: "'k psys \<Rightarrow> bool" where
  "driver_free s \<longleftrightarrow> \<not> ps_exited s \<and> state (ps_fsm s) \<noteq> stateHaveEndpoints"

inductive fsm_step :: "'k Netlinker \<Rightarrow> 'k psys \<Rightarrow> 'k psys \<Rightarrow> bool" for nl where
  update_send: "ps_pending s = None \<Longrightarrow> try_send evUpdate (ps_fsm s) = Some p \<Longrightarrow>
    fsm_step nl s (s\<lparr>ps_fsm := p, ps_pending := Some peer\<rparr>)"
| update_write: "ps_pending s = Some peer \<Longrightarrow>
    fsm_step nl s (s\<lparr>ps_fsm := set_peer peer (ps_fsm s), ps_pending := None\<rparr>)"
| udp: "fsm_step nl s (s\<lparr>ps_fsm := onUDP src body (ps_fsm s)\<rparr>)"
| signal: "fsm_step nl s (s\<lparr>ps_fsm := onSignal body (ps_fsm s)\<rparr>)"
| receive: "driver_free s \<Longrightarrow> timed fe s \<Longrightarrow> incoming (ps_fsm s) = ev # evs \<Longrightarrow>
    handle_begin nl fe ev ((ps_fsm s)\<lparr>incoming := evs\<rparr>) (ps_kernel s) = ((p, k), effs) \<Longrightarrow>
    fsm_step nl s (s\<lparr>ps_fsm := p, ps_kernel := k, ps_clock := fe_now2 fe\<rparr>)"
| advance: "\<not> ps_exited s \<Longrightarrow> timed fe s \<Longrightarrow> state (ps_fsm s) = stateHaveEndpoints \<Longrightarrow>
    fsm_step nl s (s\<lparr>ps_fsm := startPunching fe (ps_fsm s), ps_clock := fe_now2 fe\<rparr>)"
| tick: "driver_free s \<Longrightarrow> timed fe s \<Longrightarrow> tickPunch fe (ps_fsm s) = (p, effs) \<Longrightarrow>
    fsm_step nl s (s\<lparr>ps_fsm := p, ps_clock := fe_now fe\<rparr>)"
| keep: "driver_free s \<Longrightarrow> timed fe s \<Longrightarrow> keepalive fe (ps_fsm s) = (p, effs) \<Longrightarrow>
    fsm_step nl s (s\<lparr>ps_fsm := p, ps_clock := fe_now fe\<rparr>)"
| stopping: "fsm_step nl s (s\<lparr>ps_fsm := stop (ps_fsm s)\<rparr>)"
| exit: "driver_free s \<Longrightarrow>
    fsm_step nl s (s\<lparr>ps_kernel := teardown nl (ps_fsm s) (ps_kernel s), ps_exited := True\<rparr>)"

definition fsm_start :: "peerDeps \<Rightarrow> RemotePeer \<Rightarrow> 'k \<Rightarrow> gotime \<Rightarrow> 'k psys" where
  "fsm_start d peer k t =
     \<lparr>ps_fsm = fst (run_start (newPeerFSM d peer)), ps_kernel = k, ps_clock = t, ps_pending = None,
      ps_exited = False\<rparr>"

inductive fsm_reachable :: "'k Netlinker \<Rightarrow> 'k psys \<Rightarrow> bool" for nl where
  start: "zero_time \<le> t \<Longrightarrow> fsm_reachable nl (fsm_start d peer k t)"
| step: "fsm_reachable nl s \<Longrightarrow> fsm_step nl s s' \<Longrightarrow> fsm_reachable nl s'"

section \<open>The invariant\<close>

text \<open>The inbox is bounded, and the punching
  deadline is at most five seconds ahead of the clock and, on a direct path, of the last
  pong.\<close>

definition fsm_ok :: "gotime \<Rightarrow> peerFSM \<Rightarrow> bool" where
  "fsm_ok t p \<longleftrightarrow>
     length (incoming p) \<le> incomingCap \<and>
     zero_time \<le> t \<and> punchDeadline p \<le> t + punchAttemptDur \<and>
     (state p = stateDirect \<longrightarrow> lastPong p \<le> t \<and> punchDeadline p \<le> lastPong p + punchAttemptDur)"

lemma bringUpTunnel_frame:
  assumes "bringUpTunnel nl fe to p k = (p', k')"
  shows "state p' = state p" "winning p' = winning p" "lastPong p' = lastPong p"
    "incoming p' = incoming p" "punchDeadline p' = punchDeadline p" "punchStart p' = punchStart p"
    "fsm_peer p' = fsm_peer p" "deps p' = deps p" "stopped p' = stopped p"
  using assms by (auto simp: bringUpTunnel_def Let_def split: if_splits prod.splits option.splits)

lemma try_send_ok: "fsm_ok t p \<Longrightarrow> try_send ev p = Some p' \<Longrightarrow> fsm_ok t p'"
  by (auto simp: try_send_def fsm_ok_def split: if_splits)

lemma noticeEndpoints_ok: "fsm_ok t p \<Longrightarrow> fsm_ok t (noticeEndpoints p)"
  by (simp add: fsm_ok_def noticeEndpoints_def setState_def)

lemma startPunching_ok:
  "fsm_ok t p \<Longrightarrow> t \<le> fe_now fe \<Longrightarrow> fe_now fe \<le> fe_now2 fe \<Longrightarrow> fsm_ok (fe_now2 fe) (startPunching fe p)"
  by (auto simp: fsm_ok_def startPunching_def setState_def)

lemma absorbEndpoints_ok: "fsm_ok t p \<Longrightarrow> fsm_ok t (absorbEndpoints addrs p)"
  by (simp add: fsm_ok_def absorbEndpoints_def)

lemma fsm_ok_later: "fsm_ok t p \<Longrightarrow> t \<le> t' \<Longrightarrow> fsm_ok t' p"
  by (auto simp: fsm_ok_def)

lemma onPong_ok:
  assumes "fsm_ok t p" and "t \<le> fe_now fe" and "fe_now fe \<le> fe_now2 fe"
    and "onPong nl fe from p k = ((p', k'), effs)"
  shows "fsm_ok (fe_now2 fe) p'"
proof (cases "state p = stateDirect")
  case True
  with assms show ?thesis by (auto simp: onPong_def fsm_ok_def Let_def)
next
  case False
  let ?p1 = "setState stateDirect (p\<lparr>winning := from, lastPong := fe_now fe\<rparr>)"
  from assms(4) False have "bringUpTunnel nl fe from ?p1 k = (p', k')" by (simp add: onPong_def Let_def)
  from bringUpTunnel_frame [OF this] assms(1-3) show ?thesis by (simp add: fsm_ok_def setState_def)
qed

lemma handle_begin_ok:
  assumes "fsm_ok t p" and "t \<le> fe_now fe" and "fe_now fe \<le> fe_now2 fe"
    and "handle_begin nl fe ev p k = ((p', k'), effs)"
  shows "fsm_ok (fe_now2 fe) p'"
proof -
  have later: "fsm_ok (fe_now2 fe) p" "fsm_ok (fe_now2 fe) (noticeEndpoints (absorbEndpoints addrs p))"
    "fsm_ok (fe_now2 fe) (noticeEndpoints p)" for addrs
    using fsm_ok_later [OF assms(1)] assms(2,3) absorbEndpoints_ok noticeEndpoints_ok by auto
  show ?thesis
    using assms(4) later onPong_ok [OF assms(1-3), of nl _ k p' k' effs]
    by (cases ev) (auto simp: onDiscoUDP_def onDiscoSignal_def split: if_splits)
qed

lemma fsm_step_ok:
  assumes "fsm_step nl s s'" and "fsm_ok (ps_clock s) (ps_fsm s)"
  shows "fsm_ok (ps_clock s') (ps_fsm s')"
  using assms
proof cases
  case (receive fe ev evs p k effs)
  have "fsm_ok (ps_clock s) ((ps_fsm s)\<lparr>incoming := evs\<rparr>)"
    using assms(2) receive(4) by (simp add: fsm_ok_def)
  from handle_begin_ok [OF this _ _ receive(5)] receive(1,3) show ?thesis by (simp add: timed_def)
next
  case (advance fe)
  with assms(2) show ?thesis by (auto simp: timed_def intro: startPunching_ok)
next
  case (update_send p peer)
  with assms(2) show ?thesis by (auto intro: try_send_ok)
next
  case (udp src body)
  with assms(2) show ?thesis by (auto simp: onUDP_def intro: try_send_ok split: option.split)
next
  case (signal body)
  with assms(2) show ?thesis by (auto simp: onSignal_def intro: try_send_ok split: option.split)
qed (use assms(2) in \<open>auto simp: fsm_ok_def set_peer_def stop_def tickPunch_def keepalive_def setState_def
        timed_def split: if_splits\<close>)

lemma fsm_reachable_ok: "fsm_reachable nl s \<Longrightarrow> fsm_ok (ps_clock s) (ps_fsm s)"
proof (induction rule: fsm_reachable.induct)
  case (start t d peer k)
  then show ?case
    by (simp add: fsm_start_def run_start_def newPeerFSM_def setState_def fsm_ok_def punchAttemptDur_def
        time_defs)
qed (rule fsm_step_ok)

section \<open>Properties\<close>

subsection \<open>Transitions\<close>

definition is_pong :: "fsmEvent \<Rightarrow> bool" where
  "is_pong ev = (case ev of evUpdate \<Rightarrow> False | evUDP a body \<Rightarrow> b_Type body = MsgPong
     | evSignal body \<Rightarrow> b_Type body = MsgPong)"

lemma onPong_state:
  assumes "onPong nl fe src p k = ((p', k'), effs)"
  shows "state p' = stateDirect"
  using assms by (auto simp: onPong_def Let_def setState_def dest: bringUpTunnel_frame(1) split: if_splits)

lemma absorbEndpoints_state [simp]: "state (absorbEndpoints addrs p) = state p"
  by (simp add: absorbEndpoints_def)

lemma noticeEndpoints_state:
  "state (noticeEndpoints p) = state p \<or> state p = stateUnknown \<and> state (noticeEndpoints p) = stateHaveEndpoints"
  by (simp add: noticeEndpoints_def setState_def)

lemma handle_begin_state:
  assumes "handle_begin nl fe ev p k = ((p', k'), effs)"
  shows "state p' = state p \<or> state p = stateUnknown \<and> state p' = stateHaveEndpoints \<or>
    state p' = stateDirect \<and> is_pong ev"
  using assms onPong_state [of nl fe _ p k p' k' effs] noticeEndpoints_state [of p]
    noticeEndpoints_state [of "absorbEndpoints _ p"]
  by (cases ev) (auto simp: is_pong_def onDiscoUDP_def onDiscoSignal_def split: if_splits)

text \<open>The two parts make up \<open>handle\<close>.\<close>

lemma handle_two_steps:
  assumes "state p \<noteq> stateHaveEndpoints" and "handle_begin nl fe ev p k = ((p1, k1), effs)"
  shows "handle nl fe ev p k = ((if state p1 = stateHaveEndpoints then startPunching fe p1 else p1, k1), effs)"
proof -
  have upd: "onPeerUpdate fe q = (if state (noticeEndpoints q) = stateHaveEndpoints then startPunching fe (noticeEndpoints q)
      else noticeEndpoints q)" if "state q \<noteq> stateHaveEndpoints" for q
    using that by (simp add: onPeerUpdate_def noticeEndpoints_def setState_def)
  have pong: "state p1 = stateDirect" if "onPong nl fe a p k = ((p1, k1), effs)" for a
    using onPong_state [OF that] .
  show ?thesis
    using assms upd [of p] upd [of "absorbEndpoints _ p"] pong
    by (cases ev) (auto simp: onDiscoUDP_def onDiscoSignal_def msg_defs split: if_splits)
qed

text \<open>C9: The state of a peer moves only along these edges: from unknown to have_endpoints and from
  there to punching, from punching to relay, from direct back to punching, and from unknown,
  punching or relay to direct. The last happens only when the event at the head of the inbox
  is a pong. In particular a peer in relay stays there until a pong arrives, no timer leaves
  that state, and nothing but punching follows have_endpoints, which other goroutines may
  see.\<close>

theorem fsm_transitions:
  assumes "fsm_step nl s s'" and "state (ps_fsm s') \<noteq> state (ps_fsm s)"
  shows "(state (ps_fsm s), state (ps_fsm s')) \<in>
      {(stateUnknown, stateHaveEndpoints), (stateHaveEndpoints, statePunching),
       (statePunching, stateRelay), (stateDirect, statePunching)} \<or>
    state (ps_fsm s) \<in> {stateUnknown, statePunching, stateRelay} \<and> state (ps_fsm s') = stateDirect \<and>
      (\<exists>ev evs. incoming (ps_fsm s) = ev # evs \<and> is_pong ev)"
  using assms(1)
proof cases
  case (receive fe ev evs p k effs)
  with handle_begin_state [OF receive(5)] assms(2) show ?thesis
    by (cases "state (ps_fsm s)") (auto simp: driver_free_def)
qed (use assms(2) in \<open>auto simp: try_send_def set_peer_def onUDP_def onSignal_def tickPunch_def
        keepalive_def setState_def startPunching_def stop_def split: if_splits option.splits\<close>)

text \<open>C37: A lost direct path is not punched again. When the keepalive finds that the last pong is
  more than 75 seconds old it puts the peer back into punching, but the deadline of the first
  punching attempt still stands, so the next tick moves the peer to relay without having sent
  a single ping.\<close>

theorem lost_path_goes_to_relay:
  assumes "fsm_reachable nl s" and "state (ps_fsm s) = stateDirect"
    and "time_sub (fe_now fe) (lastPong (ps_fsm s)) > 75 * second"
    and "fe_now fe \<le> fe_now fe'"
  shows "\<exists>p. keepalive fe (ps_fsm s) = (p, []) \<and> state p = statePunching \<and>
    tickPunch fe' p = (p\<lparr>state := stateRelay\<rparr>, [])"
proof -
  have "punchDeadline (ps_fsm s) \<le> lastPong (ps_fsm s) + punchAttemptDur"
    using fsm_reachable_ok [OF assms(1)] assms(2) by (simp add: fsm_ok_def)
  moreover have "fe_now fe - lastPong (ps_fsm s) > 75 * second"
    using assms(3) by (auto simp: time_defs split: if_splits)
  ultimately have "fe_now fe' > punchDeadline (ps_fsm s)"
    using assms(4) by (simp add: punchAttemptDur_def time_defs)
  with assms(2,3) show ?thesis
    by (simp add: keepalive_def tickPunch_def setState_def pongMissDeadline_def)
qed

subsection \<open>Candidate endpoints\<close>

lemma absorb_loop_addrs:
  "set seen = re_Addr ` set eps \<Longrightarrow>
   re_Addr ` set (absorb_loop addrs seen eps) = re_Addr ` set eps \<union> set (List.map_filter parse_addrport addrs)"
  by (induction addrs seen eps rule: absorb_loop.induct)
    (auto simp: map_filter_simps split: option.split)

lemma absorb_loop_prefix: "\<exists>new. absorb_loop addrs seen eps = eps @ new"
  by (induction addrs seen eps rule: absorb_loop.induct) (auto split: option.split)

lemma absorb_loop_distinct:
  "set seen = re_Addr ` set eps \<Longrightarrow> distinct (map re_Addr eps) \<Longrightarrow>
   distinct (map re_Addr (absorb_loop addrs seen eps))"
  by (induction addrs seen eps rule: absorb_loop.induct) (auto split: option.split)

lemma absorb_loop_seen: "set (List.map_filter parse_addrport addrs) \<subseteq> set seen \<Longrightarrow> absorb_loop addrs seen eps = eps"
  by (induction addrs seen eps rule: absorb_loop.induct)
    (auto simp: map_filter_simps split: option.splits)

text \<open>Absorbing the endpoints of a call-me-maybe message keeps the known candidates in place
  and in order, adds exactly the addresses of the message that parse, never twice, and
  absorbing the same message again changes nothing.\<close>

theorem absorb_endpoints_merge:
  assumes "distinct (map re_Addr (rp_Endpoints (fsm_peer p)))"
  shows "\<exists>new. rp_Endpoints (fsm_peer (absorbEndpoints addrs p)) = rp_Endpoints (fsm_peer p) @ new \<and>
    distinct (map re_Addr (rp_Endpoints (fsm_peer p) @ new)) \<and>
    re_Addr ` set (rp_Endpoints (fsm_peer p) @ new) =
      re_Addr ` set (rp_Endpoints (fsm_peer p)) \<union> set (List.map_filter parse_addrport addrs) \<and>
    absorbEndpoints addrs (absorbEndpoints addrs p) = absorbEndpoints addrs p"
proof -
  let ?eps = "rp_Endpoints (fsm_peer p)"
  let ?all = "absorb_loop addrs (map re_Addr ?eps) ?eps"
  obtain new where new: "?all = ?eps @ new" using absorb_loop_prefix by blast
  have addrs: "re_Addr ` set ?all = re_Addr ` set ?eps \<union> set (List.map_filter parse_addrport addrs)"
    by (rule absorb_loop_addrs) simp
  have "absorb_loop addrs (map re_Addr ?all) ?all = ?all"
    using addrs by (intro absorb_loop_seen) auto
  then have "absorbEndpoints addrs (absorbEndpoints addrs p) = absorbEndpoints addrs p"
    by (simp add: absorbEndpoints_def)
  moreover have "distinct (map re_Addr ?all)" using assms by (intro absorb_loop_distinct) auto
  ultimately show ?thesis using new addrs by (auto simp: absorbEndpoints_def)
qed

subsection \<open>Concrete peers for the witnesses\<close>

definition demo_deps :: peerDeps where
  "demo_deps = \<lparr>pd_self = demo_key 1, pd_selfNode = \<lparr>nk_Priv = [], nk_Pub = []\<rparr>, pd_ifaceName = ''gt0'',
     pd_fouPort = 7777, pd_selfTunnel = Addr4 0x64400003, pd_aggressive = False, pd_metrics = True\<rparr>"

definition demo_remote :: RemotePeer where
  "demo_remote = \<lparr>rp_NodeKey = [], rp_DiscoKey = dk_Pub (demo_key 2), rp_Name = ''b'',
     rp_TunnelIP = Addr4 0x64400002,
     rp_Endpoints = [\<lparr>re_Addr = (Addr4 0xC0000201, 4000), re_Source = ''stun''\<rparr>], rp_UpdatedAt = 0\<rparr>"

definition demo_fe :: "gotime \<Rightarrow> fsm_env" where
  "demo_fe t = \<lparr>fe_now = t, fe_now2 = t,
     fe_ifaddrs = Inr [IfOther, IfNet \<lparr>net_IP = [127, 0, 0, 1], net_Mask = [255, 0, 0, 0]\<rparr>,
       IfNet \<lparr>net_IP = [10, 0, 0, 1], net_Mask = [255, 0, 0, 0]\<rparr>],
     fe_port = 4000, fe_tx = (\<lambda>i. ''00''), fe_build = (\<lambda>k r b. Inr [1])\<rparr>"

lemma demo_fe_times: "fe_now (demo_fe t) = t" "fe_now2 (demo_fe t) = t"
  by (simp_all add: demo_fe_def)

definition demo_pong :: Body where
  "demo_pong = empty_body\<lparr>b_Type := MsgPong, b_Tx := ''00''\<rparr>"

definition demo_from :: addrport where
  "demo_from = (Addr4 0xC0000201, 4000)"

text \<open>A peer that has received a pong at second 10.\<close>

definition demo_inbox :: "mocknl psys" where
  "demo_inbox = (let s = fsm_start demo_deps demo_remote newMockNetlinker zero_time in
     s\<lparr>ps_fsm := onUDP demo_from demo_pong (ps_fsm s)\<rparr>)"

definition demo_direct :: "mocknl psys" where
  "demo_direct = (let r = handle (demo_nl no_errs) (demo_fe (10 * second)) (evUDP demo_from demo_pong)
       ((ps_fsm demo_inbox)\<lparr>incoming := []\<rparr>) newMockNetlinker in
     demo_inbox\<lparr>ps_fsm := fst (fst r), ps_kernel := snd (fst r), ps_clock := 10 * second\<rparr>)"

lemma demo_inbox_fields:
  "incoming (ps_fsm demo_inbox) = [evUDP demo_from demo_pong]" "ps_kernel demo_inbox = newMockNetlinker"
  "ps_clock demo_inbox = zero_time" "\<not> ps_exited demo_inbox" "state (ps_fsm demo_inbox) = stateUnknown"
  by (simp_all add: demo_inbox_def Let_def fsm_start_def run_start_def newPeerFSM_def setState_def onUDP_def
      try_send_def incomingCap_def)

lemma demo_inbox_free: "driver_free demo_inbox"
  using demo_inbox_fields(4,5) by (simp add: driver_free_def)

lemma demo_inbox_reachable: "fsm_reachable (demo_nl no_errs) demo_inbox"
  unfolding demo_inbox_def Let_def
  by (rule fsm_reachable.step [OF fsm_reachable.start fsm_step.udp]) simp

lemma demo_direct_step: "fsm_step (demo_nl no_errs) demo_inbox demo_direct"
proof -
  have same: "handle_begin nl fe (evUDP demo_from demo_pong) q k = handle nl fe (evUDP demo_from demo_pong) q k"
    for nl :: "mocknl Netlinker" and fe q k
    by (simp add: demo_pong_def msg_defs)
  obtain p k effs where r: "handle (demo_nl no_errs) (demo_fe (10 * second)) (evUDP demo_from demo_pong)
       ((ps_fsm demo_inbox)\<lparr>incoming := []\<rparr>) newMockNetlinker = ((p, k), effs)"
    by (metis prod.collapse)
  have "demo_direct = demo_inbox\<lparr>ps_fsm := p, ps_kernel := k, ps_clock := fe_now2 (demo_fe (10 * second))\<rparr>"
    by (simp add: demo_direct_def r Let_def demo_fe_times del: handle.simps)
  moreover have t: "timed (demo_fe (10 * second)) demo_inbox"
    by (simp add: timed_def demo_fe_def demo_inbox_fields time_defs)
  ultimately show ?thesis
    using fsm_step.receive [OF demo_inbox_free t demo_inbox_fields(1), unfolded demo_inbox_fields(2) same, OF r]
    by (simp only:)
qed

lemma demo_direct_reachable: "fsm_reachable (demo_nl no_errs) demo_direct"
  by (rule fsm_reachable.step [OF demo_inbox_reachable demo_direct_step])

lemma demo_direct_state:
  "state (ps_fsm demo_direct) = stateDirect" "lastPong (ps_fsm demo_direct) = 10 * second"
  "tunnelUp (ps_fsm demo_direct)"
  by code_simp+

theorem fsm_transitions_witness:
  "state (ps_fsm demo_direct) \<noteq> state (ps_fsm demo_inbox) \<and>
   (\<exists>ev evs. incoming (ps_fsm demo_inbox) = ev # evs \<and> is_pong ev)"
proof -
  have "state (ps_fsm demo_direct) \<noteq> state (ps_fsm demo_inbox)"
    by (simp add: demo_direct_state demo_inbox_fields)
  with fsm_transitions [OF demo_direct_step] show ?thesis
    by (simp add: demo_direct_state demo_inbox_fields)
qed

theorem lost_path_goes_to_relay_witness:
  "\<exists>p. keepalive (demo_fe (100 * second)) (ps_fsm demo_direct) = (p, []) \<and>
     state (fst (tickPunch (demo_fe (101 * second)) p)) = stateRelay"
proof -
  have "time_sub (fe_now (demo_fe (100 * second))) (lastPong (ps_fsm demo_direct)) > 75 * second"
    by (simp add: demo_direct_state demo_fe_def time_defs)
  from lost_path_goes_to_relay [OF demo_direct_reachable demo_direct_state(1) this,
      of "demo_fe (101 * second)"]
  show ?thesis by (auto simp: demo_fe_def time_defs)
qed

theorem absorb_endpoints_merge_witness:
  "\<exists>new. rp_Endpoints (fsm_peer (absorbEndpoints [''192.0.2.1:4000'', ''nonsense'', ''192.0.2.9:1''] (ps_fsm demo_inbox))) =
     rp_Endpoints (fsm_peer (ps_fsm demo_inbox)) @ new"
proof -
  have "distinct (map re_Addr (rp_Endpoints (fsm_peer (ps_fsm demo_inbox))))" by code_simp
  from absorb_endpoints_merge [OF this] show ?thesis by blast
qed

subsection \<open>Paths and tunnels\<close>

lemma Create_invalid: "ValidateConfig cfg \<noteq> None \<Longrightarrow> snd (Create ctx nl cfg k) = k \<and> fst (Create ctx nl cfg k) \<noteq> None"
  by (auto simp: Create_def split: option.split)

lemma tunnel_cfg_zero_invalid: "ValidateConfig (tunnel_cfg local addrport_zero p) \<noteq> None"
proof -
  have "ValidateIP (cfg_RemoteIP (tunnel_cfg local addrport_zero p)) ''remote IP'' \<noteq> None"
    by (simp add: tunnel_cfg_def addrport_zero_def ValidateIP_def)
  then show ?thesis by (simp add: ValidateConfig_def)
qed

lemma bringUpTunnel_zero: "bringUpTunnel nl fe addrport_zero p k = (p, k)"
  using Create_invalid [OF tunnel_cfg_zero_invalid [of "firstGlobalV4 fe" p], of background nl k]
  by (auto simp: bringUpTunnel_def Let_def split: prod.split option.split)

text \<open>A pong that arrives through the relay makes the peer direct without a path: the state
  becomes direct with the invalid zero address as the winning one, the kernel is not touched
  and no tunnel comes up.\<close>

theorem relayed_pong_without_path:
  assumes "b_Type body = MsgPong" and "state p \<noteq> stateDirect"
    and "onDiscoSignal nl fe body p k = ((p', k'), effs)"
  shows "state p' = stateDirect \<and> \<not> addr_IsValid (fst (winning p')) \<and> k' = k \<and> tunnelUp p' = tunnelUp p"
proof -
  have "\<not> addr_IsValid (fst addrport_zero)" by (simp add: addrport_zero_def)
  with assms show ?thesis
    by (auto simp: onDiscoSignal_def onDiscoUDP_def onPong_def Let_def bringUpTunnel_zero setState_def msg_defs)
qed

theorem relayed_pong_without_path_witness:
  "state (fst (fst (onDiscoSignal (demo_nl no_errs) (demo_fe 0) demo_pong (ps_fsm demo_inbox) newMockNetlinker))) =
     stateDirect \<and>
   \<not> tunnelUp (fst (fst (onDiscoSignal (demo_nl no_errs) (demo_fe 0) demo_pong (ps_fsm demo_inbox) newMockNetlinker)))"
proof -
  obtain p k effs where r: "onDiscoSignal (demo_nl no_errs) (demo_fe 0) demo_pong (ps_fsm demo_inbox)
      newMockNetlinker = ((p, k), effs)"
    by (metis prod.collapse)
  have "b_Type demo_pong = MsgPong" "\<not> tunnelUp (ps_fsm demo_inbox)" by code_simp+
  with relayed_pong_without_path [OF _ _ r] show ?thesis by (simp add: r demo_inbox_fields)
qed

text \<open>When a peer becomes direct again over another address while its tunnel is up, only the
  winning address changes: the kernel keeps the tunnel to the old address.\<close>

theorem new_path_keeps_old_tunnel:
  assumes "tunnelUp p" and "state p \<noteq> stateDirect" and "onPong nl fe src p k = ((p', k'), effs)"
  shows "state p' = stateDirect \<and> winning p' = src \<and> k' = k \<and> tunnelUp p'"
  using assms by (auto simp: onPong_def Let_def bringUpTunnel_def setState_def)

theorem new_path_keeps_old_tunnel_witness:
  "winning (fst (fst (onPong (demo_nl no_errs) (demo_fe 0) (Addr4 9, 9)
     (setState stateRelay (ps_fsm demo_direct)) (ps_kernel demo_direct)))) = (Addr4 9, 9)"
proof -
  obtain p k effs where r: "onPong (demo_nl no_errs) (demo_fe 0) (Addr4 9, 9)
      (setState stateRelay (ps_fsm demo_direct)) (ps_kernel demo_direct) = ((p, k), effs)"
    by (metis prod.collapse)
  have "tunnelUp (setState stateRelay (ps_fsm demo_direct))"
    "state (setState stateRelay (ps_fsm demo_direct)) \<noteq> stateDirect"
    by (simp_all add: setState_def demo_direct_state)
  from new_path_keeps_old_tunnel [OF this r] show ?thesis by (simp only: r fst_conv)
qed

lemma bringUpTunnel_created:
  assumes "\<not> tunnelUp p" and "bringUpTunnel nl fe to p k = (p', k')" and "tunnelUp p'"
  obtains k1 where "Create background nl (tunnel_cfg (firstGlobalV4 fe) to p) k = (None, k1)"
    "k' = (if addr_IsValid (pd_selfTunnel (deps p)) \<and> addr_IsValid (rp_TunnelIP (fsm_peer p))
       then snd (AssignIP background nl (pd_ifaceName (deps p))
              (addr_String (pd_selfTunnel (deps p)) @ ''/30'') k1) else k1)"
  using assms by (auto simp: bringUpTunnel_def Let_def split: if_splits prod.splits option.splits)

lemma AssignIP_refused: "ValidateCIDR cidr \<noteq> None \<Longrightarrow> snd (AssignIP ctx nl name cidr k) = k"
  by (auto simp: AssignIP_def split: option.split)

lemma slash30: "''/30'' = CHR ''/'' # fmt_nat 30"
  by code_simp

text \<open>Half of the tunnel addresses never reach their interface: the daemon assigns its own
  address with prefix length 30, so when the address is the first or the last of its block of
  four the assignment is refused and ignored; the kernel state is what the creation of the
  tunnel left, and the tunnel counts as up.\<close>

theorem tunnel_address_refused:
  assumes "pd_selfTunnel (deps p) = Addr4 w" and "unat w mod 4 = 0 \<or> unat w mod 4 = 3"
    and "\<not> tunnelUp p" and "bringUpTunnel nl fe to p k = (p', k')" and "tunnelUp p'"
  shows "Create background nl (tunnel_cfg (firstGlobalV4 fe) to p) k = (None, k')"
proof -
  have "ValidateCIDR (addr_String (pd_selfTunnel (deps p)) @ ''/30'') \<noteq> None"
    unfolding assms(1) slash30 using ValidateCIDR_String4 [of 30 w] assms(2) by auto
  with bringUpTunnel_created [OF assms(3-5)] show ?thesis
    by (metis AssignIP_refused)
qed

definition demo_punched :: peerFSM where
  "demo_punched = setState stateDirect ((ps_fsm demo_inbox)\<lparr>winning := demo_from, lastPong := 0\<rparr>)"

theorem tunnel_address_refused_witness:
  "\<exists>k'. Create background (demo_nl no_errs) (tunnel_cfg (firstGlobalV4 (demo_fe 0)) demo_from demo_punched)
     newMockNetlinker = (None, k')"
proof -
  obtain p k where r: "bringUpTunnel (demo_nl no_errs) (demo_fe 0) demo_from demo_punched newMockNetlinker = (p, k)"
    by fastforce
  have "tunnelUp (fst (bringUpTunnel (demo_nl no_errs) (demo_fe 0) demo_from demo_punched newMockNetlinker))"
    by code_simp
  then have up: "tunnelUp p" by (simp add: r)
  have "pd_selfTunnel (deps demo_punched) = Addr4 0x64400003" "\<not> tunnelUp demo_punched"
    "unat (0x64400003 :: 32 word) mod 4 = 3"
    by (simp_all add: demo_punched_def demo_inbox_def Let_def fsm_start_def run_start_def newPeerFSM_def
        setState_def onUDP_def try_send_def incomingCap_def demo_deps_def)
  with tunnel_address_refused [OF _ _ _ r up] show ?thesis by blast
qed

text \<open>C19: A first pong builds the tunnel to the address it came from: when it brings the tunnel up,
  the kernel has a GRE link with the peer's interface name, the remote address and the FOU
  destination port of the pong, this daemon's FOU port as source port and the flag up; the
  name was free before, no other link changes, and the receive port opened for it is the
  pong's source port.\<close>

theorem pong_builds_tunnel:
  assumes "netlink_fou_laws nl links_of addrs_of fous_of"
    and "\<not> tunnelUp p" and "state p \<noteq> stateDirect"
    and "onPong nl fe (Addr4 r, port) p k = ((p', k'), effs)" and "tunnelUp p'"
  shows "\<exists>g. links_of k' = (links_of k)(pd_ifaceName (deps p) \<mapsto> GreLink g) \<and>
    links_of k (pd_ifaceName (deps p)) = None \<and>
    ip_To4 (gre_Remote g) = Some (be_bytes 4 r) \<and> gre_EncapDport g = port \<and>
    gre_EncapSport g = pd_fouPort (deps p) \<and> la_Flags (gre_Attrs g) AND FlagUp \<noteq> 0 \<and>
    fous_of k' (uint port) \<noteq> None"
proof -
  have laws: "netlink_laws nl links_of addrs_of fous_of" using assms(1) by (simp add: netlink_fou_laws_def)
  let ?p1 = "setState stateDirect (p\<lparr>winning := (Addr4 r, port), lastPong := fe_now fe\<rparr>)"
  let ?cfg = "tunnel_cfg (firstGlobalV4 fe) (Addr4 r, port) ?p1"
  have b: "bringUpTunnel nl fe (Addr4 r, port) ?p1 k = (p', k')" and up1: "\<not> tunnelUp ?p1"
    using assms(2-4) by (simp_all add: onPong_def Let_def setState_def)
  obtain k1 where k1: "Create background nl ?cfg k = (None, k1)"
    "k' = k1 \<or> (\<exists>cidr. k' = snd (AssignIP background nl (pd_ifaceName (deps p)) cidr k1))"
    by (rule bringUpTunnel_created [OF up1 b assms(5)]) (auto simp: setState_def split: if_splits)
  have same: "links_of k' = links_of k1" "fous_of k' = fous_of k1"
    using k1(2) netlink_laws.AssignIP_tables [OF laws] by auto
  have enc: "cfg_Encap ?cfg \<noteq> EncapNone" by (simp add: tunnel_cfg_def encap_defs)
  obtain l where l:
    "links_of k (cfg_Name ?cfg) = None" "links_of k1 = (links_of k)(cfg_Name ?cfg \<mapsto> l)"
    "same_conf (GreLink (new_gre nl ?cfg)) l" "link_Flags l AND FlagUp \<noteq> 0"
    "fous_of k1 (uint (cfg_EncapDport ?cfg)) \<noteq> None"
    by (rule netlink_fou_laws.Create_FOU [OF assms(1) k1(1) enc])
  from l(3) obtain g where g: "l = GreLink g" "same_conf (GreLink (new_gre nl ?cfg)) (GreLink g)"
    by (rule same_conf_GreLink)
  have cfg: "cfg_Name ?cfg = pd_ifaceName (deps p)" "cfg_EncapDport ?cfg = port"
    by (simp_all add: tunnel_cfg_def setState_def)
  have fields: "ip_To4 (gre_Remote g) = Some (be_bytes 4 r)" "gre_EncapDport g = port"
    "gre_EncapSport g = pd_fouPort (deps p)"
    using g(2) by (auto simp: new_gre_def applyEncap_def Let_def tunnel_cfg_def setState_def encap_defs
        ip_To4_def ip_bytes_def)
  with l g(1) same cfg show ?thesis by (intro exI [of _ g]) (simp add: link_Flags_def)
qed

lemma demo_pong_up:
  "tunnelUp (fst (fst (onPong (demo_nl no_errs) (demo_fe 0) (Addr4 0xC0000201, 4000) (ps_fsm demo_inbox) newMockNetlinker)))"
  by code_simp

theorem pong_builds_tunnel_witness:
  "\<exists>g. mock_links (snd (fst (onPong (demo_nl no_errs) (demo_fe 0) (Addr4 0xC0000201, 4000) (ps_fsm demo_inbox)
       newMockNetlinker))) ''gt0'' = Some (GreLink g) \<and> ip_To4 (gre_Remote g) = Some [192, 0, 2, 1]"
proof -
  obtain p k effs where r: "onPong (demo_nl no_errs) (demo_fe 0) (Addr4 0xC0000201, 4000) (ps_fsm demo_inbox)
      newMockNetlinker = ((p, k), effs)"
    by (metis prod.collapse)
  have up: "tunnelUp p" using demo_pong_up by (simp add: r)
  have "\<not> tunnelUp (ps_fsm demo_inbox)" "pd_ifaceName (deps (ps_fsm demo_inbox)) = ''gt0''"
    "be_bytes 4 (0xC0000201 :: 32 word) = [192, 0, 2, 1]"
    by code_simp+
  with pong_builds_tunnel [OF kern.netlink_fou_laws_axioms _ _ r up] show ?thesis
    by (auto simp: r demo_inbox_fields)
qed

subsection \<open>Lost updates\<close>

text \<open>C38: An update can be lost. When the driver takes the event of an \<open>update\<close> call before the
  call has written the new snapshot, it still sees a peer without endpoints; afterwards the
  endpoints are there, the inbox is empty, the state is unknown, and neither timer of the
  driver sends anything or changes the state.\<close>

theorem update_can_be_lost:
  assumes "state (ps_fsm s) = stateUnknown" and "incoming (ps_fsm s) = []"
    and "rp_Endpoints (fsm_peer (ps_fsm s)) = []" and "ps_pending s = None" and "\<not> ps_exited s"
    and "rp_Endpoints peer \<noteq> []"
  shows "\<exists>s'. (fsm_step nl)\<^sup>*\<^sup>* s s' \<and> fsm_peer (ps_fsm s') = peer \<and> state (ps_fsm s') = stateUnknown \<and>
    incoming (ps_fsm s') = [] \<and> ps_pending s' = None \<and>
    (\<forall>fe. tickPunch fe (ps_fsm s') = (ps_fsm s', []) \<and> keepalive fe (ps_fsm s') = (ps_fsm s', []))"
proof -
  let ?p = "ps_fsm s"
  let ?p1 = "?p\<lparr>incoming := [evUpdate]\<rparr>"
  let ?fe = "\<lparr>fe_now = ps_clock s, fe_now2 = ps_clock s, fe_ifaddrs = Inr [], fe_port = 0,
    fe_tx = (\<lambda>_. ''''), fe_build = (\<lambda>_ _ _. Inr [])\<rparr>"
  let ?s1 = "s\<lparr>ps_fsm := ?p1, ps_pending := Some peer\<rparr>"
  let ?s2 = "?s1\<lparr>ps_fsm := ?p1\<lparr>incoming := []\<rparr>, ps_kernel := ps_kernel ?s1, ps_clock := fe_now2 ?fe\<rparr>"
  let ?s3 = "?s2\<lparr>ps_fsm := set_peer peer (ps_fsm ?s2), ps_pending := None\<rparr>"
  have 1: "fsm_step nl s ?s1"
    using assms(2,4) by (intro fsm_step.update_send) (simp_all add: try_send_def incomingCap_def)
  have "handle_begin nl ?fe evUpdate ((ps_fsm ?s1)\<lparr>incoming := []\<rparr>) (ps_kernel ?s1) =
      ((?p1\<lparr>incoming := []\<rparr>, ps_kernel ?s1), [])"
    using assms(1,3) by (simp add: noticeEndpoints_def)
  then have 2: "fsm_step nl ?s1 ?s2"
    using assms(1,5) by (intro fsm_step.receive [where ev = evUpdate]) (simp_all add: timed_def driver_free_def)
  have 3: "fsm_step nl ?s2 ?s3" by (intro fsm_step.update_write) simp
  from 1 2 3 have "(fsm_step nl)\<^sup>*\<^sup>* s ?s3" by (meson rtranclp.rtrancl_into_rtrancl rtranclp.rtrancl_refl)
  moreover have "fsm_peer (ps_fsm ?s3) = peer" "state (ps_fsm ?s3) = stateUnknown"
    "incoming (ps_fsm ?s3) = []" "ps_pending ?s3 = None"
    using assms(1) by (simp_all add: set_peer_def)
  ultimately show ?thesis
    by (intro exI [of _ ?s3]) (simp add: tickPunch_def keepalive_def)
qed

theorem update_can_be_lost_witness:
  "\<exists>s'. (fsm_step (demo_nl no_errs))\<^sup>*\<^sup>*
     (fsm_start demo_deps (demo_remote\<lparr>rp_Endpoints := []\<rparr>) newMockNetlinker zero_time) s' \<and>
     fsm_peer (ps_fsm s') = demo_remote \<and> state (ps_fsm s') = stateUnknown"
  using update_can_be_lost [of "fsm_start demo_deps (demo_remote\<lparr>rp_Endpoints := []\<rparr>) newMockNetlinker zero_time"
      demo_remote "demo_nl no_errs"]
  by (auto simp: fsm_start_def run_start_def newPeerFSM_def setState_def demo_remote_def)

end
