(* ===== verification/Disco_Client.thy ===== *)
theory Disco_Client
  imports Coord_Auth Disco_Envelope Daemon_Peer
begin

text \<open>
  The daemon's client of the coordinator API, \<open>internal/disco/client.go\<close>: the signed request
  and the five calls. The construction of a request from a URL, the transport and the JSON
  texts are arguments. The signing code is a second implementation of what the server checks;
  the properties show that the two agree and that the server accepts what the client signs.
\<close>

section \<open>The client\<close>

record CoordClient =
  cl_base :: string
  cl_nk :: NodeKey
  cl_dk :: DiscoKey
  cl_timeout :: duration

definition NewCoordClient :: "string \<Rightarrow> NodeKey \<Rightarrow> DiscoKey \<Rightarrow> CoordClient" where
  "NewCoordClient base nk dk = \<lparr>cl_base = base, cl_nk = nk, cl_dk = dk, cl_timeout = 30 * second\<rparr>"

record http_response =
  rs_Status :: int
  rs_Body :: "byte list"

text \<open>The wire shape of a peer, with endpoints as pairs of address and source.\<close>

record wire_peer =
  wp_NodeKey :: "byte list"
  wp_DiscoKey :: "byte list"
  wp_Name :: string
  wp_TunnelIP :: addr
  wp_Endpoints :: "(addrport \<times> string) list"
  wp_UpdatedAt :: gotime

definition remote_of_wire :: "wire_peer \<Rightarrow> RemotePeer" where
  "remote_of_wire p =
     \<lparr>rp_NodeKey = wp_NodeKey p, rp_DiscoKey = wp_DiscoKey p, rp_Name = wp_Name p,
      rp_TunnelIP = wp_TunnelIP p,
      rp_Endpoints = map (\<lambda>(a, src). \<lparr>re_Addr = a, re_Source = src\<rparr>) (wp_Endpoints p),
      rp_UpdatedAt = wp_UpdatedAt p\<rparr>"

text \<open>\<open>ce_new\<close> is \<open>http.NewRequestWithContext\<close> on a method, a URL and a body, \<open>ce_do\<close> the
  HTTP client; the other fields are the encoders and decoders of the JSON bodies.\<close>

record client_env =
  ce_new :: "string \<Rightarrow> string \<Rightarrow> byte list \<Rightarrow> http_request res"
  ce_do :: "http_request \<Rightarrow> http_response res"
  ce_unix :: int64
  ce_crypto :: crypto
  enc_register :: "byte list \<Rightarrow> byte list \<Rightarrow> string \<Rightarrow> byte list"
  dec_register :: "byte list \<Rightarrow> (string \<times> string) res"
  enc_endpoints :: "(addrport \<times> string) list \<Rightarrow> byte list"
  dec_peers :: "byte list \<Rightarrow> (string \<times> wire_peer list) res"
  enc_signal :: "byte list \<Rightarrow> byte list \<Rightarrow> byte list"
  dec_signals :: "byte list \<Rightarrow> (byte list \<times> gotime) list res"

section \<open>Signed requests\<close>

definition indexQuery :: "string \<Rightarrow> nat option" where
  "indexQuery p =
     (if CHR ''?'' \<in> set p then Some (length (takeWhile (\<lambda>c. c \<noteq> CHR ''?'') p)) else None)"

definition normalisePath :: "string \<Rightarrow> string" where
  "normalisePath p = (case indexQuery p of Some i \<Rightarrow> take i p | None \<Rightarrow> p)"

definition sha256Sum :: "crypto \<Rightarrow> byte list \<Rightarrow> byte list" where
  "sha256Sum cr b = sha256 cr b"

definition client_signingMaterial :: "crypto \<Rightarrow> string \<Rightarrow> string \<Rightarrow> string \<Rightarrow> byte list \<Rightarrow> byte list" where
  "client_signingMaterial cr ts method path body =
     (let b1 = str_bytes ts @ [10];
          b2 = b1 @ str_bytes method @ [10];
          b3 = b2 @ str_bytes path @ [10]
      in b3 @ sha256Sum cr body)"

definition with_auth :: "CoordClient \<Rightarrow> client_env \<Rightarrow> string \<Rightarrow> string \<Rightarrow> byte list \<Rightarrow> http_request \<Rightarrow> http_request" where
  "with_auth c ce method path body req =
     (let ts = fmt_int (sint (ce_unix ce));
          digest = client_signingMaterial (ce_crypto ce) ts method (normalisePath path) body;
          sig = ed25519_Sign (ce_crypto ce) (nk_Priv (cl_nk c)) digest
      in req\<lparr>rq_Header :=
           [(''X-Gretun-Timestamp'', ts), (''X-Gretun-Node'', b64_encode (nk_Pub (cl_nk c))),
            (''Authorization'', ''Gretun '' @ b64_encode sig)]\<rparr>)"

definition signedDo ::
  "CoordClient \<Rightarrow> client_env \<Rightarrow> string \<Rightarrow> string \<Rightarrow> byte list \<Rightarrow> http_response res" where
  "signedDo c ce method path body =
     bind_res (ce_new ce method (cl_base c @ path) body)
       (\<lambda>req. ce_do ce (with_auth c ce method path body req))"

section \<open>The calls\<close>

definition bytes_str :: "byte list \<Rightarrow> string" where
  "bytes_str = map (\<lambda>b. char_of (unat b))"

definition client_Register :: "CoordClient \<Rightarrow> client_env \<Rightarrow> string \<Rightarrow> (string \<times> string) res" where
  "client_Register c ce name =
     bind_res (ce_new ce ''POST'' (cl_base c @ ''/v1/register'')
         (enc_register ce (nk_Pub (cl_nk c)) (dk_Pub (cl_dk c)) name)) (\<lambda>req.
     bind_res (ce_do ce req) (\<lambda>resp.
       if rs_Status resp \<noteq> 200
       then Inl (EFmt ''register: %d: %s'' [AInt (rs_Status resp), AStr (bytes_str (rs_Body resp))])
       else dec_register ce (rs_Body resp)))"

definition PostEndpoints :: "CoordClient \<Rightarrow> client_env \<Rightarrow> RemoteEndpoint list \<Rightarrow> goerror option" where
  "PostEndpoints c ce eps =
     (let wire = map (\<lambda>e. (re_Addr e, re_Source e)) eps;
          body = enc_endpoints ce wire
      in case signedDo c ce ''POST'' ''/v1/endpoints'' body of
           Inl e \<Rightarrow> Some e
         | Inr resp \<Rightarrow>
             (if rs_Status resp \<noteq> 200
              then Some (EFmt ''endpoints: %d: %s'' [AInt (rs_Status resp), AStr (bytes_str (rs_Body resp))])
              else None))"

definition peers_path :: "string \<Rightarrow> string" where
  "peers_path since = ''/v1/peers'' @ (if since \<noteq> '''' then ''?since='' @ since else '''')"

definition client_Peers :: "CoordClient \<Rightarrow> client_env \<Rightarrow> string \<Rightarrow> (RemotePeer list \<times> string) res" where
  "client_Peers c ce since =
     bind_res (signedDo c ce ''GET'' (peers_path since) []) (\<lambda>resp.
       if rs_Status resp \<noteq> 200 then Inl (EFmt ''peers: %d'' [AInt (rs_Status resp)])
       else bind_res (dec_peers ce (rs_Body resp)) (\<lambda>(etag, ps). Inr (map remote_of_wire ps, etag)))"

definition SendSignal :: "CoordClient \<Rightarrow> client_env \<Rightarrow> byte list \<Rightarrow> byte list \<Rightarrow> goerror option" where
  "SendSignal c ce to sealed =
     (case signedDo c ce ''POST'' ''/v1/signal'' (enc_signal ce to sealed) of
        Inl e \<Rightarrow> Some e
      | Inr resp \<Rightarrow>
          (if rs_Status resp \<noteq> 200 then Some (EFmt ''signal: %d'' [AInt (rs_Status resp)]) else None))"

definition PullSignals :: "CoordClient \<Rightarrow> client_env \<Rightarrow> byte list list res" where
  "PullSignals c ce =
     bind_res (signedDo c ce ''GET'' ''/v1/signal'' []) (\<lambda>resp.
       if rs_Status resp \<noteq> 200 then Inl (EFmt ''signal pull: %d'' [AInt (rs_Status resp)])
       else bind_res (dec_signals ce (rs_Body resp)) (\<lambda>envs. Inr (map fst envs)))"

section \<open>Properties\<close>

lemma normalisePath_prefix: "normalisePath p = takeWhile (\<lambda>c. c \<noteq> CHR ''?'') p"
proof (cases "CHR ''?'' \<in> set p")
  case True
  then show ?thesis
    by (simp add: normalisePath_def indexQuery_def) (metis takeWhile_eq_take)
next
  case False
  then have all: "takeWhile (\<lambda>c. c \<noteq> CHR ''?'') p = p" by (auto simp: takeWhile_eq_all_conv)
  show ?thesis unfolding all using False by (simp add: normalisePath_def indexQuery_def)
qed

lemma client_signingMaterial_eq: "client_signingMaterial = signingMaterial"
  by (simp add: fun_eq_iff client_signingMaterial_def signingMaterial_def Let_def sha256Sum_def)

text \<open>The two signing implementations agree: for every request the client attaches exactly the
  three headers that the server package's own \<open>SignRequest\<close> computes for the path without
  its query, under the header names the server reads.\<close>

theorem client_signs_like_server:
  "(headerTs, fst (SignRequest (ce_crypto ce) (ce_unix ce) (nk_Priv (cl_nk c)) (nk_Pub (cl_nk c)) method
      (takeWhile (\<lambda>ch. ch \<noteq> CHR ''?'') path) body)) =
     rq_Header (with_auth c ce method path body req) ! 0 \<and>
   (headerKey, fst (snd (SignRequest (ce_crypto ce) (ce_unix ce) (nk_Priv (cl_nk c)) (nk_Pub (cl_nk c)) method
      (takeWhile (\<lambda>ch. ch \<noteq> CHR ''?'') path) body))) =
     rq_Header (with_auth c ce method path body req) ! 1 \<and>
   (headerAuth, snd (snd (SignRequest (ce_crypto ce) (ce_unix ce) (nk_Priv (cl_nk c)) (nk_Pub (cl_nk c)) method
      (takeWhile (\<lambda>ch. ch \<noteq> CHR ''?'') path) body))) =
     rq_Header (with_auth c ce method path body req) ! 2"
  by (simp add: with_auth_def SignRequest_def Let_def client_signingMaterial_eq auth_defs normalisePath_prefix)

text \<open>A base URL that is a scheme and an authority, with neither a path nor a query of its own, and
  an etag that can stand in a query as it is. (The client does not escape it; the etags of the
  store are hexadecimal.)\<close>

definition origin :: "string \<Rightarrow> bool" where
  "origin base \<longleftrightarrow>
     (has_prefix base ''http://'' \<and> list_all (\<lambda>ch. ch \<notin> set ''/?#'') (drop 7 base)) \<or>
     (has_prefix base ''https://'' \<and> list_all (\<lambda>ch. ch \<notin> set ''/?#'') (drop 8 base))"

definition query_safe :: "string \<Rightarrow> bool" where
  "query_safe s \<longleftrightarrow> list_all (\<lambda>ch. ch \<in> set ''0123456789abcdefghijklmnopqrstuvwxyzABCDEFGHIJKLMNOPQRSTUVWXYZ-_'') s"

text \<open>The requests the client makes.\<close>

definition client_route :: "string \<Rightarrow> string \<Rightarrow> bool" where
  "client_route method path \<longleftrightarrow>
     method = ''POST'' \<and> path \<in> {''/v1/register'', ''/v1/endpoints'', ''/v1/signal''} \<or>
     method = ''GET'' \<and> (path = ''/v1/signal'' \<or> (\<exists>since. query_safe since \<and> path = peers_path since))"

text \<open>What the client relies on from \<open>net/http\<close> for these requests: one built from such a base URL and
  path has the given method and body and, at the server, the part of the path before the
  query.\<close>

definition new_request_law :: "client_env \<Rightarrow> bool" where
  "new_request_law ce \<longleftrightarrow>
     (\<forall>base method path body req. origin base \<longrightarrow> client_route method path \<longrightarrow>
        ce_new ce method (base @ path) body = Inr req \<longrightarrow>
        rq_Method req = method \<and> rq_Path req = takeWhile (\<lambda>ch. ch \<noteq> CHR ''?'') path \<and> rq_Body req = Inr body)"

definition key_law :: "crypto \<Rightarrow> NodeKey \<Rightarrow> bool" where
  "key_law cr nk =
     (length (nk_Pub nk) = 32 \<and> (\<forall>m. ed25519_Verify cr (nk_Pub nk) m (ed25519_Sign cr (nk_Priv nk) m)))"

lemma with_auth_accepted:
  assumes "new_request_law ce" and "origin (cl_base c)" and "client_route method path"
    and "key_law (ce_crypto ce) (cl_nk c)" and "\<not> stale now (ce_unix ce)"
    and "ce_new ce method (cl_base c @ path) body = Inr req"
  shows "VerifyRequest (ce_crypto ce) now (with_auth c ce method path body req) =
    Inr (nk_Pub (cl_nk c), body)"
proof -
  let ?r = "with_auth c ce method path body req"
  have req: "rq_Method req = method" "rq_Path req = takeWhile (\<lambda>ch. ch \<noteq> CHR ''?'') path" "rq_Body req = Inr body"
    using assms(1-3,6) unfolding new_request_law_def by blast+
  then have r: "rq_Method ?r = method" "rq_Path ?r = normalisePath path" "rq_Body ?r = Inr body"
    by (simp_all add: with_auth_def Let_def normalisePath_prefix)
  obtain ts node auth where s: "SignRequest (ce_crypto ce) (ce_unix ce) (nk_Priv (cl_nk c)) (nk_Pub (cl_nk c))
      (rq_Method ?r) (rq_Path ?r) body = (ts, node, auth)"
    by (metis prod_cases3)
  have h: "rq_Header ?r = [(headerTs, ts), (headerKey, node), (headerAuth, auth)]"
    using s [unfolded r]
    by (auto simp: with_auth_def SignRequest_def Let_def client_signingMaterial_eq auth_defs)
  show ?thesis
    using assms(4,5) unfolding key_law_def by (intro VerifyRequest_signed [OF _ _ s h r(3)]) auto
qed

text \<open>C8: The server accepts the signed calls of the client as long as the clocks are within the allowed
  skew: for each of the client's routes the request that \<open>signedDo\<close> hands to the transport
  passes \<open>VerifyRequest\<close> and is attributed to the client's node key, with the body the client
  sent; the query of a poll is left out on both sides. The coordinator's URL has no path of
  its own, and the etag of a poll is made of characters that need no escaping.\<close>

theorem client_request_accepted:
  assumes "new_request_law ce" and "origin (cl_base c)" and "client_route method path"
    and "key_law (ce_crypto ce) (cl_nk c)"
    and "\<not> stale now (ce_unix ce)" and "signedDo c ce method path body = Inr resp"
  shows "\<exists>r. ce_do ce r = Inr resp \<and> rq_Method r = method \<and> rq_Path r = takeWhile (\<lambda>ch. ch \<noteq> CHR ''?'') path \<and>
    VerifyRequest (ce_crypto ce) now r = Inr (nk_Pub (cl_nk c), body)"
proof -
  from assms(6) obtain req where req: "ce_new ce method (cl_base c @ path) body = Inr req"
    "ce_do ce (with_auth c ce method path body req) = Inr resp"
    by (auto simp: signedDo_def bind_res_eq_Inr_iff)
  have "rq_Method req = method \<and> rq_Path req = takeWhile (\<lambda>ch. ch \<noteq> CHR ''?'') path"
    using assms(1-3) req(1) unfolding new_request_law_def by blast
  then have "rq_Method (with_auth c ce method path body req) = method"
    "rq_Path (with_auth c ce method path body req) = takeWhile (\<lambda>ch. ch \<noteq> CHR ''?'') path"
    by (simp_all add: with_auth_def Let_def)
  with req(2) with_auth_accepted [OF assms(1-5) req(1)] show ?thesis by blast
qed

text \<open>A small part of \<open>net/http\<close> for the witnesses: the path of a URL begins at the first slash after
  the authority.\<close>

definition demo_client :: CoordClient where
  "demo_client = NewCoordClient ''http://c:1'' \<lparr>nk_Priv = replicate 64 5, nk_Pub = replicate 32 5\<rparr> (demo_key 1)"

definition url_rest :: "string \<Rightarrow> string" where
  "url_rest url = (if has_prefix url ''https://'' then drop 8 url else drop 7 url)"

definition demo_new :: "string \<Rightarrow> string \<Rightarrow> byte list \<Rightarrow> http_request res" where
  "demo_new m url body =
     Inr \<lparr>rq_Method = m, rq_Path = takeWhile (\<lambda>ch. ch \<noteq> CHR ''?'') (dropWhile (\<lambda>ch. ch \<noteq> CHR ''/'') (url_rest url)),
          rq_Query = [], rq_Header = [], rq_Body = Inr body\<rparr>"

definition demo_ce :: client_env where
  "demo_ce = \<lparr>ce_new = demo_new, ce_do = (\<lambda>r. Inr \<lparr>rs_Status = 200, rs_Body = [7]\<rparr>), ce_unix = 1700000000,
     ce_crypto = demo_crypto, enc_register = (\<lambda>_ _ _. []), dec_register = (\<lambda>_. Inr ('''', '''')),
     enc_endpoints = (\<lambda>_. []), dec_peers = (\<lambda>_. Inr ('''', [])), enc_signal = (\<lambda>_ s. s),
     dec_signals = (\<lambda>b. Inr [(b, 0)])\<rparr>"

lemma origin_rest:
  assumes "origin base"
  shows "dropWhile (\<lambda>ch. ch \<noteq> CHR ''/'') (url_rest (base @ CHR ''/'' # p)) = CHR ''/'' # p"
proof -
  have skip: "dropWhile (\<lambda>ch. ch \<noteq> CHR ''/'') (h @ CHR ''/'' # p) = CHR ''/'' # p"
    if "list_all (\<lambda>ch. ch \<notin> set ''/?#'') h" for h
    using that by (induction h) auto
  have split: "base = pre @ drop (length pre) base" if "has_prefix base pre" for pre
    using append_take_drop_id [of "length pre" base] that unfolding has_prefix_def by metis
  have rest: "dropWhile (\<lambda>ch. ch \<noteq> CHR ''/'') (url_rest ((pre @ h) @ CHR ''/'' # p)) = CHR ''/'' # p"
    if "pre = ''http://'' \<or> pre = ''https://''" "list_all (\<lambda>ch. ch \<notin> set ''/?#'') h" for pre h
    using that skip by (auto simp: url_rest_def has_prefix_def)
  have len: "length ''http://'' = 7" "length ''https://'' = 8" by simp_all
  from assms show ?thesis
    unfolding origin_def using split [of "''http://''"] split [of "''https://''"] rest unfolding len by metis
qed

lemma client_route_slash: "client_route method path \<Longrightarrow> \<exists>p. path = CHR ''/'' # p"
  by (auto simp: client_route_def peers_path_def)

lemma demo_new_law: "ce_new ce = demo_new \<Longrightarrow> new_request_law ce"
  by (auto simp: new_request_law_def demo_new_def origin_rest dest: client_route_slash)

lemma demo_client_laws:
  "new_request_law demo_ce" "key_law demo_crypto (cl_nk demo_client)" "origin (cl_base demo_client)"
  by (simp_all add: demo_new_law demo_ce_def key_law_def demo_client_def NewCoordClient_def demo_crypto_def
      numeral_eq_Suc origin_def has_prefix_def)

theorem client_request_accepted_witness:
  "\<exists>r. rq_Method r = ''GET'' \<and> rq_Path r = ''/v1/peers'' \<and>
     VerifyRequest demo_crypto 1700000030 r = Inr (replicate 32 5, [])"
proof -
  have ns: "\<not> stale 1700000030 (ce_unix demo_ce)" by (simp add: demo_ce_def demo_not_stale)
  have s: "signedDo demo_client demo_ce ''GET'' ''/v1/peers?since=0a'' [] = Inr \<lparr>rs_Status = 200, rs_Body = [7]\<rparr>"
    by (simp add: signedDo_def demo_ce_def demo_new_def)
  have route: "client_route ''GET'' ''/v1/peers?since=0a''"
    by (auto simp: client_route_def peers_path_def query_safe_def intro!: exI [of _ "''0a''"])
  have key: "key_law (ce_crypto demo_ce) (cl_nk demo_client)"
    using demo_client_laws(2) by (simp add: demo_ce_def)
  from client_request_accepted [OF demo_client_laws(1,3) route key ns s] show ?thesis
    by (auto simp: demo_client_def NewCoordClient_def demo_ce_def)
qed

end
