(* ===== verification/Daemon_Run.thy ===== *)
theory Daemon_Run
  imports Disco_Client "HOL-Library.AList" "HOL-Library.Multiset"
begin

text \<open>
  The daemon process around the per-peer machines, \<open>internal/daemon/daemon.go\<close>: start-up and
  clean-up of \<open>Run\<close>, collection of the local endpoints, dispatch of messages to the
  machines, reconciliation with the coordinator's peer list and shutdown. The Go map of peers
  is an association list, or \<open>None\<close> for the nil map that \<open>shutdown\<close> leaves; writing to the
  nil map is a panic, the result \<open>None\<close> of \<open>reconcilePeers\<close>. Machines that were told to
  stop are kept in a list of their own, since their goroutines still run.
\<close>

section \<open>State\<close>

record DaemonConfig =
  dc_Coordinator :: string
  dc_NodeName :: string
  dc_StateDir :: string
  dc_Iface :: string
  dc_FOUPort :: u16
  dc_DiscoAddr :: string
  dc_STUNServers :: "string list"
  dc_Aggressive :: bool
  dc_MetricsAddr :: string

text \<open>\<open>d_ifaceSeq\<close> is unbounded where the code has an \<open>int\<close>: it counts the machines ever made, far below
  the 63 bits of that type.\<close>

record Daemon =
  d_cfg :: DaemonConfig
  d_node :: NodeKey
  d_disco :: DiscoKey
  d_client :: CoordClient
  d_metrics :: bool
  d_peers :: "(byte list \<times> peerFSM) list option"
  d_self :: addr
  d_ifaceSeq :: nat
  d_fouOwned :: bool
  d_leaving :: "peerFSM list"

definition New :: "DaemonConfig \<Rightarrow> NodeKey \<Rightarrow> DiscoKey \<Rightarrow> Daemon" where
  "New cfg nk dk =
     \<lparr>d_cfg = (if dc_Iface cfg = '''' then cfg\<lparr>dc_Iface := ''gretun%d''\<rparr> else cfg),
      d_node = nk, d_disco = dk, d_client = NewCoordClient (dc_Coordinator cfg) nk dk, d_metrics = False, d_peers = Some [], d_self = AddrZero,
      d_ifaceSeq = 0, d_fouOwned = False, d_leaving = []\<rparr>"

text \<open>\<open>fmt.Sprintf(pattern, seq)\<close> for a pattern whose verbs are \<open>%d\<close> and \<open>%%\<close>: a second \<open>%d\<close> finds
  no argument, an argument that is not used is appended, both the way the formatter reports
  it.\<close>

fun plain_pattern :: "string \<Rightarrow> bool" where
  "plain_pattern [] = True"
| "plain_pattern [c] = True"
| "plain_pattern (c # e # r) =
     (if c = CHR ''%'' then (e = CHR ''d'' \<or> e = CHR ''%'') \<and> plain_pattern r else plain_pattern (e # r))"

fun iface_fmt :: "string \<Rightarrow> nat option \<Rightarrow> string" where
  "iface_fmt [] arg = (case arg of None \<Rightarrow> [] | Some n \<Rightarrow> ''%!(EXTRA int='' @ fmt_nat n @ '')'')"
| "iface_fmt [c] arg = (if c = CHR ''%'' then ''%!(NOVERB)'' else [c]) @ iface_fmt [] arg"
| "iface_fmt (c # e # r) arg =
     (if c = CHR ''%'' \<and> e = CHR ''d'' then
        (case arg of None \<Rightarrow> ''%!d(MISSING)'' @ iface_fmt r None | Some n \<Rightarrow> fmt_nat n @ iface_fmt r None)
      else if c = CHR ''%'' \<and> e = CHR ''%'' then CHR ''%'' # iface_fmt r arg
      else c # iface_fmt (e # r) arg)"

definition iface_name :: "string \<Rightarrow> nat \<Rightarrow> string" where
  "iface_name pattern seq = iface_fmt pattern (Some seq)"

section \<open>Helpers\<close>

definition mustAddrFromIP :: "goip \<Rightarrow> addr" where
  "mustAddrFromIP ip =
     (case ip_To4 ip of
        Some v4 \<Rightarrow> (case addr_from_slice v4 of Some a \<Rightarrow> a | None \<Rightarrow> AddrZero)
      | None \<Rightarrow> (case addr_from_slice (ip_bytes ip) of Some a \<Rightarrow> a | None \<Rightarrow> AddrZero))"

definition newTxID :: "byte list \<Rightarrow> string" where
  "newTxID rnd16 = hex_encode rnd16"

text \<open>The addresses of the local interfaces, then the public one found by STUN. The first
  result is returned also with an error.\<close>

definition local_endpoints :: "ifaddr list \<Rightarrow> int \<Rightarrow> RemoteEndpoint list" where
  "local_endpoints addrs port =
     List.map_filter
       (\<lambda>a. case if_To4 a of
              None \<Rightarrow> None
            | Some v4 \<Rightarrow>
                (if ip_IsLoopback (Some v4) \<or> \<not> ip_IsGlobalUnicast (Some v4) then None
                 else map_option (\<lambda>ap. \<lparr>re_Addr = (ap, word_of_int port), re_Source = ''local''\<rparr>)
                        (addr_from_slice v4)))
       addrs"

definition collectEndpoints ::
  "ifaddr list \<Rightarrow> addrport res \<Rightarrow> int \<Rightarrow> RemoteEndpoint list \<times> goerror option" where
  "collectEndpoints addrs stun port =
     (let eps = local_endpoints addrs port in
      case stun of
        Inr pub \<Rightarrow> (eps @ [\<lparr>re_Addr = pub, re_Source = ''stun''\<rparr>], None)
      | Inl e \<Rightarrow> (eps, Some e))"

section \<open>Start and end of Run\<close>

text \<open>What \<open>Run\<close> obtains from outside before its loops start: the port of the disco socket bound to
  an address, the interfaces, the answer of \<open>DiscoverPublic\<close> for a list of servers, and what
  the client meets in its two calls of the coordinator.\<close>

record run_env =
  re_listen :: "string \<Rightarrow> int res"
  re_ifaddrs :: "ifaddr list"
  re_stun :: "string list \<Rightarrow> addrport res"
  re_register :: client_env
  re_post :: client_env

text \<open>The configuration of an \<open>http.Server\<close>, and the one that publishes the metrics: it is started
  only when an address is configured.\<close>

record http_server =
  hs_Addr :: string
  hs_ReadTimeout :: duration
  hs_WriteTimeout :: duration
  hs_IdleTimeout :: duration

definition metrics_server :: "DaemonConfig \<Rightarrow> http_server option" where
  "metrics_server cfg =
     (if dc_MetricsAddr cfg \<noteq> ''''
      then Some \<lparr>hs_Addr = dc_MetricsAddr cfg, hs_ReadTimeout = 30 * second, hs_WriteTimeout = 35 * second,
             hs_IdleTimeout = 90 * second\<rparr>
      else None)"

definition cleanup_fou :: "'k Netlinker \<Rightarrow> Daemon \<Rightarrow> 'k \<Rightarrow> 'k" where
  "cleanup_fou nl d k = (if d_fouOwned d then RemoveFOU nl (dc_FOUPort (d_cfg d)) k else k)"

text \<open>\<open>Run\<close> up to the start of its loops: the daemon, ready, with the endpoints it has collected
  and what came of posting them, or the error it returns after its deferred clean-up. A text
  that is no prefix leaves \<open>self\<close> as it was, and a failure to post is only logged.\<close>

definition Run_start ::
  "'k Netlinker \<Rightarrow> run_env \<Rightarrow> Daemon \<Rightarrow> 'k \<Rightarrow> (Daemon \<times> RemoteEndpoint list \<times> goerror option) res \<times> 'k" where
  "Run_start nl re d k =
     (let addr = (if dc_DiscoAddr (d_cfg d) = '''' then '':0'' else dc_DiscoAddr (d_cfg d)) in
      case re_listen re addr of
        Inl e \<Rightarrow> (Inl (EWrap ''disco listen: %w'' [] e), k)
      | Inr port \<Rightarrow>
          (case EnsureFOU nl (dc_FOUPort (d_cfg d)) EncapFOU k of
             (Inl e, k1) \<Rightarrow> (Inl (EWrap ''FOU setup: %w'' [] e), k1)
           | (Inr created, k1) \<Rightarrow>
               (let d1 = d\<lparr>d_fouOwned := created\<rparr>;
                    eps = fst (collectEndpoints (re_ifaddrs re) (re_stun re (dc_STUNServers (d_cfg d))) port)
                in case client_Register (d_client d) (re_register re) (dc_NodeName (d_cfg d)) of
                     Inl e \<Rightarrow> (Inl (EWrap ''register: %w'' [] e), cleanup_fou nl d1 k1)
                   | Inr (cidr, _) \<Rightarrow>
                       (let d2 = d1\<lparr>d_self := (case parse_prefix cidr of Some (Prefix a n) \<Rightarrow> a | _ \<Rightarrow> d_self d1)\<rparr>;
                            posted = PostEndpoints (d_client d) (re_post re) eps
                        in (Inr (d2\<lparr>d_metrics := (metrics_server (d_cfg d) \<noteq> None)\<rparr>, eps, posted), k1)))))"

definition shutdown :: "Daemon \<Rightarrow> Daemon" where
  "shutdown d =
     (case d_peers d of
        None \<Rightarrow> d
      | Some ps \<Rightarrow> d\<lparr>d_leaving := d_leaving d @ map (stop \<circ> snd) ps, d_peers := None\<rparr>)"

definition Run_end :: "'k Netlinker \<Rightarrow> Daemon \<Rightarrow> 'k \<Rightarrow> Daemon \<times> 'k" where
  "Run_end nl d k = (shutdown d, cleanup_fou nl d k)"

section \<open>Dispatch\<close>

definition on_peer :: "byte list \<Rightarrow> (peerFSM \<Rightarrow> peerFSM) \<Rightarrow> Daemon \<Rightarrow> Daemon" where
  "on_peer key f d =
     (case d_peers d of
        None \<Rightarrow> d
      | Some ps \<Rightarrow>
          (case map_of ps key of
             None \<Rightarrow> d
           | Some p \<Rightarrow> d\<lparr>d_peers := Some (AList.update key (f p) ps)\<rparr>))"

text \<open>One datagram of \<open>discoReadLoop\<close>: read into a buffer of 2048 bytes, opened, and given to the
  machine of its sender.\<close>

definition disco_packet :: "box \<Rightarrow> body_codec \<Rightarrow> byte list \<Rightarrow> goip \<Rightarrow> int \<Rightarrow> Daemon \<Rightarrow> Daemon" where
  "disco_packet bx cd pkt ip port d =
     (case OpenEnvelope bx cd (take 2048 pkt) (d_disco d) of
        Inl _ \<Rightarrow> d
      | Inr (sender, body) \<Rightarrow> on_peer sender (onUDP (mustAddrFromIP ip, word_of_int port) body) d)"

definition signal_envelope :: "box \<Rightarrow> body_codec \<Rightarrow> byte list \<Rightarrow> Daemon \<Rightarrow> Daemon" where
  "signal_envelope bx cd sealed d =
     (case OpenEnvelope bx cd sealed (d_disco d) of
        Inl _ \<Rightarrow> d
      | Inr (sender, body) \<Rightarrow> on_peer sender (onSignal body) d)"

definition signalPull_batch :: "box \<Rightarrow> body_codec \<Rightarrow> byte list list \<Rightarrow> Daemon \<Rightarrow> Daemon" where
  "signalPull_batch bx cd sealedEnvs d = fold (signal_envelope bx cd) sealedEnvs d"

section \<open>Reconciliation\<close>

definition new_deps :: "Daemon \<Rightarrow> string \<Rightarrow> peerDeps" where
  "new_deps d ifname =
     \<lparr>pd_self = d_disco d, pd_selfNode = d_node d, pd_ifaceName = ifname,
      pd_fouPort = dc_FOUPort (d_cfg d), pd_selfTunnel = d_self d,
      pd_aggressive = dc_Aggressive (d_cfg d), pd_metrics = d_metrics d\<rparr>"

text \<open>The first loop body for one listed peer, and the loop.\<close>

definition reconcile_one :: "RemotePeer \<Rightarrow> Daemon \<Rightarrow> Daemon option" where
  "reconcile_one p d =
     (if rp_DiscoKey p = dk_Pub (d_disco d) then Some d
      else case map_of (case d_peers d of None \<Rightarrow> [] | Some ps \<Rightarrow> ps) (rp_DiscoKey p) of
        Some fsm \<Rightarrow>
          Some (d\<lparr>d_peers := map_option (AList.update (rp_DiscoKey p) (update p fsm)) (d_peers d)\<rparr>)
      | None \<Rightarrow>
          (let ifname = iface_name (dc_Iface (d_cfg d)) (d_ifaceSeq d);
               d1 = d\<lparr>d_ifaceSeq := Suc (d_ifaceSeq d)\<rparr>;
               fsm = newPeerFSM (new_deps d1 ifname) p
           in case d_peers d1 of
                None \<Rightarrow> None
              | Some ps \<Rightarrow>
                  Some (d1\<lparr>d_peers := Some (AList.update (rp_DiscoKey p) (fst (run_start fsm)) ps)\<rparr>)))"

fun reconcile_loop :: "RemotePeer list \<Rightarrow> Daemon \<Rightarrow> Daemon option" where
  "reconcile_loop [] d = Some d"
| "reconcile_loop (p # ps) d =
     (case reconcile_one p d of None \<Rightarrow> None | Some d' \<Rightarrow> reconcile_loop ps d')"

definition seen :: "Daemon \<Rightarrow> RemotePeer list \<Rightarrow> byte list \<Rightarrow> bool" where
  "seen d peers key = (key \<noteq> dk_Pub (d_disco d) \<and> key \<in> set (map rp_DiscoKey peers))"

definition drop_unseen :: "RemotePeer list \<Rightarrow> Daemon \<Rightarrow> Daemon" where
  "drop_unseen peers d =
     (case d_peers d of
        None \<Rightarrow> d
      | Some ps \<Rightarrow>
          d\<lparr>d_leaving := d_leaving d @ map (stop \<circ> snd) (filter (\<lambda>(k, _). \<not> seen d peers k) ps),
            d_peers := Some (filter (\<lambda>(k, _). seen d peers k) ps)\<rparr>)"

definition reconcilePeers :: "RemotePeer list \<Rightarrow> Daemon \<Rightarrow> Daemon option" where
  "reconcilePeers peers d = map_option (drop_unseen peers) (reconcile_loop peers d)"

section \<open>Lemmas\<close>

lemma iface_name_inject [simp]: "iface_name pat m = iface_name pat n \<longleftrightarrow> m = n"
proof -
  have "arg = Some m \<Longrightarrow> iface_fmt pat arg = iface_fmt pat (Some n) \<longleftrightarrow> m = n" for arg
    by (induction pat arg rule: iface_fmt.induct) auto
  then show ?thesis by (simp add: iface_name_def)
qed

abbreviation iface_of :: "peerFSM \<Rightarrow> string" where
  "iface_of p \<equiv> pd_ifaceName (deps p)"

lemma deps_frame [simp]:
  "deps (update q p) = deps p" "deps (onUDP src body p) = deps p" "deps (onSignal body p) = deps p"
  "deps (stop p) = deps p" "deps (fst (run_start p)) = deps p" "deps (newPeerFSM dd q) = dd"
  by (auto simp: update_def try_send_def set_peer_def onUDP_def onSignal_def stop_def run_start_def
      setState_def newPeerFSM_def)

definition peer_list :: "Daemon \<Rightarrow> (byte list \<times> peerFSM) list" where
  "peer_list d = (case d_peers d of None \<Rightarrow> [] | Some ps \<Rightarrow> ps)"

text \<open>The interface names of all machines, running or told to stop.\<close>

definition ifaces :: "Daemon \<Rightarrow> string list" where
  "ifaces d = map (iface_of \<circ> snd) (peer_list d) @ map iface_of (d_leaving d)"

text \<open>Every machine has an interface of its own, made from one of the sequence numbers handed out
  so far.\<close>

definition daemon_ok :: "Daemon \<Rightarrow> bool" where
  "daemon_ok d \<longleftrightarrow>
     distinct (map fst (peer_list d)) \<and> distinct (ifaces d) \<and>
     (\<forall>n \<in> set (ifaces d). \<exists>i < d_ifaceSeq d. n = iface_name (dc_Iface (d_cfg d)) i)"

lemma map_update_same:
  assumes "map_of xs k = Some v" and "f v' = f v" and "distinct (map fst xs)"
  shows "map (f \<circ> snd) (AList.update k v' xs) = map (f \<circ> snd) xs"
  using assms by (induction xs) (auto split: if_splits)

lemma update_absent: "map_of xs k = None \<Longrightarrow> AList.update k v xs = xs @ [(k, v)]"
  by (induction xs) (auto split: if_splits)

lemma fst_update_present: "map_of xs k = Some v \<Longrightarrow> map fst (AList.update k v' xs) = map fst xs"
  by (induction xs) (auto split: if_splits)

lemma daemon_ok_cong:
  assumes "daemon_ok d" and "distinct (map fst (peer_list d'))" and "mset (ifaces d') = mset (ifaces d)"
    and "d_ifaceSeq d' = d_ifaceSeq d" and "d_cfg d' = d_cfg d"
  shows "daemon_ok d'"
  using assms mset_eq_setD [OF assms(3)] mset_eq_imp_distinct_iff [OF assms(3)]
  unfolding daemon_ok_def by simp

lemma daemon_ok_replace:
  assumes "daemon_ok d" and "d_peers d = Some ps" and "map_of ps key = Some p" and "deps p' = deps p"
  shows "daemon_ok (d\<lparr>d_peers := Some (AList.update key p' ps)\<rparr>)"
proof (rule daemon_ok_cong [OF assms(1)])
  have "distinct (map fst ps)" using assms(1,2) by (simp add: daemon_ok_def peer_list_def)
  then show "distinct (map fst (peer_list (d\<lparr>d_peers := Some (AList.update key p' ps)\<rparr>)))"
    by (simp add: peer_list_def distinct_update)
  show "mset (ifaces (d\<lparr>d_peers := Some (AList.update key p' ps)\<rparr>)) = mset (ifaces d)"
    using map_update_same [OF assms(3), of iface_of p'] assms(2,4) \<open>distinct (map fst ps)\<close>
    by (simp add: ifaces_def peer_list_def)
qed simp_all

lemma on_peer_ok:
  assumes "daemon_ok d" and "\<And>p. deps (f p) = deps p"
  shows "daemon_ok (on_peer key f d)"
  using assms daemon_ok_replace [OF assms(1)] by (auto simp: on_peer_def split: option.split)

lemma reconcile_one_cases:
  assumes "reconcile_one p d = Some d'"
  obtains (same) "d' = d" "rp_DiscoKey p = dk_Pub (d_disco d)"
  | (updated) ps fsm where "d_peers d = Some ps" "map_of ps (rp_DiscoKey p) = Some fsm"
      "rp_DiscoKey p \<noteq> dk_Pub (d_disco d)"
      "d' = d\<lparr>d_peers := Some (AList.update (rp_DiscoKey p) (update p fsm) ps)\<rparr>"
  | (added) ps fsm where "d_peers d = Some ps" "map_of ps (rp_DiscoKey p) = None"
      "rp_DiscoKey p \<noteq> dk_Pub (d_disco d)"
      "iface_of fsm = iface_name (dc_Iface (d_cfg d)) (d_ifaceSeq d)"
      "d' = d\<lparr>d_ifaceSeq := Suc (d_ifaceSeq d), d_peers := Some (ps @ [(rp_DiscoKey p, fsm)])\<rparr>"
proof (cases "rp_DiscoKey p = dk_Pub (d_disco d)")
  case True
  with assms same show thesis by (simp add: reconcile_one_def)
next
  case False
  with assms obtain ps where ps: "d_peers d = Some ps"
    by (cases "d_peers d") (simp_all add: reconcile_one_def Let_def)
  show thesis
  proof (cases "map_of ps (rp_DiscoKey p)")
    case None
    let ?fsm = "fst (run_start (newPeerFSM (new_deps (d\<lparr>d_ifaceSeq := Suc (d_ifaceSeq d)\<rparr>)
      (iface_name (dc_Iface (d_cfg d)) (d_ifaceSeq d))) p))"
    have "iface_of ?fsm = iface_name (dc_Iface (d_cfg d)) (d_ifaceSeq d)" by (simp add: new_deps_def)
    then show thesis
      using assms False ps None by (intro added [OF ps None False, of ?fsm])
        (simp_all add: reconcile_one_def Let_def update_absent)
  next
    case (Some fsm)
    with assms False ps show thesis by (intro updated [OF ps Some False]) (simp add: reconcile_one_def)
  qed
qed

lemma daemon_ok_added:
  assumes "daemon_ok d" and "d_peers d = Some ps" and "map_of ps key = None"
    and "iface_of fsm = iface_name (dc_Iface (d_cfg d)) (d_ifaceSeq d)"
  shows "daemon_ok (d\<lparr>d_ifaceSeq := Suc (d_ifaceSeq d), d_peers := Some (ps @ [(key, fsm)])\<rparr>)"
proof -
  let ?d = "d\<lparr>d_ifaceSeq := Suc (d_ifaceSeq d), d_peers := Some (ps @ [(key, fsm)])\<rparr>"
  have new: "mset (ifaces ?d) = mset (iface_of fsm # ifaces d)"
    using assms(2) by (simp add: ifaces_def peer_list_def)
  have old: "distinct (map fst ps)" "distinct (ifaces d)"
    "\<forall>n \<in> set (ifaces d). \<exists>i < d_ifaceSeq d. n = iface_name (dc_Iface (d_cfg d)) i"
    using assms(1,2) by (simp_all add: daemon_ok_def peer_list_def)
  have "iface_of fsm \<notin> set (ifaces d)" using old(3) assms(4) by fastforce
  then have "distinct (ifaces ?d)" using old(2) mset_eq_imp_distinct_iff [OF new] by simp
  moreover have "\<forall>n \<in> set (ifaces ?d). \<exists>i < d_ifaceSeq ?d. n = iface_name (dc_Iface (d_cfg ?d)) i"
    unfolding mset_eq_setD [OF new] using old(3) assms(4) less_Suc_eq by auto
  moreover have "distinct (map fst (peer_list ?d))"
    using old(1) assms(3) by (simp add: peer_list_def map_of_eq_None_iff)
  ultimately show ?thesis by (simp add: daemon_ok_def)
qed

lemma reconcile_one_ok:
  assumes "daemon_ok d" and "reconcile_one p d = Some d'"
  shows "daemon_ok d'"
  using assms(2)
proof (cases rule: reconcile_one_cases)
  case (updated ps fsm)
  with assms(1) show ?thesis by (simp add: daemon_ok_replace)
next
  case (added ps fsm)
  with assms(1) show ?thesis by (simp add: daemon_ok_added)
qed (use assms(1) in simp)

lemma reconcile_loop_ok: "daemon_ok d \<Longrightarrow> reconcile_loop ps d = Some d' \<Longrightarrow> daemon_ok d'"
  by (induction ps arbitrary: d) (auto split: option.splits dest: reconcile_one_ok)

lemma mset_filter_split: "mset (map f (filter P xs)) + mset (map f (filter (\<lambda>x. \<not> P x) xs)) = mset (map f xs)"
  by (induction xs) auto

lemma drop_unseen_ok:
  assumes "daemon_ok d"
  shows "daemon_ok (drop_unseen peers d)"
proof (cases "d_peers d")
  case None
  with assms show ?thesis by (simp add: drop_unseen_def)
next
  case (Some ps)
  let ?P = "\<lambda>x :: byte list \<times> peerFSM. seen d peers (fst x)"
  have dist: "distinct (map fst ps)" using assms Some by (simp add: daemon_ok_def peer_list_def)
  have "mset (ifaces (drop_unseen peers d)) = mset (ifaces d)"
    using Some mset_filter_split [of "iface_of \<circ> snd" ?P ps]
    by (simp add: ifaces_def peer_list_def drop_unseen_def case_prod_unfold comp_def ac_simps)
  then show ?thesis
    using Some dist
    by (intro daemon_ok_cong [OF assms]) (simp_all add: drop_unseen_def peer_list_def distinct_map_filter)
qed

lemma reconcilePeers_ok: "daemon_ok d \<Longrightarrow> reconcilePeers peers d = Some d' \<Longrightarrow> daemon_ok d'"
  by (auto simp: reconcilePeers_def intro: drop_unseen_ok reconcile_loop_ok)

lemma shutdown_ok: "daemon_ok d \<Longrightarrow> daemon_ok (shutdown d)"
  by (rule daemon_ok_cong [of d])
    (auto simp: shutdown_def ifaces_def peer_list_def comp_def daemon_ok_def
      image_mset.compositionality split: option.split)

lemma disco_packet_ok: "daemon_ok d \<Longrightarrow> daemon_ok (disco_packet bx cd pkt ip port d)"
  by (auto simp: disco_packet_def intro: on_peer_ok split: sum.split)

lemma signal_envelope_ok: "daemon_ok d \<Longrightarrow> daemon_ok (signal_envelope bx cd sealed d)"
  by (auto simp: signal_envelope_def intro: on_peer_ok split: sum.split)

lemma signalPull_batch_ok: "daemon_ok d \<Longrightarrow> daemon_ok (signalPull_batch bx cd envs d)"
  by (induction envs arbitrary: d) (auto simp: signalPull_batch_def signal_envelope_ok)

lemma reconcile_loop_leaving: "reconcile_loop ps d = Some d' \<Longrightarrow> d_leaving d' = d_leaving d"
  by (induction ps arbitrary: d) (auto split: option.splits elim!: reconcile_one_cases)

section \<open>Reachable daemons\<close>

text \<open>The loops of \<open>Run\<close> as steps, each under the daemon's mutex, with the machines' own steps
  (which never change their dependencies) and the shutdown, for the name patterns whose
  expansion is modelled.\<close>

inductive daemon_step :: "Daemon \<Rightarrow> Daemon \<Rightarrow> bool" where
  reconcile: "reconcilePeers peers d = Some d' \<Longrightarrow> daemon_step d d'"
| packet: "daemon_step d (disco_packet bx cd pkt ip port d)"
| signals: "daemon_step d (signalPull_batch bx cd envs d)"
| machine: "(\<And>p. deps (f p) = deps p) \<Longrightarrow> daemon_step d (on_peer key f d)"
| halt: "daemon_step d (shutdown d)"

inductive daemon_reachable :: "Daemon \<Rightarrow> bool" where
  start: "plain_pattern (dc_Iface cfg) \<Longrightarrow>
    daemon_reachable ((New cfg nk dk)\<lparr>d_self := a, d_metrics := m, d_fouOwned := owned\<rparr>)"
| step: "daemon_reachable d \<Longrightarrow> daemon_step d d' \<Longrightarrow> daemon_reachable d'"

lemma daemon_reachable_ok: "daemon_reachable d \<Longrightarrow> daemon_ok d"
proof (induction rule: daemon_reachable.induct)
  case (start cfg nk dk a m owned)
  then show ?case by (simp add: daemon_ok_def ifaces_def peer_list_def New_def)
next
  case (step d d')
  from step(2,3) show ?case
    by cases (auto intro: reconcilePeers_ok disco_packet_ok signalPull_batch_ok on_peer_ok shutdown_ok)
qed

section \<open>Properties\<close>

text \<open>C6: No two peers share an interface: in every state of the daemon the machines of all peers,
  including those already told to stop whose teardown is still to come, have pairwise
  different interface names, for every name pattern with the verbs \<open>%d\<close> and \<open>%%\<close> (also
  without any). So a teardown never removes the tunnel of
  another peer.\<close>

theorem iface_names_unique:
  assumes "daemon_reachable d"
  shows "distinct (map (\<lambda>p. pd_ifaceName (deps p))
    ((case d_peers d of None \<Rightarrow> [] | Some ps \<Rightarrow> map snd ps) @ d_leaving d))"
proof -
  have "distinct (ifaces d)" using daemon_reachable_ok [OF assms] by (simp add: daemon_ok_def)
  then show ?thesis by (cases "d_peers d") (simp_all add: ifaces_def peer_list_def comp_def)
qed

lemma reconcile_one_key:
  assumes "reconcile_one p d = Some d'"
  shows "d_disco d' = d_disco d" and "d_peers d' = None \<longleftrightarrow> d_peers d = None"
    and "fst ` set (peer_list d') = fst ` set (peer_list d) \<union>
      (if rp_DiscoKey p = dk_Pub (d_disco d) then {} else {rp_DiscoKey p})"
  using assms
  by (cases rule: reconcile_one_cases; auto simp: peer_list_def dom_update insert_absorb
      dest: map_of_SomeD intro: rev_image_eqI)+

lemma handle_deps:
  assumes "handle nl fe ev p k = ((p', k'), effs)"
  shows "deps p' = deps p"
  using assms
  by (cases ev) (auto simp: onPeerUpdate_def startPunching_def setState_def onDiscoUDP_def onDiscoSignal_def absorbEndpoints_def
      onPong_def Let_def dest: bringUpTunnel_frame(8) split: if_splits)

lemma reconcile_loop_keys:
  assumes "reconcile_loop peers d = Some d'"
  shows "d_disco d' = d_disco d \<and> (d_peers d' = None \<longleftrightarrow> d_peers d = None) \<and>
    fst ` set (peer_list d') = fst ` set (peer_list d) \<union> {k. seen d peers k}"
  using assms
proof (induction peers arbitrary: d)
  case Nil
  then show ?case by (simp add: seen_def)
next
  case (Cons p peers)
  from Cons.prems obtain d1 where d1: "reconcile_one p d = Some d1" "reconcile_loop peers d1 = Some d'"
    by (auto split: option.splits)
  note one = reconcile_one_key [OF d1(1)]
  from Cons.IH [OF d1(2)] one show ?case by (auto simp: seen_def)
qed

lemma keys_filter: "fst ` set (filter (\<lambda>(k, _). Q k) xs) = {k \<in> fst ` set xs. Q k}"
  by (induction xs) auto

text \<open>After reconciling with the coordinator's list the daemon runs exactly one machine for each
  listed peer other than itself: the keys of its map are the listed disco keys without its
  own, each once. Machines of peers that left are told to stop.\<close>

theorem reconcile_tracks_list:
  assumes "daemon_reachable d" and "d_peers d = Some ps" and "reconcilePeers peers d = Some d'"
  shows "\<exists>ps'. d_peers d' = Some ps' \<and> distinct (map fst ps') \<and>
    fst ` set ps' = rp_DiscoKey ` set peers - {dk_Pub (d_disco d)} \<and>
    list_all stopped (drop (length (d_leaving d)) (d_leaving d'))"
proof -
  from assms(3) obtain d1 where d1: "reconcile_loop peers d = Some d1" "d' = drop_unseen peers d1"
    by (auto simp: reconcilePeers_def)
  from reconcile_loop_keys [OF d1(1)] assms(2) obtain ps1 where ps1: "d_peers d1 = Some ps1"
    "d_disco d1 = d_disco d" "fst ` set ps1 = fst ` set ps \<union> {k. seen d peers k}"
    by (auto simp: peer_list_def)
  have lv: "d_leaving d1 = d_leaving d"
    using d1(1) by (rule reconcile_loop_leaving)
  have "distinct (map fst (peer_list d'))"
    using daemon_reachable_ok [OF daemon_reachable.step [OF assms(1) daemon_step.reconcile [OF assms(3)]]]
    by (simp add: daemon_ok_def)
  moreover have "{k \<in> fst ` set ps1. seen d1 peers k} = rp_DiscoKey ` set peers - {dk_Pub (d_disco d)}"
    unfolding ps1(3) using ps1(2) by (auto simp: seen_def)
  moreover have "d_peers d' = Some (filter (\<lambda>(k, _). seen d1 peers k) ps1)"
    "d_leaving d' = d_leaving d @ map (stop \<circ> snd) (filter (\<lambda>(k, _). \<not> seen d1 peers k) ps1)"
    using ps1(1) lv by (simp_all add: d1(2) drop_unseen_def)
  ultimately show ?thesis
    by (simp add: peer_list_def keys_filter list_all_iff stop_def del: set_filter)
qed

lemma reconcilePeers_None_iff:
  "reconcilePeers peers d = None \<longleftrightarrow>
     d_peers d = None \<and> (\<exists>k. k \<in> rp_DiscoKey ` set peers - {dk_Pub (d_disco d)})"
proof -
  have one: "reconcile_one p d = None \<longleftrightarrow> d_peers d = None \<and> rp_DiscoKey p \<noteq> dk_Pub (d_disco d)" for p d
    by (auto simp: reconcile_one_def Let_def split: option.split)
  have "reconcile_loop peers d = None \<longleftrightarrow>
      d_peers d = None \<and> (\<exists>k. k \<in> rp_DiscoKey ` set peers - {dk_Pub (d_disco d)})"
  proof (induction peers arbitrary: d)
    case (Cons p peers)
    show ?case
    proof (cases "reconcile_one p d")
      case None
      then show ?thesis using one [of p d] by auto
    next
      case (Some d1)
      from reconcile_one_key(1,2) [OF Some] one [of p d] Some Cons.IH [of d1] show ?thesis by auto
    qed
  qed simp
  then show ?thesis by (simp add: reconcilePeers_def)
qed

text \<open>C28: Reconciling fails, by writing to a nil map, exactly when the daemon has been shut down and
  the list names a peer other than itself; before the shutdown it never does.\<close>

theorem reconcile_panics_iff:
  "reconcilePeers peers d = None \<longleftrightarrow>
     d_peers d = None \<and> (\<exists>k. k \<in> rp_DiscoKey ` set peers - {dk_Pub (d_disco d)})"
  by (rule reconcilePeers_None_iff)

subsection \<open>Messages\<close>

lemma update_same: "map_of xs k = Some v \<Longrightarrow> AList.update k v xs = xs"
  by (induction xs) (auto split: if_splits)

definition machine_of :: "Daemon \<Rightarrow> byte list \<Rightarrow> peerFSM option" where
  "machine_of d = map_of (peer_list d)"

lemma machine_of_on_peer:
  "machine_of (on_peer key f d) = (case machine_of d key of None \<Rightarrow> machine_of d | Some p \<Rightarrow> (machine_of d)(key \<mapsto> f p))"
  by (auto simp: machine_of_def peer_list_def on_peer_def update_conv' split: option.split)

lemma on_peer_absent: "machine_of d key = None \<Longrightarrow> on_peer key f d = d"
  by (auto simp: machine_of_def peer_list_def on_peer_def split: option.splits)

lemma inbox_eqs:
  "onUDP src body p = (if length (incoming p) < 32 then p\<lparr>incoming := incoming p @ [evUDP src body]\<rparr> else p)"
  "onSignal body p = (if length (incoming p) < 32 then p\<lparr>incoming := incoming p @ [evSignal body]\<rparr> else p)"
  by (simp_all add: onUDP_def onSignal_def try_send_def incomingCap_def)

text \<open>C29: Messages reach the machine of their sender and nothing else. A datagram on the disco socket
  that opens as an envelope of a peer with a machine is appended to that machine's inbox, with
  the address it came from, if fewer than 32 events wait there, and is dropped otherwise; an
  envelope from the relay likewise, as a signal. All other machines keep their state. A
  datagram or envelope that does not open, or whose sender has no machine, changes
  nothing.\<close>

theorem dispatch_by_sender:
  "(\<forall>sender body p. OpenEnvelope bx cd (take 2048 pkt) (d_disco d) = Inr (sender, body) \<longrightarrow> machine_of d sender = Some p \<longrightarrow>
      machine_of (disco_packet bx cd pkt ip port d) = (machine_of d)(sender \<mapsto>
        (if length (incoming p) < 32
         then p\<lparr>incoming := incoming p @ [evUDP (mustAddrFromIP ip, word_of_int port) body]\<rparr> else p))) \<and>
   ((\<forall>sender body. OpenEnvelope bx cd (take 2048 pkt) (d_disco d) = Inr (sender, body) \<longrightarrow> machine_of d sender = None) \<longrightarrow>
      disco_packet bx cd pkt ip port d = d) \<and>
   (\<forall>sender body p. OpenEnvelope bx cd sealed (d_disco d) = Inr (sender, body) \<longrightarrow> machine_of d sender = Some p \<longrightarrow>
      machine_of (signal_envelope bx cd sealed d) = (machine_of d)(sender \<mapsto>
        (if length (incoming p) < 32 then p\<lparr>incoming := incoming p @ [evSignal body]\<rparr> else p))) \<and>
   ((\<forall>sender body. OpenEnvelope bx cd sealed (d_disco d) = Inr (sender, body) \<longrightarrow> machine_of d sender = None) \<longrightarrow>
      signal_envelope bx cd sealed d = d)"
  by (auto simp: disco_packet_def signal_envelope_def machine_of_on_peer inbox_eqs on_peer_absent split: sum.splits)

definition demo_packet :: "byte list" where
  "demo_packet = (case BuildEnvelope demo_box demo_codec (Inr (replicate 24 0)) (demo_key 1) (dk_Pub (demo_key 2))
     (empty_body\<lparr>b_Type := MsgPing\<rparr>) of Inl _ \<Rightarrow> [] | Inr pkt \<Rightarrow> pkt)"

definition demo_receiver :: Daemon where
  "demo_receiver = (New \<lparr>dc_Coordinator = [] , dc_NodeName = [] , dc_StateDir = [] , dc_Iface = [] , dc_FOUPort = 7777,
       dc_DiscoAddr = [] , dc_STUNServers = [], dc_Aggressive = False, dc_MetricsAddr = [] \<rparr>
       \<lparr>nk_Priv = [], nk_Pub = []\<rparr> (demo_key 2))
     \<lparr>d_peers := Some [(dk_Pub (demo_key 1), newPeerFSM demo_deps demo_remote)]\<rparr>"

theorem dispatch_by_sender_witness:
  "map_option incoming (machine_of (disco_packet demo_box demo_codec demo_packet (Some [192, 0, 2, 1]) 4000 demo_receiver)
     (dk_Pub (demo_key 1))) = Some [evUDP (mustAddrFromIP (Some [192, 0, 2, 1]), 4000) (empty_body\<lparr>b_Type := MsgPing\<rparr>)] \<and>
   map_option incoming (machine_of (signal_envelope demo_box demo_codec demo_packet demo_receiver) (dk_Pub (demo_key 1))) =
     Some [evSignal (empty_body\<lparr>b_Type := MsgPing\<rparr>)]"
proof -
  let ?p = "newPeerFSM demo_deps demo_remote" and ?b = "empty_body\<lparr>b_Type := MsgPing\<rparr>"
  have d: "d_disco demo_receiver = demo_key 2" "machine_of demo_receiver (dk_Pub (demo_key 1)) = Some ?p" "incoming ?p = []"
    by (simp_all add: demo_receiver_def New_def machine_of_def peer_list_def newPeerFSM_def)
  have "OpenEnvelope demo_box demo_codec (take 2048 demo_packet) (demo_key 2) = Inr (dk_Pub (demo_key 1), ?b)"
    "OpenEnvelope demo_box demo_codec demo_packet (demo_key 2) = Inr (dk_Pub (demo_key 1), ?b)"
    by code_simp+
  with dispatch_by_sender [of demo_box demo_codec demo_packet demo_receiver "Some [192, 0, 2, 1]" 4000 demo_packet] d
  show ?thesis by simp
qed

subsection \<open>The daemon's own FOU port\<close>

text \<open>No step of the running daemon changes its configuration or whether it owns the port.\<close>

lemma reconcile_one_frame: "reconcile_one p d = Some d' \<Longrightarrow> d_fouOwned d' = d_fouOwned d \<and> d_cfg d' = d_cfg d"
  by (auto simp: reconcile_one_def Let_def split: if_splits option.splits)

lemma reconcile_loop_frame: "reconcile_loop ps d = Some d' \<Longrightarrow> d_fouOwned d' = d_fouOwned d \<and> d_cfg d' = d_cfg d"
  by (induction ps arbitrary: d) (auto split: option.splits dest: reconcile_one_frame)

lemma on_peer_frame [simp]: "d_fouOwned (on_peer key f d) = d_fouOwned d" "d_cfg (on_peer key f d) = d_cfg d"
  by (simp_all add: on_peer_def split: option.split)

lemma signal_envelope_frame [simp]:
  "d_fouOwned (signal_envelope bx cd sealed d) = d_fouOwned d" "d_cfg (signal_envelope bx cd sealed d) = d_cfg d"
  by (simp_all add: signal_envelope_def split: sum.split)

lemma signalPull_batch_frame:
  "d_fouOwned (signalPull_batch bx cd envs d) = d_fouOwned d \<and> d_cfg (signalPull_batch bx cd envs d) = d_cfg d"
  by (induction envs arbitrary: d) (simp_all add: signalPull_batch_def)

lemma reconcilePeers_frame:
  assumes "reconcilePeers peers d = Some d'"
  shows "d_fouOwned d' = d_fouOwned d \<and> d_cfg d' = d_cfg d"
proof -
  obtain d1 where "reconcile_loop peers d = Some d1" "d' = drop_unseen peers d1"
    using assms by (auto simp: reconcilePeers_def)
  with reconcile_loop_frame [OF this(1)] show ?thesis by (simp add: drop_unseen_def split: option.split)
qed

lemma daemon_step_frame: "daemon_step d d' \<Longrightarrow> d_fouOwned d' = d_fouOwned d \<and> d_cfg d' = d_cfg d"
  by (cases rule: daemon_step.cases)
    (auto simp: disco_packet_def shutdown_def signalPull_batch_frame
      dest: reconcilePeers_frame split: option.splits sum.splits)

lemma daemon_steps_frame: "daemon_step\<^sup>*\<^sup>* d d' \<Longrightarrow> d_fouOwned d' = d_fouOwned d \<and> d_cfg d' = d_cfg d"
  by (induction rule: rtranclp_induct) (auto dest: daemon_step_frame)

text \<open>C36: The daemon gives back the FOU port it opened, and no other. When its start fails at any
  point, the tables of links and FOU ports are as before. When it ends after a successful
  start, with the daemon's steps of any run in between and whatever the kernel's tables are by
  then, \<open>Run\<close> changes them only by removing the port of its configuration if that port was free
  before the start, provided it is still bound; a port that was bound before the start stays.
  (Assumes that the kernel removes a link or port that exists; the code ignores an error of
  the removal. The drivers of the machines, for which \<open>Run\<close> does not wait, delete their tunnels
  on their own.)\<close>

theorem run_returns_fou_port:
  assumes "netlink_cleanup nl links_of addrs_of fous_of"
    and "Run_start nl re d k = (r, k1)"
  shows "case r of
      Inl e \<Rightarrow> fous_of k1 = fous_of k \<and> links_of k1 = links_of k
    | Inr (d1, posted) \<Rightarrow>
        (\<forall>d2 k2. daemon_step\<^sup>*\<^sup>* d1 d2 \<longrightarrow>
           (let port = uint (dc_FOUPort (d_cfg d)); k3 = snd (Run_end nl d2 k2) in
            links_of k3 = links_of k2 \<and>
            (fous_of k port \<noteq> None \<longrightarrow> fous_of k3 = fous_of k2) \<and>
            (fous_of k port = None \<longrightarrow> fous_of k2 port \<noteq> None \<longrightarrow> fous_of k3 = (fous_of k2)(port := None))))"
proof -
  let ?port = "dc_FOUPort (d_cfg d)"
  have fou_laws: "netlink_fou_laws nl links_of addrs_of fous_of"
    using assms(1) by (simp add: netlink_cleanup_def)
  obtain q k0 where q: "EnsureFOU nl ?port EncapFOU k = (q, k0)" by fastforce
  note spec = netlink_fou_laws.EnsureFOU_spec [OF fou_laws q]
  note removes = netlink_cleanup.rollback_removes [OF assms(1)]
  have laws: "netlink_laws nl links_of addrs_of fous_of" using fou_laws by (simp add: netlink_fou_laws_def)
  have links: "links_of (rollbackFOU nl port k2) = links_of k2" for port k2
    using netlink_laws.fou_del [OF laws] netlink_laws.fou_del_err [OF laws]
    by (metis (no_types) option.exhaust prod.collapse rollbackFOU_def)
  have undo: "fous_of (cleanup_fou nl d1 k0) = fous_of k \<and> links_of (cleanup_fou nl d1 k0) = links_of k"
    if "q = Inr created" "d_fouOwned d1 = created" "dc_FOUPort (d_cfg d1) = ?port" for d1 created
    using that spec(1) spec(3,4) [OF that(1)] removes [of k0 ?port]
    by (cases created) (auto simp: cleanup_fou_def RemoveFOU_def fun_upd_idem)
  show ?thesis
  proof (cases r)
    case (Inl e)
    with assms(2) q spec undo show ?thesis by (auto simp: Run_start_def Let_def split: sum.splits)
  next
    case (Inr dp)
    then obtain d1 posted where r: "r = Inr (d1, posted)" by (cases dp) simp
    obtain created where d1: "q = Inr created" "d_fouOwned d1 = created" "d_cfg d1 = d_cfg d"
      using assms(2) q unfolding r by (auto simp: Run_start_def Let_def split: sum.splits)
    have "created \<longleftrightarrow> fous_of k (uint ?port) = None" using spec(4) [OF d1(1)] .
    then show ?thesis
      unfolding r using d1(2,3) removes links
      by (auto simp: Let_def Run_end_def cleanup_fou_def RemoveFOU_def dest: daemon_steps_frame)
  qed
qed

subsection \<open>A concrete daemon for the witnesses\<close>

definition demo_dcfg :: DaemonConfig where
  "demo_dcfg = \<lparr>dc_Coordinator = ''http://c:1'', dc_NodeName = ''a'', dc_StateDir = ''/s'', dc_Iface = '''',
     dc_FOUPort = 7777, dc_DiscoAddr = '''', dc_STUNServers = [],
     dc_Aggressive = False, dc_MetricsAddr = ''''\<rparr>"

definition demo_daemon :: Daemon where
  "demo_daemon = (New demo_dcfg \<lparr>nk_Priv = [], nk_Pub = []\<rparr> (demo_key 1))
     \<lparr>d_self := Addr4 0x64400001, d_metrics := False, d_fouOwned := True\<rparr>"

definition demo_listing :: "RemotePeer list" where
  "demo_listing = [demo_remote, demo_remote\<lparr>rp_DiscoKey := dk_Pub (demo_key 1)\<rparr>,
     demo_remote\<lparr>rp_DiscoKey := dk_Pub (demo_key 3)\<rparr>]"

lemma demo_daemon_reachable: "daemon_reachable demo_daemon"
  unfolding demo_daemon_def by (rule daemon_reachable.start) (simp add: demo_dcfg_def)

lemma demo_daemon_peers: "d_peers demo_daemon = Some []" "d_disco demo_daemon = demo_key 1"
  by (simp_all add: demo_daemon_def New_def)

lemma demo_reconciled: "reconcilePeers demo_listing demo_daemon \<noteq> None"
  by (subst reconcilePeers_def) code_simp

theorem reconcile_tracks_list_witness:
  "\<exists>d' ps'. reconcilePeers demo_listing demo_daemon = Some d' \<and> d_peers d' = Some ps' \<and>
     fst ` set ps' = {dk_Pub (demo_key 2), dk_Pub (demo_key 3)}"
proof -
  obtain d' where d': "reconcilePeers demo_listing demo_daemon = Some d'" using demo_reconciled by blast
  have keys: "rp_DiscoKey ` set demo_listing - {dk_Pub (d_disco demo_daemon)} =
      {dk_Pub (demo_key 2), dk_Pub (demo_key 3)}"
    by (auto simp: demo_listing_def demo_remote_def demo_daemon_peers demo_key_def)
  from reconcile_tracks_list [OF demo_daemon_reachable demo_daemon_peers(1) d'] d' show ?thesis
    unfolding keys by blast
qed

theorem iface_names_unique_witness:
  "\<exists>d'. reconcilePeers demo_listing demo_daemon = Some d' \<and>
     distinct (map (\<lambda>p. pd_ifaceName (deps p))
       ((case d_peers d' of None \<Rightarrow> [] | Some ps \<Rightarrow> map snd ps) @ d_leaving d'))"
proof -
  obtain d' where d': "reconcilePeers demo_listing demo_daemon = Some d'" using demo_reconciled by blast
  from iface_names_unique [OF daemon_reachable.step [OF demo_daemon_reachable daemon_step.reconcile [OF d']]] d'
  show ?thesis by blast
qed

definition demo_run_env :: run_env where
  "demo_run_env = \<lparr>re_listen = (\<lambda>_. Inr 4000), re_ifaddrs = [], re_stun = (\<lambda>_. Inl (EMsg ''timeout'')),
     re_register = demo_ce\<lparr>ce_do := (\<lambda>_. Inl (EMsg ''connection refused''))\<rparr>, re_post = demo_ce\<rparr>"

definition demo_offline :: client_env where
  "demo_offline = demo_ce\<lparr>ce_new := (\<lambda>_ _ _. Inl (EMsg ''offline''))\<rparr>"

lemma demo_run_starts:
  "\<exists>d1 posted k1. Run_start (demo_nl no_errs) (demo_run_env\<lparr>re_register := demo_ce, re_post := demo_offline\<rparr>) demo_daemon newMockNetlinker =
     (Inr (d1, posted), k1) \<and> m_fous k1 7777 \<noteq> None"
proof -
  have cfg: "dc_DiscoAddr (d_cfg demo_daemon) = []" "dc_FOUPort (d_cfg demo_daemon) = 7777"
    by (simp_all add: demo_daemon_def New_def demo_dcfg_def)
  have "case EnsureFOU (demo_nl no_errs) 7777 EncapFOU newMockNetlinker of
      (Inl e, _) \<Rightarrow> False | (Inr _, k1) \<Rightarrow> m_fous k1 7777 \<noteq> None"
    by code_simp
  moreover have "client_Register (d_client demo_daemon) demo_ce name = Inr ([], [])" for name
    by (simp add: client_Register_def demo_ce_def demo_new_def)
  ultimately show ?thesis
    by (auto simp: Run_start_def Let_def demo_run_env_def cfg split: prod.splits sum.splits)
qed

theorem run_returns_fou_port_witness:
  "\<exists>d1 posted k1. Run_start (demo_nl no_errs) (demo_run_env\<lparr>re_register := demo_ce, re_post := demo_offline\<rparr>) demo_daemon newMockNetlinker =
     (Inr (d1, posted), k1) \<and> m_fous k1 7777 \<noteq> None \<and> m_fous (snd (Run_end (demo_nl no_errs) (shutdown d1) k1)) 7777 = None"
proof -
  obtain d1 posted k1 where r: "Run_start (demo_nl no_errs) (demo_run_env\<lparr>re_register := demo_ce, re_post := demo_offline\<rparr>) demo_daemon newMockNetlinker =
      (Inr (d1, posted), k1)" "m_fous k1 7777 \<noteq> None"
    using demo_run_starts by blast
  have port: "dc_FOUPort (d_cfg demo_daemon) = 7777" by (simp add: demo_daemon_def New_def demo_dcfg_def)
  have run: "daemon_step\<^sup>*\<^sup>* d1 (shutdown d1)" by (intro r_into_rtranclp daemon_step.halt)
  have "m_fous newMockNetlinker 7777 = None" by (simp add: newMockNetlinker_def)
  with run_returns_fou_port [OF clean.netlink_cleanup_axioms r(1)] run r(2) port
  have "m_fous (snd (Run_end (demo_nl no_errs) (shutdown d1) k1)) = (m_fous k1)(7777 := None)"
    by (auto simp: Let_def)
  with r show ?thesis by auto
qed

end
