(* ===== verification/Daemon_Loops.thy ===== *)
theory Daemon_Loops
  imports Daemon_Run
begin

text \<open>
  The loops that \<open>Run\<close> starts, \<open>internal/daemon/daemon.go\<close>. Each loop is a function of what
  its rounds obtain from outside (reads of the disco socket, replies of the coordinator,
  ticks), one list element per round, over the daemon's state; a loop whose rounds are used up
  is still running. The lemmas show that every loop acts by steps of the daemon, so that its
  invariants hold throughout, and the property says what the polling loop achieves.
\<close>

datatype loop_status = LoopRunning | LoopReturned | LoopFailed goerror

section \<open>The disco socket\<close>

text \<open>A round: the call that sets the deadline, the error of the read (with \<open>Timeout()\<close>) or the
  datagram and its source, and the context after the read.\<close>

record disco_read =
  dr_SetReadDeadline :: "goerror option"
  dr_ReadFrom :: "goerror \<times> bool + byte list \<times> goip \<times> int"
  dr_ctx :: ctx

fun discoReadLoop :: "box \<Rightarrow> body_codec \<Rightarrow> disco_read list \<Rightarrow> Daemon \<Rightarrow> loop_status \<times> Daemon" where
  "discoReadLoop bx cd [] d = (LoopRunning, d)"
| "discoReadLoop bx cd (r # rs) d =
     (case dr_SetReadDeadline r of
        Some e \<Rightarrow> (LoopFailed e, d)
      | None \<Rightarrow>
          (if dr_ctx r \<noteq> None then (LoopReturned, d)
           else case dr_ReadFrom r of
             Inl (e, timeout) \<Rightarrow>
               (if timeout then discoReadLoop bx cd rs d
                else (LoopFailed (EWrap ''disco read: %w'' [] e), d))
           | Inr (pkt, ip, port) \<Rightarrow> discoReadLoop bx cd rs (disco_packet bx cd pkt ip port d)))"

section \<open>Relayed signals\<close>

text \<open>A round: the context at the head of the loop, the reply to \<open>PullSignals\<close>, the context after an
  error.\<close>

record pull_round =
  pu_ctx :: ctx
  pu_PullSignals :: "byte list list res"
  pu_ctx_after :: ctx

fun signalPullLoop :: "box \<Rightarrow> body_codec \<Rightarrow> pull_round list \<Rightarrow> Daemon \<Rightarrow> loop_status \<times> Daemon" where
  "signalPullLoop bx cd [] d = (LoopRunning, d)"
| "signalPullLoop bx cd (r # rs) d =
     (if pu_ctx r \<noteq> None then (LoopReturned, d)
      else case pu_PullSignals r of
        Inl e \<Rightarrow> (if pu_ctx_after r \<noteq> None then (LoopReturned, d) else signalPullLoop bx cd rs d)
      | Inr sealedEnvs \<Rightarrow> signalPullLoop bx cd rs (signalPull_batch bx cd sealedEnvs d))"

section \<open>The peer list\<close>

text \<open>A round: the context at the head, the reply to \<open>Peers\<close> for an etag, the context after an error, and
  what the rest of the daemon does, until the loop takes the daemon's lock, while the call is
  under way: the other loops, the machines, and also \<open>shutdown\<close>, since \<open>Run\<close> does not wait for its
  loops. The whole result is \<open>None\<close> when the reconciliation panics.\<close>

record poll_round =
  pp_ctx :: ctx
  pp_Peers :: "string \<Rightarrow> (RemotePeer list \<times> string) res"
  pp_ctx_after :: ctx
  pp_others :: "Daemon \<Rightarrow> Daemon"

fun peersPollLoop :: "poll_round list \<Rightarrow> string \<Rightarrow> Daemon \<Rightarrow> (loop_status \<times> string \<times> Daemon) option" where
  "peersPollLoop [] etag d = Some (LoopRunning, etag, d)"
| "peersPollLoop (r # rs) etag d =
     (if pp_ctx r \<noteq> None then Some (LoopReturned, etag, d)
      else case pp_Peers r etag of
        Inl e \<Rightarrow>
          (if pp_ctx_after r \<noteq> None then Some (LoopReturned, etag, pp_others r d)
           else peersPollLoop rs etag (pp_others r d))
      | Inr (peers, newEtag) \<Rightarrow>
          (case reconcilePeers peers (pp_others r d) of
             None \<Rightarrow> None
           | Some d' \<Rightarrow> peersPollLoop rs newEtag d'))"

section \<open>Endpoints\<close>

text \<open>A round: whether the context ends the loop, and what the collection of endpoints finds on a
  tick. The result is the list of endpoints posted to the coordinator; a round whose
  collection fails posts nothing, also when it found local addresses.\<close>

record refresh_round =
  rf_done :: bool
  rf_ifaddrs :: "ifaddr list"
  rf_stun :: "addrport res"

fun refreshLoop :: "refresh_round list \<Rightarrow> int \<Rightarrow> loop_status \<times> RemoteEndpoint list list" where
  "refreshLoop [] port = (LoopRunning, [])"
| "refreshLoop (r # rs) port =
     (if rf_done r then (LoopReturned, [])
      else case collectEndpoints (rf_ifaddrs r) (rf_stun r) port of
        (eps, Some e) \<Rightarrow> refreshLoop rs port
      | (eps, None) \<Rightarrow> apsnd ((#) eps) (refreshLoop rs port))"

section \<open>The end of Run\<close>

text \<open>What the final select takes: the end of the context, or an error that a loop has sent. Either
  way the machines are told to stop and the deferred clean-up runs.\<close>

datatype run_wake = CtxDone | LoopErr goerror

definition Run_finish :: "'k Netlinker \<Rightarrow> run_wake \<Rightarrow> Daemon \<Rightarrow> 'k \<Rightarrow> goerror option \<times> Daemon \<times> 'k" where
  "Run_finish nl w d k =
     (case w of
        CtxDone \<Rightarrow> (None, Run_end nl d k)
      | LoopErr e \<Rightarrow> (Some e, Run_end nl d k))"

section \<open>Lemmas\<close>

lemma discoReadLoop_reachable: "daemon_reachable d \<Longrightarrow> daemon_reachable (snd (discoReadLoop bx cd rs d))"
  by (induction rs arbitrary: d)
    (auto split: option.splits sum.splits intro: daemon_reachable.step daemon_step.packet)

lemma signalPullLoop_reachable: "daemon_reachable d \<Longrightarrow> daemon_reachable (snd (signalPullLoop bx cd rs d))"
  by (induction rs arbitrary: d)
    (auto split: sum.splits intro: daemon_reachable.step daemon_step.signals)

lemma refresh_posts_stun:
  "eps \<in> set (snd (refreshLoop rs port)) \<Longrightarrow> eps \<noteq> [] \<and> re_Source (last eps) = ''stun''"
  by (induction rs) (auto simp: collectEndpoints_def Let_def split: if_splits sum.splits prod.splits)

lemma peersPollLoop_append:
  "peersPollLoop (rs @ qs) etag d =
     (case peersPollLoop rs etag d of
        None \<Rightarrow> None
      | Some (LoopRunning, etag', d') \<Rightarrow> peersPollLoop qs etag' d'
      | Some r \<Rightarrow> Some r)"
  by (induction rs arbitrary: etag d) (auto split: sum.splits option.splits prod.splits loop_status.splits)

lemma reconcile_alive:
  assumes "daemon_reachable d" and "d_peers d = Some ps"
  obtains d' ps' where "reconcilePeers peers d = Some d'" "daemon_reachable d'" "d_peers d' = Some ps'"
    "d_disco d' = d_disco d" "distinct (map fst ps')"
    "fst ` set ps' = rp_DiscoKey ` set peers - {dk_Pub (d_disco d)}"
proof -
  obtain d' where d': "reconcilePeers peers d = Some d'"
    using reconcilePeers_None_iff [of peers d] assms(2) by (cases "reconcilePeers peers d") auto
  have "d_disco d' = d_disco d"
    using d' by (auto simp: reconcilePeers_def drop_unseen_def dest!: reconcile_loop_keys split: option.splits)
  with reconcile_tracks_list [OF assms d'] d' daemon_reachable.step [OF assms(1) daemon_step.reconcile [OF d']]
  show thesis using that by blast
qed

text \<open>What the rest of the daemon does is a run of its steps.\<close>

definition others_run :: "poll_round \<Rightarrow> bool" where
  "others_run r \<longleftrightarrow> (\<forall>d. daemon_step\<^sup>*\<^sup>* d (pp_others r d))"

lemma daemon_steps_reachable: "daemon_step\<^sup>*\<^sup>* d d' \<Longrightarrow> daemon_reachable d \<Longrightarrow> daemon_reachable d'"
  by (induction rule: rtranclp_induct) (auto intro: daemon_reachable.step)

lemma reconcilePeers_disco: "reconcilePeers peers d = Some d' \<Longrightarrow> d_disco d' = d_disco d"
  by (auto simp: reconcilePeers_def drop_unseen_def dest!: reconcile_loop_keys split: option.splits)

lemma signalPull_batch_disco [simp]: "d_disco (signalPull_batch bx cd envs d) = d_disco d"
  by (induction envs arbitrary: d)
    (simp_all add: signalPull_batch_def signal_envelope_def on_peer_def split: sum.split option.split)

lemma daemon_steps_disco: "daemon_step\<^sup>*\<^sup>* d d' \<Longrightarrow> d_disco d' = d_disco d"
proof (induction rule: rtranclp_induct)
  case (step d1 d2)
  from step.hyps(2) have "d_disco d2 = d_disco d1"
    by (cases rule: daemon_step.cases)
      (auto simp: disco_packet_def on_peer_def shutdown_def dest: reconcilePeers_disco split: sum.split option.split)
  with step.IH show ?case by simp
qed simp

lemma others_runD:
  assumes "others_run r"
  shows "daemon_reachable d \<Longrightarrow> daemon_reachable (pp_others r d)" "d_disco (pp_others r d) = d_disco d"
  using assms daemon_steps_reachable [of d "pp_others r d"] daemon_steps_disco [of d "pp_others r d"]
  by (simp_all add: others_run_def)

lemma peersPollLoop_keeps:
  assumes "peersPollLoop rs etag d = Some (st, etag', d')" and "daemon_reachable d" and "list_all others_run rs"
  shows "daemon_reachable d' \<and> d_disco d' = d_disco d"
  using assms
proof (induction rs arbitrary: etag d)
  case (Cons r rs)
  have env: "daemon_reachable (pp_others r d)" "d_disco (pp_others r d) = d_disco d"
    using Cons.prems(2,3) others_runD [of r d] by simp_all
  have rec: "daemon_reachable d1 \<and> d_disco d1 = d_disco d" if "reconcilePeers peers (pp_others r d) = Some d1" for peers d1
    using that env daemon_reachable.step daemon_step.reconcile reconcilePeers_disco by metis
  from Cons env rec show ?case by (auto split: if_splits sum.splits option.splits)
qed simp

text \<open>The round in which a loop panics.\<close>

lemma peersPollLoop_None_split:
  "peersPollLoop rs etag d = None \<longleftrightarrow>
     (\<exists>qs q rest etag' d' peers etag''. rs = qs @ q # rest \<and>
        peersPollLoop qs etag d = Some (LoopRunning, etag', d') \<and> pp_ctx q = None \<and>
        pp_Peers q etag' = Inr (peers, etag'') \<and> reconcilePeers peers (pp_others q d') = None)"
proof
  assume "peersPollLoop rs etag d = None"
  then show "\<exists>qs q rest etag' d' peers etag''. rs = qs @ q # rest \<and>
      peersPollLoop qs etag d = Some (LoopRunning, etag', d') \<and> pp_ctx q = None \<and>
      pp_Peers q etag' = Inr (peers, etag'') \<and> reconcilePeers peers (pp_others q d') = None"
  proof (induction rs rule: rev_induct)
    case (snoc q rs)
    show ?case
    proof (cases "peersPollLoop rs etag d")
      case None
      with snoc.IH obtain qs q' rest where "rs = qs @ q' # rest"
        "\<exists>etag' d' peers etag''. peersPollLoop qs etag d = Some (LoopRunning, etag', d') \<and> pp_ctx q' = None \<and>
           pp_Peers q' etag' = Inr (peers, etag'') \<and> reconcilePeers peers (pp_others q' d') = None"
        by blast
      then show ?thesis by (intro exI [of _ qs] exI [of _ q'] exI [of _ "rest @ [q]"]) simp
    next
      case (Some x)
      obtain st etag' d' where x: "x = (st, etag', d')" by (metis prod_cases3)
      from snoc.prems Some have "st = LoopRunning" "peersPollLoop [q] etag' d' = None"
        by (cases st; simp add: x peersPollLoop_append del: peersPollLoop.simps)+
      then obtain peers etag'' where "pp_ctx q = None" "pp_Peers q etag' = Inr (peers, etag'')"
        "reconcilePeers peers (pp_others q d') = None"
        by (auto split: if_splits sum.splits option.splits)
      with Some [unfolded x \<open>st = LoopRunning\<close>] show ?thesis by blast
    qed
  qed simp
qed (auto simp: peersPollLoop_append)

lemma peersPollLoop_None_iff:
  assumes "daemon_reachable d" and "list_all others_run rs"
  shows "peersPollLoop rs etag d = None \<longleftrightarrow>
    (\<exists>qs q rest etag' d' peers etag''. rs = qs @ q # rest \<and>
       peersPollLoop qs etag d = Some (LoopRunning, etag', d') \<and> pp_ctx q = None \<and>
       pp_Peers q etag' = Inr (peers, etag'') \<and> d_peers (pp_others q d') = None \<and>
       rp_DiscoKey ` set peers - {dk_Pub (d_disco d)} \<noteq> {})"
proof -
  have panic: "reconcilePeers peers (pp_others q d') = None \<longleftrightarrow>
      d_peers (pp_others q d') = None \<and> rp_DiscoKey ` set peers - {dk_Pub (d_disco d)} \<noteq> {}"
    if "rs = qs @ q # rest" "peersPollLoop qs etag d = Some (LoopRunning, etag', d')" for qs q rest etag' d' peers
  proof -
    have "d_disco d' = d_disco d" "others_run q"
      using peersPollLoop_keeps [OF that(2) assms(1)] assms(2) that(1) by auto
    then have "d_disco (pp_others q d') = d_disco d" using others_runD(2) by simp
    then show ?thesis using reconcilePeers_None_iff [of peers "pp_others q d'"] by auto
  qed
  show ?thesis
    unfolding peersPollLoop_None_split [of rs] by (intro iff_exI conj_cong refl) (rule panic)
qed

section \<open>Property\<close>

text \<open>C11: The polling loop keeps the daemon's machines in step with the coordinator, with everything
  else in the daemon going on. Whenever a round gets a list while the daemon has not been shut
  down, the daemon afterwards runs exactly one machine for each listed peer other than itself,
  whatever the rounds before it were, and the next round asks with the etag of that list. The
  loop panics exactly in a round that gets a list naming another peer after the daemon has
  been shut down, which happens when the reply arrives while \<open>Run\<close> is ending.\<close>

theorem poll_loop_tracks_list:
  assumes "daemon_reachable d" and "list_all others_run rounds" and "others_run r"
  shows "(\<forall>etag' d' peers etag'' ps. peersPollLoop rounds etag d = Some (LoopRunning, etag', d') \<longrightarrow>
      pp_ctx r = None \<longrightarrow> pp_Peers r etag' = Inr (peers, etag'') \<longrightarrow> d_peers (pp_others r d') = Some ps \<longrightarrow>
      (\<exists>d'' ps''. peersPollLoop (rounds @ [r]) etag d = Some (LoopRunning, etag'', d'') \<and>
         d_peers d'' = Some ps'' \<and> distinct (map fst ps'') \<and>
         fst ` set ps'' = rp_DiscoKey ` set peers - {dk_Pub (d_disco d)})) \<and>
    (peersPollLoop rounds etag d = None \<longleftrightarrow>
      (\<exists>qs q rest etag' d' peers etag''. rounds = qs @ q # rest \<and>
         peersPollLoop qs etag d = Some (LoopRunning, etag', d') \<and> pp_ctx q = None \<and>
         pp_Peers q etag' = Inr (peers, etag'') \<and> d_peers (pp_others q d') = None \<and>
         rp_DiscoKey ` set peers - {dk_Pub (d_disco d)} \<noteq> {}))"
proof (intro conjI allI impI)
  fix etag' d' peers etag'' ps
  assume run: "peersPollLoop rounds etag d = Some (LoopRunning, etag', d')" "pp_ctx r = None"
    "pp_Peers r etag' = Inr (peers, etag'')" "d_peers (pp_others r d') = Some ps"
  note keeps = peersPollLoop_keeps [OF run(1) assms(1,2)]
  have "daemon_reachable (pp_others r d')" "d_disco (pp_others r d') = d_disco d"
    using keeps others_runD [OF assms(3)] by simp_all
  with reconcile_alive [OF this(1) run(4), of peers]
  obtain d'' ps'' where "reconcilePeers peers (pp_others r d') = Some d''" "d_peers d'' = Some ps''"
    "distinct (map fst ps'')" "fst ` set ps'' = rp_DiscoKey ` set peers - {dk_Pub (d_disco d)}"
    by metis
  with run show "\<exists>d'' ps''. peersPollLoop (rounds @ [r]) etag d = Some (LoopRunning, etag'', d'') \<and>
      d_peers d'' = Some ps'' \<and> distinct (map fst ps'') \<and>
      fst ` set ps'' = rp_DiscoKey ` set peers - {dk_Pub (d_disco d)}"
    by (simp add: peersPollLoop_append)
next
  show "peersPollLoop rounds etag d = None \<longleftrightarrow>
      (\<exists>qs q rest etag' d' peers etag''. rounds = qs @ q # rest \<and>
         peersPollLoop qs etag d = Some (LoopRunning, etag', d') \<and> pp_ctx q = None \<and>
         pp_Peers q etag' = Inr (peers, etag'') \<and> d_peers (pp_others q d') = None \<and>
         rp_DiscoKey ` set peers - {dk_Pub (d_disco d)} \<noteq> {})"
    by (rule peersPollLoop_None_iff [OF assms(1,2)])
qed

definition demo_poll :: "(RemotePeer list \<times> string) res \<Rightarrow> poll_round" where
  "demo_poll reply = \<lparr>pp_ctx = None, pp_Peers = (\<lambda>_. reply), pp_ctx_after = None, pp_others = (\<lambda>d. d)\<rparr>"

theorem poll_loop_tracks_list_witness:
  "\<exists>d'' ps''. peersPollLoop [demo_poll (Inl (EMsg ''timeout'')), demo_poll (Inr (demo_listing, ''e1''))] [] demo_daemon =
       Some (LoopRunning, ''e1'', d'') \<and> d_peers d'' = Some ps'' \<and>
     fst ` set ps'' = rp_DiscoKey ` set demo_listing - {dk_Pub (d_disco demo_daemon)} \<and>
     peersPollLoop [demo_poll (Inl (EMsg ''timeout''))] [] demo_daemon \<noteq> None"
proof -
  have others: "others_run (demo_poll reply)" for reply by (simp add: others_run_def demo_poll_def)
  have first: "peersPollLoop [demo_poll (Inl (EMsg ''timeout''))] [] demo_daemon = Some (LoopRunning, [], demo_daemon)"
    by (simp add: demo_poll_def)
  have second: "pp_ctx (demo_poll (Inr (demo_listing, ''e1''))) = None"
    "pp_Peers (demo_poll (Inr (demo_listing, ''e1''))) [] = Inr (demo_listing, ''e1'')"
    "d_peers (pp_others (demo_poll (Inr (demo_listing, ''e1''))) demo_daemon) = Some []"
    by (simp_all add: demo_poll_def demo_daemon_peers)
  have rounds: "list_all others_run [demo_poll (Inl (EMsg ''timeout''))]" by (simp add: others)
  note tracks = poll_loop_tracks_list [OF demo_daemon_reachable rounds others, of "[]", THEN conjunct1,
      rule_format, OF first second(1,2,3)]
  show ?thesis using tracks first by (metis append_Cons append_Nil option.distinct(1))
qed

text \<open>A round of the reading loop after which it goes on, and the error a round sends.\<close>

definition quiet_round :: "disco_read \<Rightarrow> bool" where
  "quiet_round r \<longleftrightarrow> dr_SetReadDeadline r = None \<and> dr_ctx r = None \<and>
     (case dr_ReadFrom r of Inl (e, timeout) \<Rightarrow> timeout | Inr _ \<Rightarrow> True)"

definition round_error :: "disco_read \<Rightarrow> goerror option" where
  "round_error r =
     (case dr_SetReadDeadline r of
        Some e \<Rightarrow> Some e
      | None \<Rightarrow>
          (if dr_ctx r \<noteq> None then None
           else case dr_ReadFrom r of
             Inl (e, False) \<Rightarrow> Some (EWrap ''disco read: %w'' [] e)
           | _ \<Rightarrow> None))"

lemma discoReadLoop_failed:
  "fst (discoReadLoop bx cd rs d) = LoopFailed e \<longleftrightarrow>
     (\<exists>qs r rest. rs = qs @ r # rest \<and> list_all quiet_round qs \<and> round_error r = Some e)"
proof (induction rs arbitrary: d)
  case (Cons a rs)
  show ?case
  proof (cases "quiet_round a")
    case True
    then obtain d' where d': "discoReadLoop bx cd (a # rs) d = discoReadLoop bx cd rs d'"
      by (auto simp: quiet_round_def split: sum.splits)
    have "round_error a = None" using True by (auto simp: quiet_round_def round_error_def split: sum.splits)
    then have "(\<exists>qs r rest. a # rs = qs @ r # rest \<and> list_all quiet_round qs \<and> round_error r = Some e) \<longleftrightarrow>
      (\<exists>qs r rest. rs = qs @ r # rest \<and> list_all quiet_round qs \<and> round_error r = Some e)"
      using True by (auto simp: Cons_eq_append_conv) (metis append_Cons list.pred_inject(2))+
    then show ?thesis unfolding d' using Cons.IH by blast
  next
    case False
    then have "fst (discoReadLoop bx cd (a # rs) d) = LoopFailed e \<longleftrightarrow> round_error a = Some e"
      by (auto simp: quiet_round_def round_error_def split: sum.splits option.splits bool.splits)
    moreover have "(\<exists>qs r rest. a # rs = qs @ r # rest \<and> list_all quiet_round qs \<and> round_error r = Some e) \<longleftrightarrow>
      round_error a = Some e"
      using False by (auto simp: Cons_eq_append_conv intro: exI [of _ "[]"])
    ultimately show ?thesis by blast
  qed
qed simp

lemma peersPollLoop_not_failed: "peersPollLoop rs etag d = Some (LoopFailed e, etag', d') \<Longrightarrow> False"
  by (induction rs arbitrary: etag d) (auto split: sum.splits option.splits if_splits)

lemma signalPullLoop_not_failed: "fst (signalPullLoop bx cd rs d) \<noteq> LoopFailed e"
  by (induction rs arbitrary: d) (auto split: sum.splits)

lemma refreshLoop_not_failed: "fst (refreshLoop rs port) \<noteq> LoopFailed e"
  by (induction rs) (auto split: prod.splits option.splits)

text \<open>C30: The daemon survives every failure of the coordinator: the loops that talk to it never report
  an error, whatever the replies are, so the only thing that can end a running daemon before
  its context does is its own socket. There the reading loop fails exactly at the first
  round, after rounds that were packets or timeouts, in which the deadline cannot be set or a
  read with a live context fails other than by a timeout; \<open>Run\<close> then returns that error.\<close>

theorem coordinator_failures_survived:
  "fst (signalPullLoop bx cd pulls d) \<noteq> LoopFailed e \<and>
   fst (refreshLoop refreshes port) \<noteq> LoopFailed e \<and>
   (\<nexists>etag' d'. peersPollLoop polls etag d = Some (LoopFailed e, etag', d')) \<and>
   (fst (discoReadLoop bx cd reads d) = LoopFailed e \<longleftrightarrow>
      (\<exists>qs r rest. reads = qs @ r # rest \<and> list_all quiet_round qs \<and> round_error r = Some e)) \<and>
   fst (Run_finish nl (LoopErr e) d k) = Some e \<and> fst (Run_finish nl CtxDone d k) = None"
  using peersPollLoop_not_failed [of polls etag d e]
  by (auto simp: signalPullLoop_not_failed refreshLoop_not_failed discoReadLoop_failed Run_finish_def)

end
