(* ===== verification/Daemon_Metrics.thy ===== *)
theory Daemon_Metrics
  imports Daemon_Loops
begin

text \<open>
  What the daemon publishes about itself, \<open>internal/daemon/metrics.go\<close> and the loop
  \<open>metricsUpdateLoop\<close> of \<open>daemon.go\<close>. Prometheus is a library: a collector is the value its
  constructor gets, a registry is an argument with its registration function, and a metric
  that is written is the call that the code makes.
\<close>

section \<open>Collectors\<close>

record opts =
  op_Namespace :: string
  op_Name :: string
  op_Help :: string

text \<open>The buckets of the histogram are in milliseconds.\<close>

datatype collector =
    GaugeVec opts "string list"
  | Counter opts
  | Histogram opts "duration list"

record Metrics =
  mx_PeersByState :: collector
  mx_DiscoPingsSent :: collector
  mx_DiscoPongsRecv :: collector
  mx_HolePunchDuration :: collector

definition metric_handles :: Metrics where
  "metric_handles =
     \<lparr>mx_PeersByState = GaugeVec \<lparr>op_Namespace = ''gretun'', op_Name = ''peers'',
          op_Help = ''Number of peers in each FSM state.''\<rparr> [''state''],
      mx_DiscoPingsSent = Counter \<lparr>op_Namespace = ''gretun'', op_Name = ''disco_pings_sent_total'',
          op_Help = ''Disco ping messages emitted on the disco socket.''\<rparr>,
      mx_DiscoPongsRecv = Counter \<lparr>op_Namespace = ''gretun'', op_Name = ''disco_pongs_received_total'',
          op_Help = ''Disco pong messages accepted from a peer.''\<rparr>,
      mx_HolePunchDuration = Histogram \<lparr>op_Namespace = ''gretun'', op_Name = ''hole_punch_duration_seconds'',
          op_Help = ''Elapsed wall time from entering `punching` to reaching `direct`.''\<rparr>
        [250, 500, 1000, 2000, 5000, 10000, 30000]\<rparr>"

text \<open>\<open>MustRegister\<close> registers in order and panics, here \<open>None\<close>, at the first failure.\<close>

fun MustRegister :: "(collector \<Rightarrow> 'r \<Rightarrow> 'r option) \<Rightarrow> collector list \<Rightarrow> 'r \<Rightarrow> 'r option" where
  "MustRegister register [] reg = Some reg"
| "MustRegister register (c # cs) reg =
     (case register c reg of None \<Rightarrow> None | Some reg' \<Rightarrow> MustRegister register cs reg')"

definition metric_list :: "Metrics \<Rightarrow> collector list" where
  "metric_list m = [mx_PeersByState m, mx_DiscoPingsSent m, mx_DiscoPongsRecv m, mx_HolePunchDuration m]"

definition NewMetrics ::
  "(collector \<Rightarrow> 'r \<Rightarrow> 'r option) \<Rightarrow> 'r option \<Rightarrow> (Metrics \<times> 'r option) option" where
  "NewMetrics register reg =
     (let m = metric_handles in
      case reg of
        None \<Rightarrow> Some (m, None)
      | Some r \<Rightarrow>
          map_option (\<lambda>r'. (m, Some r')) (MustRegister register (metric_list m) r))"

section \<open>The gauge of peer states\<close>

text \<open>The Go map \<open>counts\<close>: its literal, and the increment, which adds a key that is missing.\<close>

definition counts_init :: "(string \<times> nat) list" where
  "counts_init = [(''unknown'', 0), (''have_endpoints'', 0), (''punching'', 0), (''direct'', 0), (''relay'', 0)]"

definition count_one :: "peerFSM \<Rightarrow> (string \<times> nat) list \<Rightarrow> (string \<times> nat) list" where
  "count_one p counts =
     (let s = peerState_String (state p) in
      AList.update s (Suc (case map_of counts s of None \<Rightarrow> 0 | Some n \<Rightarrow> n)) counts)"

definition peer_state_counts :: "Daemon \<Rightarrow> (string \<times> nat) list" where
  "peer_state_counts d = fold count_one (map snd (peer_list d)) counts_init"

text \<open>A round of the loop: whether the context has ended, the daemon at the tick, and the order in
  which the map is visited, a permutation of it. The result is the list of the calls
  \<open>WithLabelValues(s).Set(n)\<close> of each tick.\<close>

record metrics_round =
  mt_done :: bool
  mt_daemon :: Daemon
  mt_visit :: "(string \<times> nat) list \<Rightarrow> (string \<times> nat) list"

definition metrics_tick :: "metrics_round \<Rightarrow> (string \<times> nat) list" where
  "metrics_tick r = mt_visit r (peer_state_counts (mt_daemon r))"

fun metrics_loop :: "metrics_round list \<Rightarrow> loop_status \<times> (string \<times> nat) list list" where
  "metrics_loop [] = (LoopRunning, [])"
| "metrics_loop (r # rs) =
     (if mt_done r then (LoopReturned, []) else apsnd ((#) (metrics_tick r)) (metrics_loop rs))"

definition metricsUpdateLoop :: "bool \<Rightarrow> metrics_round list \<Rightarrow> loop_status \<times> (string \<times> nat) list list" where
  "metricsUpdateLoop metrics rs = (if \<not> metrics then (LoopReturned, []) else metrics_loop rs)"

section \<open>Registration\<close>

text \<open>What a registry promises: it takes a collector whose qualified name is not registered yet,
  and remembers it.\<close>

fun collector_name :: "collector \<Rightarrow> string \<times> string" where
  "collector_name (GaugeVec opt _) = (op_Namespace opt, op_Name opt)"
| "collector_name (Counter opt) = (op_Namespace opt, op_Name opt)"
| "collector_name (Histogram opt _) = (op_Namespace opt, op_Name opt)"

lemma metric_names_distinct: "distinct (map collector_name (metric_list metric_handles))"
  by code_simp

locale registry =
  fixes register :: "collector \<Rightarrow> 'r \<Rightarrow> 'r option"
    and names :: "'r \<Rightarrow> (string \<times> string) set"
  assumes register_new: "collector_name c \<notin> names r \<Longrightarrow>
      \<exists>r'. register c r = Some r' \<and> names r' = insert (collector_name c) (names r)"
begin

lemma MustRegister_distinct:
  "distinct (map collector_name cs) \<Longrightarrow> collector_name ` set cs \<inter> names r = {} \<Longrightarrow>
     \<exists>r'. MustRegister register cs r = Some r' \<and> names r' = names r \<union> collector_name ` set cs"
proof (induction cs arbitrary: r)
  case (Cons c cs)
  from Cons.prems(2) obtain r1 where r1: "register c r = Some r1" "names r1 = insert (collector_name c) (names r)"
    using register_new [of c r] by auto
  from Cons.IH [of r1] Cons.prems r1(2) obtain r' where "MustRegister register cs r1 = Some r'"
    "names r' = names r1 \<union> collector_name ` set cs"
    by auto
  with r1 show ?case by auto
qed simp

text \<open>On a new registry, as \<open>Run\<close> makes one, \<open>NewMetrics\<close> does not panic.\<close>

lemma NewMetrics_fresh:
  assumes "names r = {}"
  shows "\<exists>r'. NewMetrics register (Some r) = Some (metric_handles, Some r')"
proof -
  obtain r' where "MustRegister register (metric_list metric_handles) r = Some r'"
    using MustRegister_distinct [OF metric_names_distinct, of r] assms by auto
  then show ?thesis by (simp add: NewMetrics_def)
qed

end

definition reg_insert :: "collector \<Rightarrow> collector list \<Rightarrow> collector list option" where
  "reg_insert c r = (if collector_name c \<in> collector_name ` set r then None else Some (c # r))"

interpretation reg: registry reg_insert "\<lambda>r. collector_name ` set r"
  by unfold_locales (simp add: reg_insert_def)

section \<open>Properties\<close>

text \<open>The map of counts always has the five labels of the literal, once each, in that order.\<close>

lemma count_one_keys:
  "map fst counts = map fst counts_init \<Longrightarrow> map fst (count_one p counts) = map fst counts_init"
proof -
  assume keys: "map fst counts = map fst counts_init"
  have "peerState_String (state p) \<in> set (map fst counts)"
    unfolding keys by (cases "state p") (simp_all add: counts_init_def)
  then obtain n where "map_of counts (peerState_String (state p)) = Some n"
    by (auto simp flip: dom_map_of_conv_image_fst simp del: domIff simp: dom_def)
  then show ?thesis using keys by (simp add: count_one_def Let_def fst_update_present)
qed

lemma count_one_lookup:
  "map_of counts s = Some n \<Longrightarrow>
     map_of (count_one p counts) s = Some (n + (if peerState_String (state p) = s then 1 else 0))"
  by (auto simp: count_one_def Let_def update_conv')

lemma counts_fold:
  "map fst counts = map fst counts_init \<Longrightarrow> map fst (fold count_one ps counts) = map fst counts_init \<and>
     (\<forall>s n. map_of counts s = Some n \<longrightarrow> map_of (fold count_one ps counts) s =
        Some (n + length (filter (\<lambda>p. peerState_String (state p) = s) ps)))"
proof (induction ps arbitrary: counts)
  case (Cons p ps)
  from Cons.IH [OF count_one_keys [OF Cons.prems, of p]] show ?case
    using count_one_lookup [of counts _ _ p] by auto
qed simp

lemma peerState_String_inject: "peerState_String s = peerState_String t \<longleftrightarrow> s = t"
  by (cases s; cases t) simp_all

definition all_states :: "peerState list" where
  "all_states = [stateUnknown, stateHaveEndpoints, statePunching, stateDirect, stateRelay]"

definition machines_in :: "Daemon \<Rightarrow> peerState \<Rightarrow> nat" where
  "machines_in d s = length (filter (\<lambda>p. state p = s) (map snd (peer_list d)))"

lemma alist_by_keys:
  assumes "map fst xs = map g ss" and "distinct (map g ss)" and "\<And>s. s \<in> set ss \<Longrightarrow> map_of xs (g s) = Some (f s)"
  shows "xs = map (\<lambda>s. (g s, f s)) ss"
  using assms
proof (induction ss arbitrary: xs)
  case (Cons s ss)
  then obtain v ys where xs: "xs = (g s, v) # ys" "map fst ys = map g ss" by (auto simp: map_eq_Cons_conv)
  have "map_of ys (g t) = Some (f t)" if "t \<in> set ss" for t
  proof -
    have "g t \<noteq> g s" using Cons.prems(2) imageI [OF that, of g] by auto
    then show ?thesis using Cons.prems(3) [of t] that xs(1) by simp
  qed
  then show ?case using Cons.IH [OF xs(2)] Cons.prems(2) Cons.prems(3) [of s] xs(1) by simp
qed simp

lemma counts_init_eq: "counts_init = map (\<lambda>s. (peerState_String s, 0)) all_states"
  by (simp add: counts_init_def all_states_def)

lemma labels_distinct: "distinct (map peerState_String all_states)"
  by (simp add: all_states_def)

lemma peer_state_counts_eq:
  "peer_state_counts d = map (\<lambda>s. (peerState_String s, machines_in d s)) all_states"
proof -
  have init: "map fst counts_init = map peerState_String all_states"
    by (simp add: counts_init_eq)
  have "map_of counts_init (peerState_String s) = Some 0" if "s \<in> set all_states" for s
    using that by (auto simp: all_states_def counts_init_def)
  with counts_fold [of counts_init "map snd (peer_list d)"]
  show ?thesis
    by (intro alist_by_keys labels_distinct)
      (simp_all add: init peer_state_counts_def machines_in_def peerState_String_inject)
qed

lemma sum_machines_in: "(\<Sum>s \<leftarrow> all_states. machines_in d s) = length (peer_list d)"
proof -
  have "(\<Sum>s \<leftarrow> all_states. length (filter (\<lambda>p. state p = s) ps)) = length ps" for ps :: "peerFSM list"
  proof (induction ps)
    case (Cons p ps)
    then show ?case by (cases "state p") (simp_all add: all_states_def)
  qed (simp add: all_states_def)
  from this [of "map snd (peer_list d)"] show ?thesis by (simp add: machines_in_def)
qed

text \<open>C32: The published gauge agrees with the machines: a tick writes every one of the five labels exactly
  once, whatever order Go visits the map in, with the number of the daemon's machines in that
  state as the tick read them, and no other label; the values add up to the number of machines, so that all of them
  are zero once the daemon has been shut down. Without a metrics address nothing is
  written.\<close>

theorem gauge_counts_machines:
  assumes "\<And>counts. mset (mt_visit r counts) = mset counts"
  shows "mset (metrics_tick r) =
      mset (map (\<lambda>s. (peerState_String s, machines_in (mt_daemon r) s))
        [stateUnknown, stateHaveEndpoints, statePunching, stateDirect, stateRelay]) \<and>
    distinct (map fst (metrics_tick r)) \<and>
    sum_list (map snd (metrics_tick r)) = length (case d_peers (mt_daemon r) of None \<Rightarrow> [] | Some ps \<Rightarrow> ps) \<and>
    metricsUpdateLoop False (r # rs) = (LoopReturned, [])"
proof -
  have tick: "mset (metrics_tick r) = mset (map (\<lambda>s. (peerState_String s, machines_in (mt_daemon r) s)) all_states)"
    by (simp add: metrics_tick_def assms peer_state_counts_eq)
  have "mset (map fst (metrics_tick r)) = mset (map peerState_String all_states)"
    using arg_cong [OF tick, of "image_mset fst"] by (simp add: image_mset.compositionality comp_def)
  then have "distinct (map fst (metrics_tick r))"
    using labels_distinct mset_eq_imp_distinct_iff by blast
  moreover have "sum_list (map snd (metrics_tick r)) = length (peer_list (mt_daemon r))"
    using arg_cong [OF tick, of "\<lambda>m. sum_mset (image_mset snd m)"] sum_machines_in [of "mt_daemon r"]
    by (simp add: image_mset.compositionality comp_def flip: sum_mset_sum_list)
  ultimately show ?thesis
    using tick by (simp add: all_states_def peer_list_def metricsUpdateLoop_def)
qed

definition demo_round :: metrics_round where
  "demo_round = \<lparr>mt_done = False,
     mt_daemon = demo_daemon\<lparr>d_peers := Some [(dk_Pub (demo_key 2), newPeerFSM demo_deps demo_remote)]\<rparr>,
     mt_visit = rev\<rparr>"

theorem gauge_counts_machines_witness:
  "sum_list (map snd (metrics_tick demo_round)) = 1 \<and> distinct (map fst (metrics_tick demo_round)) \<and>
   (''unknown'', 1) \<in># mset (metrics_tick demo_round)"
proof -
  have "mset (mt_visit demo_round counts) = mset counts" for counts by (simp add: demo_round_def)
  note gauge = gauge_counts_machines [of demo_round, OF this]
  have "machines_in (mt_daemon demo_round) stateUnknown = 1"
    by (simp add: demo_round_def machines_in_def peer_list_def newPeerFSM_def)
  with gauge show ?thesis by (simp add: demo_round_def)
qed

subsection \<open>The duration of hole punching\<close>

text \<open>A machine that has started punching once.\<close>

definition started :: "peerFSM \<Rightarrow> bool" where
  "started p \<longleftrightarrow> state p \<notin> {stateUnknown, stateHaveEndpoints}"

lemma onPong_start:
  assumes "onPong nl fe src p k = ((p', k'), effs)"
  shows "started p' \<and> punchStart p' = punchStart p \<and> punchDeadline p' = punchDeadline p"
proof (cases "state p = stateDirect")
  case True
  with assms show ?thesis by (auto simp: onPong_def started_def Let_def)
next
  case False
  with assms(1) have "bringUpTunnel nl fe src (setState stateDirect (p\<lparr>winning := src, lastPong := fe_now fe\<rparr>)) k = (p', k')"
    by (simp add: onPong_def Let_def)
  from bringUpTunnel_frame [OF this] show ?thesis by (simp add: setState_def started_def)
qed

lemma handle_begin_start:
  assumes "handle_begin nl fe ev p k = ((p', k'), effs)" and "started p"
  shows "started p' \<and> punchStart p' = punchStart p \<and> punchDeadline p' = punchDeadline p"
  using assms
  by (cases ev) (auto simp: noticeEndpoints_def started_def [of p] onDiscoUDP_def onDiscoSignal_def absorbEndpoints_def
      started_def dest: onPong_start split: if_splits)

lemma fsm_step_start:
  assumes "fsm_step nl s s'" and "started (ps_fsm s)"
  shows "started (ps_fsm s') \<and> punchStart (ps_fsm s') = punchStart (ps_fsm s) \<and>
    punchDeadline (ps_fsm s') = punchDeadline (ps_fsm s)"
  using assms
proof cases
  case (receive fe ev evs p k effs)
  have "started ((ps_fsm s)\<lparr>incoming := evs\<rparr>)" using assms(2) by (simp add: started_def)
  from handle_begin_start [OF receive(5) this] receive(1) show ?thesis by simp
qed (auto simp: started_def try_send_def set_peer_def onUDP_def onSignal_def tickPunch_def keepalive_def setState_def stop_def
      split: if_splits option.splits)

text \<open>C35: The published duration of hole punching is measured from the first attempt: once a peer has
  started punching, or has become direct without, no step of its machine changes the recorded start, so a path that is
  found again, after any number of losses, is reported with all the time that has passed
  since the first attempt began, including the time in which the path was up.\<close>

theorem punch_duration_from_first:
  assumes "state (ps_fsm s) \<noteq> stateUnknown" and "state (ps_fsm s) \<noteq> stateHaveEndpoints" and "(fsm_step nl)\<^sup>*\<^sup>* s s'"
    and "handle nl fe ev (ps_fsm s') k = (pk, effs)" and "ObservePunch t \<in> set effs"
  shows "t = time_sub (fe_now2 fe) (punchStart (ps_fsm s))"
proof -
  from assms(3) have "started (ps_fsm s') \<and> punchStart (ps_fsm s') = punchStart (ps_fsm s)"
    by (induction rule: rtranclp_induct) (use assms(1,2) fsm_step_start in \<open>simp add: started_def, metis\<close>)
  with assms(4,5) show ?thesis
    by (cases ev) (auto simp: onDiscoUDP_def onDiscoSignal_def onPong_def Let_def sendPong_def sendDisco_def
        split: if_splits sum.splits prod.splits)
qed

definition demo_lossy :: "mocknl psys" where
  "demo_lossy = \<lparr>ps_fsm = (newPeerFSM (demo_deps\<lparr>pd_metrics := True\<rparr>) demo_remote)\<lparr>state := stateDirect, tunnelUp := True,
       lastPong := 20 * second, punchStart := 10 * second\<rparr>,
     ps_kernel = newMockNetlinker, ps_clock = 20 * second, ps_pending = None, ps_exited = False\<rparr>"

text \<open>The path is lost after three minutes and found again ten seconds later.\<close>

theorem punch_duration_from_first_witness:
  "\<exists>s'. fsm_step (demo_nl no_errs) demo_lossy s' \<and> state (ps_fsm s') = statePunching \<and>
     snd (handle (demo_nl no_errs) (demo_fe (210 * second)) (evUDP demo_from demo_pong) (ps_fsm s') newMockNetlinker) =
       [IncPongs, ObservePunch (200 * second)]"
proof -
  let ?nl = "demo_nl no_errs" and ?fe = "demo_fe (200 * second)" and ?fe' = "demo_fe (210 * second)"
  let ?p = "setState statePunching (ps_fsm demo_lossy)"
  let ?s = "demo_lossy\<lparr>ps_fsm := ?p, ps_clock := fe_now ?fe\<rparr>"
  have lost: "keepalive ?fe (ps_fsm demo_lossy) = (?p, [])"
    by (simp add: keepalive_def demo_lossy_def demo_fe_times time_defs pongMissDeadline_def time_sub_def)
  have step: "fsm_step ?nl demo_lossy ?s"
    by (rule fsm_step.keep [OF _ _ lost]) (simp_all add: demo_lossy_def driver_free_def timed_def demo_fe_times time_defs)
  obtain pk effs where h: "handle ?nl ?fe' (evUDP demo_from demo_pong) (ps_fsm ?s) newMockNetlinker = (pk, effs)"
    by fastforce
  have effs: "effs = [IncPongs, ObservePunch (time_sub (fe_now2 ?fe') (10 * second))]"
    using h by (auto simp: onDiscoUDP_def demo_pong_def MsgPing_def MsgPong_def onPong_def demo_lossy_def newPeerFSM_def setState_def
        zero_time_def time_defs bringUpTunnel_def Let_def)
  then obtain t where t: "effs = [IncPongs, ObservePunch t]" by simp
  have "t = time_sub (fe_now2 ?fe') (punchStart (ps_fsm demo_lossy))"
    by (rule punch_duration_from_first [OF _ _ r_into_rtranclp [of "fsm_step ?nl", OF step] h])
      (simp_all add: t demo_lossy_def)
  then have "t = 200 * second"
    by (simp add: demo_lossy_def demo_fe_times time_sub_def time_defs)
  then show ?thesis using step h t by (intro exI [of _ ?s]) (simp add: setState_def)
qed

end
