(* ===== verification/Cli_Commands.thy ===== *)
theory Cli_Commands
  imports Cli_Flags Tunnel_Gre Health_Probe Disco_Stun Daemon_Metrics Coord_Store
begin

text \<open>
  The command line, \<open>cmd/gretun/commands\<close> and \<open>cmd/gretun-coord\<close>: the function behind each
  command, from the flags it reads to the error it returns and what it prints, the hooks that run
  before it and the exit status for an error. Choosing the command and calling its hook belong
  to the command library. Parsing of flags, the alignment of tables and
  the JSON texts belong to libraries; a table or a JSON value is printed as the value itself,
  and printing does not fail. Commands that work on tunnels run over the kernel state of a
  \<open>Netlinker\<close>.
\<close>

section \<open>Output\<close>

record healthRow =
  hr_Name :: string
  hr_Remote :: string
  hr_Healthy :: bool
  hr_RTT :: duration

datatype cli_out =
    Stdout string
  | Slog string "fmt_arg list"
  | Table "string list list"
  | JsonTunnels "Status list"
  | JsonStatus Status
  | JsonProbe string bool int "ProbeResult list"
  | JsonHealth "healthRow list"
  | JsonEndpoint string string

definition printf :: "string \<Rightarrow> fmt_arg list \<Rightarrow> cli_out" where
  "printf f args = Stdout (Sprintf id f args)"

section \<open>Start of every command\<close>

definition CheckNetAdmin :: "int \<Rightarrow> goerror option" where
  "CheckNetAdmin euid =
     (if euid \<noteq> 0 then Some (EMsg (''requires root privileges or CAP_NET_ADMIN capability\<newline>\<newline>'' @
        ''GRE tunnel operations require network administration capabilities.\<newline>'' @
        ''Please run with sudo:\<newline>'' @
        ''  sudo gretun [command]\<newline>\<newline>'' @
        ''Alternatively, grant CAP_NET_ADMIN to the binary:\<newline>'' @
        ''  sudo setcap cap_net_admin+ep $(which gretun)''))
      else None)"

text \<open>The same function on other systems.\<close>

definition CheckNetAdmin_stub :: "goerror option" where
  "CheckNetAdmin_stub = Some (EMsg ''GRE tunnels are only supported on Linux'')"

text \<open>\<open>PersistentPreRunE\<close> of the root command: whether debug logging is switched on, and the value of
  the variable \<open>nl\<close> or the error. The version command leaves \<open>nl\<close> nil.\<close>

definition PersistentPreRunE ::
  "string \<Rightarrow> flag_env \<Rightarrow> int \<Rightarrow> 'k Netlinker res \<Rightarrow> bool \<times> 'k Netlinker option res" where
  "PersistentPreRunE cmd fe euid newHandle =
     (if cmd = ''version'' then (False, Inr None)
      else
        (let verbose = read_verbose fe in
         case CheckNetAdmin euid of
           Some e \<Rightarrow> (verbose, Inl e)
         | None \<Rightarrow>
             (case NewDefaultNetlinker newHandle of
                Inl e \<Rightarrow> (verbose, Inl (EWrap ''failed to init netlink: %w'' [] e))
              | Inr netlinkHandle \<Rightarrow> (verbose, Inr (Some (as_Netlinker netlinkHandle))))))"

text \<open>The stun command has a hook of its own, which does nothing and is run instead.\<close>

definition stun_PersistentPreRunE :: "'k Netlinker option res" where
  "stun_PersistentPreRunE = Inr None"

text \<open>The exit status of \<open>main\<close> for the error that \<open>Execute\<close> returns.\<close>

definition main_exit :: "goerror option \<Rightarrow> int" where
  "main_exit err = (case err of None \<Rightarrow> 0 | Some _ \<Rightarrow> 1)"

section \<open>The version command\<close>

text \<open>The variables, which the build may overwrite, with their initial values.\<close>

record version_info =
  vi_Version :: string
  vi_Commit :: string
  vi_BuildTime :: string

definition version_default :: version_info where
  "version_default = \<lparr>vi_Version = ''dev'', vi_Commit = ''none'', vi_BuildTime = ''unknown''\<rparr>"

definition runVersion :: "version_info \<Rightarrow> goerror option \<times> cli_out list" where
  "runVersion v =
     (None, [printf ''gretun %s (commit: %s, built: %s)\<newline>''
               [AStr (vi_Version v), AStr (vi_Commit v), AStr (vi_BuildTime v)]])"

section \<open>Tunnel commands\<close>

definition parseEncap :: "string \<Rightarrow> EncapType \<times> goerror option" where
  "parseEncap s =
     (if s = ''none'' \<or> s = '''' then (EncapNone, None)
      else if s = ''fou'' then (EncapFOU, None)
      else if s = ''gue'' then (EncapGUE, None)
      else (EncapNone, Some (EFmt ''unknown --encap value %q (want none|fou|gue)'' [AStr s])))"

definition create_cfg :: "create_flags \<Rightarrow> goip \<Rightarrow> goip \<Rightarrow> EncapType \<Rightarrow> Config" where
  "create_cfg f localIP remoteIP encap =
     \<lparr>cfg_Name = cf_name f, cfg_LocalIP = localIP, cfg_RemoteIP = remoteIP, cfg_Key = cf_key f,
      cfg_TTL = cf_ttl f, cfg_MTU = cf_mtu f, cfg_Encap = encap, cfg_EncapSport = cf_encap_sport f,
      cfg_EncapDport = cf_encap_dport f, cfg_EncapChecksum = cf_encap_csum f\<rparr>"

text \<open>The part of \<open>runCreate\<close> that looks only at the flags: the configuration and the warning.\<close>

definition create_prepare :: "create_flags \<Rightarrow> (Config \<times> cli_out list) res" where
  "create_prepare f =
     (let localIP = net_ParseIP (cf_local f); remoteIP = net_ParseIP (cf_remote f) in
      if localIP = None then Inl (EFmt ''invalid local IP: %s'' [AStr (cf_local f)])
      else if remoteIP = None then Inl (EFmt ''invalid remote IP: %s'' [AStr (cf_remote f)])
      else case parseEncap (cf_encap f) of
        (_, Some e) \<Rightarrow> Inl e
      | (encap, None) \<Rightarrow>
          (let cfg = create_cfg f localIP remoteIP encap in
           case ValidateEncap cfg of
             (_, Some e) \<Rightarrow> Inl e
           | (Some (w, args), None) \<Rightarrow> Inr (cfg, [Slog w args])
           | (None, None) \<Rightarrow> Inr (cfg, [])))"

definition created_line :: "create_flags \<Rightarrow> Config \<Rightarrow> cli_out list" where
  "created_line f cfg =
     [printf ''created tunnel %s (%s -> %s)'' [AStr (cf_name f), AStr (cf_local f), AStr (cf_remote f)]] @
     (if cfg_Encap cfg \<noteq> EncapNone
      then [printf '' encap=%s dport=%d'' [AStr (cf_encap f), AInt (uint (cf_encap_dport f))]] else []) @
     [Stdout ''\<newline>'']"

definition runCreate :: "'k Netlinker \<Rightarrow> create_flags \<Rightarrow> 'k \<Rightarrow> (goerror option \<times> cli_out list) \<times> 'k" where
  "runCreate nl f k =
     (case create_prepare f of
        Inl e \<Rightarrow> ((Some e, []), k)
      | Inr (cfg, warn) \<Rightarrow>
          (case Create background nl cfg k of
             (Some e, k1) \<Rightarrow> ((Some e, warn), k1)
           | (None, k1) \<Rightarrow>
               (let out = warn @ created_line f cfg in
                if cf_tunnel_ip f = '''' then ((None, out), k1)
                else case AssignIP background nl (cf_name f) (cf_tunnel_ip f) k1 of
                  (Some e, k2) \<Rightarrow> ((Some (EWrap ''tunnel created but failed to assign IP: %w'' [] e), out), k2)
                | (None, k2) \<Rightarrow>
                    ((None, out @ [printf ''assigned %s to %s\<newline>'' [AStr (cf_tunnel_ip f), AStr (cf_name f)]]), k2))))"

definition runDelete :: "'k Netlinker \<Rightarrow> string \<Rightarrow> 'k \<Rightarrow> (goerror option \<times> cli_out list) \<times> 'k" where
  "runDelete nl name k =
     (case Delete background nl name k of
        (Some e, k1) \<Rightarrow> ((Some e, []), k1)
      | (None, k1) \<Rightarrow> ((None, [printf ''deleted tunnel %s\<newline>'' [AStr name]]), k1))"

definition list_row :: "Status \<Rightarrow> string list" where
  "list_row t =
     (let status = (if st_Up t then ''up'' else ''down'');
          key = (if st_Key t \<noteq> 0 then fmt_int (uint (st_Key t)) else ''-'');
          tunnelIP = (if st_TunnelIP t \<noteq> '''' then st_TunnelIP t else ''-'')
      in [st_Name t, st_LocalIP t, st_RemoteIP t, key, tunnelIP, status])"

definition runList :: "'k Netlinker \<Rightarrow> bool \<Rightarrow> 'k \<Rightarrow> goerror option \<times> cli_out list" where
  "runList nl jsonOutput k =
     (case List background nl k of
        Inl e \<Rightarrow> (Some e, [])
      | Inr tunnels \<Rightarrow>
          (if tunnels = [] then (None, [Stdout ''no GRE tunnels found\<newline>''])
           else if jsonOutput then (None, [JsonTunnels tunnels])
           else (None, [Table ([''NAME'', ''LOCAL'', ''REMOTE'', ''KEY'', ''TUNNEL IP'', ''STATUS''] #
                          map list_row tunnels)])))"

definition status_lines :: "Status \<Rightarrow> cli_out list" where
  "status_lines s =
     [printf ''Tunnel: %s\<newline>'' [AStr (st_Name s)],
      printf ''  Status:    %s\<newline>'' [AStr (if st_Up s then ''up'' else ''down'')],
      printf ''  Local:     %s\<newline>'' [AStr (st_LocalIP s)],
      printf ''  Remote:    %s\<newline>'' [AStr (st_RemoteIP s)]] @
     (if st_Key s \<noteq> 0 then [printf ''  Key:       %d\<newline>'' [AInt (uint (st_Key s))]] else []) @
     [printf ''  TTL:       %d\<newline>'' [AInt (uint (st_TTL s))]] @
     (if st_TunnelIP s \<noteq> '''' then [printf ''  Tunnel IP: %s\<newline>'' [AStr (st_TunnelIP s)]] else [])"

definition runStatus :: "'k Netlinker \<Rightarrow> bool \<Rightarrow> string \<Rightarrow> 'k \<Rightarrow> goerror option \<times> cli_out list" where
  "runStatus nl jsonOutput name k =
     (case Get background nl name k of
        Inl e \<Rightarrow> (Some e, [])
      | Inr s \<Rightarrow> (None, if jsonOutput then [JsonStatus s] else status_lines s))"

section \<open>Probing commands\<close>

text \<open>\<open>show_rtt\<close> prints a duration, \<open>text\<close> an error.\<close>

definition probe_line ::
  "(duration \<Rightarrow> string) \<Rightarrow> (goerror \<Rightarrow> string) \<Rightarrow> string \<Rightarrow> nat \<Rightarrow> ProbeResult \<Rightarrow> cli_out" where
  "probe_line show_rtt text target i r =
     (if pr_Success r
      then printf ''probe %d: %s rtt=%v\<newline>'' [AInt (int i + 1), AStr target, AStr (show_rtt (pr_RTT r))]
      else printf ''probe %d: %s error=%s\<newline>''
             [AInt (int i + 1), AStr target, AStr (case pr_Error r of None \<Rightarrow> '''' | Some e \<Rightarrow> text e)])"

text \<open>\<open>None\<close> is the panic of \<open>ProbeMultiple\<close>.\<close>

definition runProbe ::
  "(duration \<Rightarrow> string) \<Rightarrow> (goerror \<Rightarrow> string) \<Rightarrow> bool \<Rightarrow> series_env \<Rightarrow> string \<Rightarrow> int \<Rightarrow> duration \<Rightarrow> int \<Rightarrow>
   (goerror option \<times> cli_out list) option" where
  "runProbe show_rtt text jsonOutput se target cnt timeout threshold =
     (case ProbeMultiple se target cnt timeout threshold of
        None \<Rightarrow> None
      | Some (healthy, results) \<Rightarrow> Some (
          if jsonOutput then (None, [JsonProbe target healthy threshold results])
          else
            (let successes = int (length (filter pr_Success results));
                 lines = map (\<lambda>(i, r). probe_line show_rtt text target i r) (enumerate 0 results) @
                   [printf ''\<newline>%d/%d probes successful\<newline>'' [AInt successes, AInt cnt]]
             in if healthy then (None, lines @ [Stdout ''status: healthy\<newline>''])
                else (Some (EFmt ''probe failed: only %d/%d successful (threshold: %d)''
                        [AInt successes, AInt cnt, AInt threshold]),
                      lines @ [Stdout ''status: unhealthy\<newline>'']))))"

definition health_targets :: "Status list \<Rightarrow> string list" where
  "health_targets tunnels = map st_RemoteIP (filter (\<lambda>t. st_RemoteIP t \<noteq> '''') tunnels)"

text \<open>A row; its round-trip time is kept in nanoseconds, where the code divides by a million in
  floating point for display.\<close>

definition health_row :: "(string \<rightharpoonup> ProbeResult) \<Rightarrow> Status \<Rightarrow> healthRow" where
  "health_row results t =
     (let row = \<lparr>hr_Name = st_Name t, hr_Remote = st_RemoteIP t, hr_Healthy = False, hr_RTT = 0\<rparr> in
      case results (st_RemoteIP t) of
        None \<Rightarrow> row
      | Some r \<Rightarrow> row\<lparr>hr_Healthy := pr_Success r, hr_RTT := (if pr_Success r then pr_RTT r else 0)\<rparr>)"

text \<open>One round of \<open>runHealth\<close>: \<open>probes\<close> gives the map that \<open>ProbeTargets\<close> returns for the
  targets.\<close>

definition health_probe ::
  "'k Netlinker \<Rightarrow> ctx \<Rightarrow> (string list \<Rightarrow> string \<rightharpoonup> ProbeResult) \<Rightarrow> 'k \<Rightarrow> healthRow list res" where
  "health_probe nl ctx probes k =
     (case List ctx nl k of
        Inl e \<Rightarrow> Inl e
      | Inr tunnels \<Rightarrow> Inr (map (health_row (probes (health_targets tunnels))) tunnels))"

definition health_cells :: "(duration \<Rightarrow> string) \<Rightarrow> healthRow \<Rightarrow> string list" where
  "health_cells show_ms row =
     [hr_Name row, hr_Remote row, if hr_Healthy row then ''healthy'' else ''unhealthy'',
      if hr_Healthy row then show_ms (hr_RTT row) else ''-'']"

definition health_output :: "(duration \<Rightarrow> string) \<Rightarrow> bool \<Rightarrow> healthRow list \<Rightarrow> cli_out" where
  "health_output show_ms jsonOutput rows =
     (if jsonOutput then JsonHealth rows
      else Table ([''NAME'', ''REMOTE'', ''STATUS'', ''RTT''] # map (health_cells show_ms) rows))"

text \<open>What wakes the watch loop: the interrupt, or a tick with the kernel, context and probes of that
  round and whether the context has ended when the round fails.\<close>

record 'k health_round =
  hd_kernel :: 'k
  hd_ctx :: ctx
  hd_probes :: "string list \<Rightarrow> string \<rightharpoonup> ProbeResult"
  hd_done :: bool

datatype 'k wake = Interrupt | Tick "'k health_round"

definition clearScreen :: cli_out where
  "clearScreen = Stdout (CHR 0x1B # ''[H'' @ CHR 0x1B # ''[2J'')"

text \<open>\<open>None\<close> as the first result: the loop is still running.\<close>

fun watch_loop ::
  "'k Netlinker \<Rightarrow> (duration \<Rightarrow> string) \<Rightarrow> bool \<Rightarrow> 'k wake list \<Rightarrow> cli_out list \<Rightarrow> goerror option option \<times> cli_out list" where
  "watch_loop nl show_ms jsonOutput [] out = (None, out)"
| "watch_loop nl show_ms jsonOutput (Interrupt # ws) out = (Some None, out @ [Stdout ''interrupted\<newline>''])"
| "watch_loop nl show_ms jsonOutput (Tick r # ws) out =
     (case health_probe nl (hd_ctx r) (hd_probes r) (hd_kernel r) of
        Inl e \<Rightarrow> (if hd_done r then (Some None, out @ [Stdout ''interrupted\<newline>'']) else (Some (Some e), out))
      | Inr rows \<Rightarrow> watch_loop nl show_ms jsonOutput ws (out @ [clearScreen, health_output show_ms jsonOutput rows]))"

text \<open>\<open>time.NewTicker\<close> panics on an interval that is not positive: \<open>None\<close>.\<close>

definition runHealth ::
  "'k Netlinker \<Rightarrow> (duration \<Rightarrow> string) \<Rightarrow> bool \<Rightarrow> bool \<Rightarrow> duration \<Rightarrow> 'k health_round \<Rightarrow> 'k wake list \<Rightarrow>
   (goerror option option \<times> cli_out list) option" where
  "runHealth nl show_ms jsonOutput watch interval first ws =
     (if \<not> watch then
        (case health_probe nl (hd_ctx first) (hd_probes first) (hd_kernel first) of
           Inl e \<Rightarrow> Some (Some (Some e), [])
         | Inr rows \<Rightarrow> Some (Some None, [health_output show_ms jsonOutput rows]))
      else if interval \<le> 0 then None
      else
        (case health_probe nl (hd_ctx first) (hd_probes first) (hd_kernel first) of
           Inl e \<Rightarrow> Some (Some (Some e), [])
         | Inr rows \<Rightarrow>
             Some (watch_loop nl show_ms jsonOutput ws [clearScreen, health_output show_ms jsonOutput rows])))"

section \<open>Network commands\<close>

text \<open>\<open>runStun\<close> for one of the results that the discovery may return.\<close>

definition runStun :: "bool \<Rightarrow> unit res \<Rightarrow> PublicEndpoint res \<Rightarrow> goerror option \<times> cli_out list" where
  "runStun jsonOutput listen discovered =
     (case listen of
        Inl e \<Rightarrow> (Some (EWrap ''listen udp4: %w'' [] e), [])
      | Inr _ \<Rightarrow>
     (case discovered of
        Inl e \<Rightarrow> (Some e, [])
      | Inr ep \<Rightarrow>
          (None, if jsonOutput then [JsonEndpoint (addrport_String (pe_Addr ep)) (pe_Via ep)]
                 else [printf ''%s  (via %s)\<newline>'' [AStr (addrport_String (pe_Addr ep)), AStr (pe_Via ep)]])))"

text \<open>\<open>runUp\<close> up to the start of the daemon's loops. The disco address is not set by a flag.\<close>

definition up_config :: "up_flags \<Rightarrow> DaemonConfig" where
  "up_config f =
     \<lparr>dc_Coordinator = uf_coordinator f, dc_NodeName = uf_node_name f, dc_StateDir = uf_state_dir f,
      dc_Iface = uf_iface f, dc_FOUPort = uf_fou_port f, dc_DiscoAddr = '''', dc_STUNServers = uf_stun_server f,
      dc_Aggressive = uf_aggressive_punch f, dc_MetricsAddr = uf_metrics_addr f\<rparr>"

definition runUp ::
  "'k Netlinker \<Rightarrow> key_env \<Rightarrow> (string \<Rightarrow> keyfile) \<Rightarrow> flag_env \<Rightarrow> run_env \<Rightarrow> 'k \<Rightarrow>
   ((Daemon \<times> RemoteEndpoint list \<times> goerror option) res \<times> keyfile) \<times> 'k" where
  "runUp nl ke files fe re k =
     (let f = read_up fe in
      case LoadOrCreateKeys ke (files (uf_state_dir f)) of
        (Inl e, file') \<Rightarrow> ((Inl (EWrap ''load keys: %w'' [] e), file'), k)
      | (Inr (nk, dk), file') \<Rightarrow>
          (case Run_start nl re (New (up_config f) nk dk) k of (r, k') \<Rightarrow> ((r, file'), k')))"

section \<open>The coordinator's main\<close>

record coord_flags =
  co_listen :: string
  co_pool :: string
  co_cert :: string
  co_key :: string
  co_verbose :: bool

definition coord_defaults :: coord_flags where
  "coord_defaults =
     \<lparr>co_listen = '':8443'', co_pool = ''100.64.0.0/24'', co_cert = '''', co_key = '''', co_verbose = False\<rparr>"

definition coord_http_server :: "coord_flags \<Rightarrow> http_server" where
  "coord_http_server f =
     \<lparr>hs_Addr = co_listen f, hs_ReadTimeout = 30 * second, hs_WriteTimeout = 35 * second,
      hs_IdleTimeout = 90 * second\<rparr>"

text \<open>What the HTTP server does until it returns, from the store it starts with, over plain HTTP or
  with a certificate and a key file; \<open>sv_closed\<close> tells the error of an orderly shutdown.\<close>

record serve_env =
  ListenAndServe :: "http_server \<Rightarrow> memstore \<Rightarrow> goerror option"
  ListenAndServeTLS :: "http_server \<Rightarrow> string \<Rightarrow> string \<Rightarrow> memstore \<Rightarrow> goerror option"
  sv_closed :: "goerror \<Rightarrow> bool"

definition coord_serve :: "serve_env \<Rightarrow> coord_flags \<Rightarrow> memstore \<Rightarrow> goerror option" where
  "coord_serve sv f store =
     (if co_cert f \<noteq> '''' \<and> co_key f \<noteq> ''''
      then ListenAndServeTLS sv (coord_http_server f) (co_cert f) (co_key f) store
      else ListenAndServe sv (coord_http_server f) store)"

text \<open>\<open>None\<close> is the regular end, otherwise the message that \<open>fatal\<close> prints before it exits with
  status 1; the detail of the prefix parser is left out.\<close>

definition coord_main :: "hash_fn \<Rightarrow> gotime \<Rightarrow> serve_env \<Rightarrow> coord_flags \<Rightarrow> goerror option" where
  "coord_main h now sv f =
     (case parse_prefix (co_pool f) of
        None \<Rightarrow> Some (EMsg ''invalid --pool'')
      | Some prefix \<Rightarrow>
          (let store = NewMemStore h now prefix in
           case coord_serve sv f store of
             None \<Rightarrow> None
           | Some runErr \<Rightarrow> (if sv_closed sv runErr then None else Some (EWrap ''serve: %w'' [] runErr))))"

section \<open>Properties\<close>

lemma create_prepare_cfg:
  assumes "create_prepare f = Inr (cfg, warn)"
  shows "cfg_Name cfg = cf_name f \<and> cfg_EncapDport cfg = cf_encap_dport f \<and> cfg_LocalIP cfg = net_ParseIP (cf_local f) \<and>
    cfg_RemoteIP cfg = net_ParseIP (cf_remote f) \<and> cfg_Key cfg = cf_key f \<and>
    cfg_Encap cfg = fst (parseEncap (cf_encap f))"
  using assms by (auto simp: create_prepare_def create_cfg_def Let_def split: if_splits prod.splits option.splits)

context netlink_laws
begin

lemma LinkByName_same: "links_of k' = links_of k \<Longrightarrow> LinkByName nl n k = Inr l \<Longrightarrow> LinkByName nl n k' = Inr l"
  using by_name [of n k l] by_name [of n k'] by_name_err [of n k'] by (cases "LinkByName nl n k'") auto

lemma Get_same_links:
  assumes "links_of k' = links_of k" and "Get background nl n k = Inr s"
  shows "\<exists>s'. Get background nl n k' = Inr s' \<and> st_Up s' = st_Up s \<and> st_LocalIP s' = st_LocalIP s \<and>
    st_RemoteIP s' = st_RemoteIP s \<and> st_Key s' = st_Key s"
  using assms LinkByName_same [OF assms(1)]
  by (auto simp: Get_def split: sum.splits link.splits)

end

text \<open>C26: The create command is all or nothing up to the address, as far as the kernel lets it clean
  up: when it fails, either the tables of links and FOU ports are as before, provided that the
  kernel does not fail when asked to remove what the call has just added, or the only thing that
  failed was the assignment of the address, the error says so, and the tunnel stays, up and with
  the requested ends. When it succeeds the tunnel is there. In every case, also when a removal
  fails, only the link of that name and, if it was not there before, the FOU port of that
  number can be different. (The kernel is assumed to satisfy the netlink laws.)\<close>

theorem run_create_outcome:
  assumes "netlink_fou_laws nl links_of addrs_of fous_of"
    and "runCreate nl f k = ((err, out), k')"
  shows "(\<forall>n. n \<noteq> cf_name f \<longrightarrow> links_of k' n = links_of k n) \<and>
    (\<forall>p. p \<noteq> uint (cf_encap_dport f) \<or> fous_of k p \<noteq> None \<longrightarrow> fous_of k' p = fous_of k p) \<and>
    ((err \<noteq> None \<and>
        (netlink_cleanup nl links_of addrs_of fous_of \<longrightarrow> links_of k' = links_of k \<and> fous_of k' = fous_of k)) \<or>
     ((err = None \<or> cf_tunnel_ip f \<noteq> '''' \<and>
        (\<exists>e. err = Some (EWrap ''tunnel created but failed to assign IP: %w'' [] e))) \<and>
      links_of k (cf_name f) = None \<and>
      (\<exists>s. Get background nl (cf_name f) k' = Inr s \<and> st_Up s \<and>
         st_LocalIP s = ip_String (net_ParseIP (cf_local f)) \<and>
         st_RemoteIP s = ip_String (net_ParseIP (cf_remote f)) \<and> st_Key s = cf_key f)))"
proof (cases "create_prepare f")
  case (Inr r)
  obtain cfg warn where r: "r = (cfg, warn)" by fastforce
  note cfg = create_prepare_cfg [OF Inr [unfolded r]]
  have laws: "netlink_laws nl links_of addrs_of fous_of"
    using assms(1) by (simp add: netlink_fou_laws_def)
  obtain ce k1 where c: "Create background nl cfg k = (ce, k1)" by fastforce
  obtain ae k2 where a: "AssignIP background nl (cf_name f) (cf_tunnel_ip f) k1 = (ae, k2)" by fastforce
  have k2: "links_of k2 = links_of k1" "fous_of k2 = fous_of k1"
    using netlink_laws.AssignIP_tables [OF laws, of background "cf_name f" "cf_tunnel_ip f" k1] a by simp_all
  have k': "k' = k1 \<or> k' = k2"
    using assms(2) Inr c a r by (auto simp: runCreate_def Let_def split: if_splits option.splits)
  have frame: "(\<forall>n. n \<noteq> cf_name f \<longrightarrow> links_of k' n = links_of k n) \<and>
      (\<forall>p. p \<noteq> uint (cf_encap_dport f) \<or> fous_of k p \<noteq> None \<longrightarrow> fous_of k' p = fous_of k p)"
    using netlink_fou_laws.Create_frame [OF assms(1) c] cfg k' k2 by auto
  show ?thesis
  proof (cases ce)
    case (Some e)
    then have "err \<noteq> None \<and> k' = k1" using assms(2) Inr c r by (auto simp: runCreate_def)
    moreover have "links_of k1 = links_of k \<and> fous_of k1 = fous_of k" if "netlink_cleanup nl links_of addrs_of fous_of"
      using netlink_cleanup.Create_atomic [OF that c [unfolded Some]] .
    ultimately show ?thesis using frame by blast
  next
    case None
    have free: "links_of k (cf_name f) = None"
      using netlink_fou_laws.Create_ok [OF assms(1) c [unfolded None]] cfg by metis
    obtain s where s: "Get background nl (cf_name f) k1 = Inr s" "st_Up s"
      "st_LocalIP s = ip_String (net_ParseIP (cf_local f))"
      "st_RemoteIP s = ip_String (net_ParseIP (cf_remote f))" "st_Key s = cf_key f"
      using netlink_fou_laws.Create_Get [OF assms(1) c [unfolded None]] cfg by auto
    from netlink_laws.Get_same_links [OF laws k2(1) s(1)]
    have there: "\<exists>s. Get background nl (cf_name f) k' = Inr s \<and> st_Up s \<and>
        st_LocalIP s = ip_String (net_ParseIP (cf_local f)) \<and>
        st_RemoteIP s = ip_String (net_ParseIP (cf_remote f)) \<and> st_Key s = cf_key f"
      using k' s by auto
    have "err = None \<or> cf_tunnel_ip f \<noteq> '''' \<and> (\<exists>e. err = Some (EWrap ''tunnel created but failed to assign IP: %w'' [] e))"
      using assms(2) Inr c None a r by (auto simp: runCreate_def Let_def split: if_splits option.splits)
    with frame free there show ?thesis by blast
  qed
qed (use assms(2) in \<open>auto simp: runCreate_def\<close>)

definition demo_flags :: create_flags where
  "demo_flags = read_create (demo_getters create_decls (map_of
     [(''name'', FString ''gre1''), (''local'', FString ''10.0.0.1''), (''remote'', FString ''10.0.0.2''),
      (''tunnel-ip'', FString ''10.9.0.0/24'')]))"

lemma demo_runCreate:
  "fst (fst (runCreate (demo_nl no_errs) demo_flags newMockNetlinker)) \<noteq> None"
  "map_option link_name (mock_links (snd (runCreate (demo_nl no_errs) demo_flags newMockNetlinker)) ''gre1'') = Some ''gre1''"
  "mock_links newMockNetlinker ''gre1'' = None"
  by code_simp+

theorem run_create_outcome_witness:
  "\<exists>s. Get background (demo_nl no_errs) ''gre1'' (snd (runCreate (demo_nl no_errs) demo_flags newMockNetlinker)) = Inr s \<and>
     st_Up s \<and> fst (fst (runCreate (demo_nl no_errs) demo_flags newMockNetlinker)) \<noteq> None"
proof -
  obtain err out k' where r: "runCreate (demo_nl no_errs) demo_flags newMockNetlinker = ((err, out), k')"
    by (metis prod.collapse)
  have "mock_links k' \<noteq> mock_links newMockNetlinker" using demo_runCreate(2,3) r by auto
  moreover have "cf_name demo_flags = ''gre1''" by code_simp
  ultimately show ?thesis
    using run_create_outcome [OF clean.netlink_cleanup_axioms [unfolded netlink_cleanup_def, THEN conjunct1] r]
      clean.netlink_cleanup_axioms demo_runCreate(1) r by auto
qed

text \<open>The probe command decides by the threshold: without the JSON flag its exit status is zero
  exactly when at least the threshold of all its probes succeeded; with the flag it is zero
  always. (Its context never ends.)\<close>

theorem run_probe_exit:
  assumes "\<And>i. \<not> se_check se i \<and> \<not> se_pause se i"
    and "runProbe show_rtt text jsonOutput se target cnt timeout threshold = Some (err, out)"
  shows "err = None \<longleftrightarrow> jsonOutput \<or>
    threshold \<le> int (length (filter pr_Success (map (\<lambda>i. Probe (se_probe se i) target timeout) [0..<nat cnt])))"
proof -
  have alive: "alive_until se (nat cnt) (nat cnt)" using assms(1) by (simp add: alive_until_def)
  obtain healthy rs where r: "ProbeMultiple se target cnt timeout threshold = Some (healthy, rs)"
    using assms(2) by (auto simp: runProbe_def split: option.splits)
  have "rs = map (probe_of se target timeout) [0..<nat cnt] \<and>
      healthy = (threshold \<le> int (length (filter pr_Success rs)))"
    using probe_loop_spec [of 0 cnt se target timeout threshold 0 healthy rs] r alive
    by (auto simp: ProbeMultiple_def alive_until_def split: if_splits)
  then show ?thesis using assms(2) r by (auto simp: runProbe_def Let_def split: if_splits)
qed

theorem run_probe_exit_witness:
  "fst (the (runProbe (\<lambda>_. '''') (\<lambda>_. '''') False (demo_series\<lparr>se_pause := (\<lambda>_. False)\<rparr>) ''h'' 3 second 2)) = None"
proof -
  let ?se = "demo_series\<lparr>se_pause := (\<lambda>_. False)\<rparr>"
  have "runProbe (\<lambda>_. '''') (\<lambda>_. '''') False ?se ''h'' 3 second 2 \<noteq> None"
    by (simp add: runProbe_def ProbeMultiple_def split: prod.split)
  then obtain err out where r: "runProbe (\<lambda>_. '''') (\<lambda>_. '''') False ?se ''h'' 3 second 2 = Some (err, out)"
    by auto
  have "err = None"
    using run_probe_exit [OF _ r] by (simp add: demo_series_def demo_probe)
  then show ?thesis using r by simp
qed

text \<open>A row of the health table is healthy exactly when the probe of that tunnel's remote address
  succeeded; a tunnel without a remote address is never healthy, and with a live context
  every other tunnel has been probed.\<close>

theorem health_row_iff:
  assumes "health_probe nl ctx probes k = Inr rows" and "List ctx nl k = Inr tunnels"
    and "ProbeTargets (health_targets tunnels) timeout concurrency ctx (probes (health_targets tunnels)) c'"
    and "i < length tunnels"
  shows "length rows = length tunnels \<and> hr_Name (rows ! i) = st_Name (tunnels ! i) \<and>
    (hr_Healthy (rows ! i) \<longleftrightarrow> st_RemoteIP (tunnels ! i) \<noteq> '''' \<and>
       (\<exists>r. probes (health_targets tunnels) (st_RemoteIP (tunnels ! i)) = Some r \<and>
            pr_Target r = st_RemoteIP (tunnels ! i) \<and> pr_Success r)) \<and>
    (c' = None \<longrightarrow> st_RemoteIP (tunnels ! i) \<noteq> '''' \<longrightarrow>
       probes (health_targets tunnels) (st_RemoteIP (tunnels ! i)) \<noteq> None)"
proof -
  have "'''' \<notin> set (health_targets tunnels)" by (auto simp: health_targets_def)
  then have "probes (health_targets tunnels) '''' = None" using ProbeTargets_sound [OF assms(3)] by blast
  moreover have "st_RemoteIP (tunnels ! i) \<noteq> '''' \<Longrightarrow> st_RemoteIP (tunnels ! i) \<in> set (health_targets tunnels)"
    using assms(4) by (auto simp: health_targets_def)
  ultimately show ?thesis
    using ProbeTargets_sound [OF assms(3)] assms(1,2,4)
    by (auto simp: health_probe_def health_row_def Let_def split: option.splits)
qed

theorem health_row_iff_witness:
  "\<exists>tunnels rows probes. List background (demo_nl no_errs) demo_listed = Inr tunnels \<and>
     health_probe (demo_nl no_errs) background probes demo_listed = Inr rows \<and> length rows = 1 \<and>
     hr_Name (rows ! 0) = st_Name (tunnels ! 0)"
proof -
  obtain t where t: "List background (demo_nl no_errs) demo_listed = Inr [t]"
    using demo_list by (cases "List background (demo_nl no_errs) demo_listed") (auto simp: map_eq_Cons_conv)
  obtain m where m: "ProbeTargets (health_targets [t]) second 1 background m background"
    using ProbeTargets_returns by blast
  have rows: "health_probe (demo_nl no_errs) background (\<lambda>_. m) demo_listed = Inr (map (health_row m) [t])"
    using t by (simp add: health_probe_def)
  from health_row_iff [OF rows t m, of 0] show ?thesis using t rows by auto
qed

subsection \<open>Privileges and the coordinator\<close>

text \<open>The hook of the root command refuses a process that is not root, also one that has the
  capability, before a netlink handle is opened; the version command passes without one.\<close>

lemma PersistentPreRunE_unprivileged:
  "euid \<noteq> 0 \<Longrightarrow> cmd \<noteq> ''version'' \<Longrightarrow> \<exists>e. snd (PersistentPreRunE cmd fe euid newHandle) = Inl e"
  "snd (PersistentPreRunE ''version'' fe euid newHandle) = Inr None"
  by (simp_all add: PersistentPreRunE_def CheckNetAdmin_def Let_def)

text \<open>The coordinator serves TLS only when it is given both a certificate and a key: with one of them
  alone it serves plain HTTP, without a warning; what the TLS server would do has no
  influence.\<close>

lemma tls_needs_both:
  "co_cert f = [] \<or> co_key f = [] \<Longrightarrow>
     coord_main h now (sv\<lparr>ListenAndServeTLS := tls\<rparr>) f = coord_main h now sv f"
  by (auto simp: coord_main_def coord_serve_def Let_def split: option.split)

text \<open>The coordinator ends regularly exactly when its pool is a prefix and the server stops without
  an error or with that of an orderly shutdown.\<close>

lemma coord_main_regular:
  "coord_main h now sv f = None \<longleftrightarrow>
     (\<exists>prefix. parse_prefix (co_pool f) = Some prefix \<and>
        (\<forall>e. coord_serve sv f (NewMemStore h now prefix) = Some e \<longrightarrow> sv_closed sv e))"
  by (auto simp: coord_main_def Let_def split: option.splits)

end
