(* ===== verification/Daemon_Timing.thy ===== *)
theory Daemon_Timing
  imports Daemon_Metrics
begin

text \<open>
  The tickers of a peer's driver, \<open>run\<close> in \<open>internal/daemon/peer.go\<close>. The step relation of
  \<open>Daemon_Peer\<close> lets the two tickers fire at any time; here they fire as they are set, each tick
  being handled at most \<open>slack\<close> later than its period after the one before. The timed steps are
  steps of that relation, and give bounds on how long a machine punches and on how long it
  believes in a path that is silent.
\<close>

section \<open>The driver with its tickers\<close>

definition punchInterval :: duration where "punchInterval = 250 * millisecond"
definition keepaliveEvery :: duration where "keepaliveEvery = 25 * second"

text \<open>The machine and when each ticker was last served; both start with the driver.\<close>

record 'k driver =
  dv_sys :: "'k psys"
  dv_tick :: gotime
  dv_ka :: gotime

definition driver_start :: "peerDeps \<Rightarrow> RemotePeer \<Rightarrow> 'k \<Rightarrow> gotime \<Rightarrow> 'k driver" where
  "driver_start d peer k t = \<lparr>dv_sys = fsm_start d peer k t, dv_tick = t, dv_ka = t\<rparr>"

text \<open>At time \<open>t\<close> neither ticker is overdue.\<close>

definition prompt :: "duration \<Rightarrow> gotime \<Rightarrow> 'k driver \<Rightarrow> bool" where
  "prompt slack t v \<longleftrightarrow> t \<le> dv_tick v + punchInterval + slack \<and> t \<le> dv_ka v + keepaliveEvery + slack"

inductive timely_step :: "'k Netlinker \<Rightarrow> duration \<Rightarrow> 'k driver \<Rightarrow> 'k driver \<Rightarrow> bool" for nl slack where
  tick: "driver_free (dv_sys v) \<Longrightarrow> timed fe (dv_sys v) \<Longrightarrow> tickPunch fe (ps_fsm (dv_sys v)) = (p, effs) \<Longrightarrow>
    prompt slack (fe_now fe) v \<Longrightarrow>
    timely_step nl slack v (v\<lparr>dv_sys := (dv_sys v)\<lparr>ps_fsm := p, ps_clock := fe_now fe\<rparr>, dv_tick := fe_now fe\<rparr>)"
| keep: "driver_free (dv_sys v) \<Longrightarrow> timed fe (dv_sys v) \<Longrightarrow> keepalive fe (ps_fsm (dv_sys v)) = (p, effs) \<Longrightarrow>
    prompt slack (fe_now fe) v \<Longrightarrow>
    timely_step nl slack v (v\<lparr>dv_sys := (dv_sys v)\<lparr>ps_fsm := p, ps_clock := fe_now fe\<rparr>, dv_ka := fe_now fe\<rparr>)"
| other: "fsm_step nl (dv_sys v) s \<Longrightarrow> prompt slack (ps_clock s) v \<Longrightarrow>
    timely_step nl slack v (v\<lparr>dv_sys := s\<rparr>)"

inductive timely_reachable :: "'k Netlinker \<Rightarrow> duration \<Rightarrow> 'k driver \<Rightarrow> bool" for nl slack where
  start: "zero_time \<le> t \<Longrightarrow> timely_reachable nl slack (driver_start d peer k t)"
| step: "timely_reachable nl slack v \<Longrightarrow> timely_step nl slack v w \<Longrightarrow> timely_reachable nl slack w"

inductive_cases timely_stepE: "timely_step nl slack v w"

section \<open>Timed runs are runs\<close>

lemma fsm_step_clock: "fsm_step nl s s' \<Longrightarrow> ps_clock s \<le> ps_clock s'"
  by (cases rule: fsm_step.cases) (auto simp: timed_def)

lemma timely_fsm_step: "timely_step nl slack v w \<Longrightarrow> fsm_step nl (dv_sys v) (dv_sys w)"
  by (cases rule: timely_step.cases) (auto intro: fsm_step.tick fsm_step.keep)

lemma timely_step_prompt: "timely_step nl slack v w \<Longrightarrow> prompt slack (ps_clock (dv_sys w)) v"
  by (cases rule: timely_step.cases) auto

text \<open>The tickers were served in the past.\<close>

definition served :: "'k driver \<Rightarrow> bool" where
  "served v \<longleftrightarrow> dv_tick v \<le> ps_clock (dv_sys v) \<and> dv_ka v \<le> ps_clock (dv_sys v)"

lemma timely_step_served: "timely_step nl slack v w \<Longrightarrow> served v \<Longrightarrow> served w"
  by (cases rule: timely_step.cases) (auto simp: served_def timed_def dest: fsm_step_clock)

lemma timely_reachable_sound: "timely_reachable nl slack v \<Longrightarrow> fsm_reachable nl (dv_sys v) \<and> served v"
proof (induction rule: timely_reachable.induct)
  case (start t d peer k)
  then show ?case by (auto simp: driver_start_def served_def fsm_start_def intro: fsm_reachable.start [unfolded fsm_start_def])
next
  case (step v w)
  then show ?case using timely_fsm_step timely_step_served fsm_reachable.step by blast
qed

section \<open>A run within a phase\<close>

text \<open>The timed runs that stay within the states in which \<open>P\<close> holds of the machine.\<close>

definition staying :: "'k Netlinker \<Rightarrow> duration \<Rightarrow> (peerFSM \<Rightarrow> bool) \<Rightarrow> 'k driver \<Rightarrow> 'k driver \<Rightarrow> bool" where
  "staying nl slack P = (\<lambda>v w. timely_step nl slack v w \<and> P (ps_fsm (dv_sys w)))\<^sup>*\<^sup>*"

text \<open>If in that phase a ticker is never served after the time \<open>limit\<close>, the phase is over one
  period later.\<close>

lemma staying_bound:
  assumes "staying nl slack P v w" and "P (ps_fsm (dv_sys v))" and "served v" and "0 \<le> period" and "0 \<le> slack"
    and "\<And>x. served x \<Longrightarrow> served_at x \<le> ps_clock (dv_sys x)"
    and "\<And>x t. prompt slack t x \<Longrightarrow> t \<le> served_at x + period + slack"
    and "\<And>x y. P (ps_fsm (dv_sys x)) \<Longrightarrow> timely_step nl slack x y \<Longrightarrow> P (ps_fsm (dv_sys y)) \<Longrightarrow> served_at y = served_at x \<or> served_at y \<le> limit"
  shows "ps_clock (dv_sys w) \<le> max (ps_clock (dv_sys v)) limit + period + slack"
proof -
  let ?b = "max (ps_clock (dv_sys v)) limit"
  from assms(1) have "P (ps_fsm (dv_sys w)) \<and> served_at w \<le> ?b \<and> ps_clock (dv_sys w) \<le> ?b + period + slack"
    unfolding staying_def
  proof (induction rule: rtranclp_induct)
    case base
    show ?case using assms(2-5) assms(6) [of v] by (auto simp: max_def)
  next
    case (step x y)
    have "ps_clock (dv_sys y) \<le> served_at x + period + slack"
      using assms(7) timely_step_prompt step.hyps(2) by blast
    moreover have "served_at y = served_at x \<or> served_at y \<le> limit" using assms(8) step by blast
    ultimately show ?case using step by auto
  qed
  then show ?thesis by simp
qed

section \<open>Properties\<close>

text \<open>C33: Punching ends: when the ticker of the driver is served on time up to a delay \<open>slack\<close>, a machine that
  is punching has left that state, for a direct path or for the relay, at most one tick of
  250 milliseconds after its deadline, or after the start of the observation if that is
  later; and the deadline is never more than five seconds ahead.\<close>

theorem punching_ends:
  assumes "timely_reachable nl slack v" and "0 \<le> slack" and "state (ps_fsm (dv_sys v)) = statePunching"
    and "staying nl slack (\<lambda>p. state p = statePunching) v w"
  shows "ps_clock (dv_sys w) \<le>
      max (ps_clock (dv_sys v)) (punchDeadline (ps_fsm (dv_sys v))) + 250 * millisecond + slack \<and>
    punchDeadline (ps_fsm (dv_sys v)) \<le> ps_clock (dv_sys v) + 5 * second"
proof -
  note sound = timely_reachable_sound [OF assms(1)]
  let ?P = "\<lambda>p. state p = statePunching \<and> punchDeadline p = punchDeadline (ps_fsm (dv_sys v))"
  have "staying nl slack ?P v w"
    using assms(4) unfolding staying_def
  proof (induction rule: rtranclp_induct)
    case (step x y)
    have "?P (ps_fsm (dv_sys x))" using step.IH assms(3) by (cases rule: rtranclp.cases) auto
    then have "?P (ps_fsm (dv_sys y))"
      using fsm_step_start [OF timely_fsm_step] step.hyps(2) by (fastforce simp: started_def)
    with step show ?case by (simp add: rtranclp.rtrancl_into_rtrancl)
  qed simp
  then have "ps_clock (dv_sys w) \<le>
      max (ps_clock (dv_sys v)) (punchDeadline (ps_fsm (dv_sys v))) + punchInterval + slack"
  proof (rule staying_bound [where served_at = dv_tick])
    fix x y :: "'a driver"
    assume x: "?P (ps_fsm (dv_sys x))" "timely_step nl slack x y" "?P (ps_fsm (dv_sys y))"
    show "dv_tick y = dv_tick x \<or> dv_tick y \<le> punchDeadline (ps_fsm (dv_sys v))"
      using x(2,1,3) by (cases rule: timely_step.cases) (auto simp: tickPunch_def setState_def split: if_splits)
  qed (use assms(2,3) sound in \<open>auto simp: served_def prompt_def punchInterval_def time_defs\<close>)
  then show ?thesis
    using fsm_reachable_ok [of nl "dv_sys v"] sound
    by (simp add: punchInterval_def fsm_ok_def punchAttemptDur_def)
qed

text \<open>C34: Silence is noticed: when the keepalive ticker is served on time up to a delay \<open>slack\<close>, a machine
  believes in a direct path without any new pong for at most 25 seconds beyond the 75 seconds
  that the last pong is good for.\<close>

theorem silence_detected:
  assumes "timely_reachable nl slack v" and "0 \<le> slack"
    and "state (ps_fsm (dv_sys v)) = stateDirect" and "lastPong (ps_fsm (dv_sys v)) = t"
    and "staying nl slack (\<lambda>p. state p = stateDirect \<and> lastPong p = t) v w"
  shows "ps_clock (dv_sys w) \<le> max (ps_clock (dv_sys v)) (t + 75 * second) + 25 * second + slack"
proof -
  note sound = timely_reachable_sound [OF assms(1)]
  have "ps_clock (dv_sys w) \<le> max (ps_clock (dv_sys v)) (t + 75 * second) + keepaliveEvery + slack"
  proof (rule staying_bound [OF assms(5), where served_at = dv_ka])
    fix x y :: "'a driver"
    assume x: "state (ps_fsm (dv_sys x)) = stateDirect \<and> lastPong (ps_fsm (dv_sys x)) = t" "timely_step nl slack x y"
      "state (ps_fsm (dv_sys y)) = stateDirect \<and> lastPong (ps_fsm (dv_sys y)) = t"
    show "dv_ka y = dv_ka x \<or> dv_ka y \<le> t + 75 * second"
      using x(2,1,3) by (cases rule: timely_step.cases)
        (auto simp: keepalive_def setState_def pongMissDeadline_def time_defs split: if_splits)
  qed (use assms(2-4) sound in \<open>auto simp: served_def prompt_def keepaliveEvery_def time_defs\<close>)
  then show ?thesis by (simp add: keepaliveEvery_def)
qed

subsection \<open>Concrete drivers for the witnesses\<close>

definition demo_driver :: "mocknl psys \<Rightarrow> mocknl driver" where
  "demo_driver s = \<lparr>dv_sys = s, dv_tick = zero_time, dv_ka = zero_time\<rparr>"

definition demo_announced :: "mocknl psys" where
  "demo_announced = (let s = fsm_start demo_deps demo_remote newMockNetlinker zero_time in
     s\<lparr>ps_fsm := (ps_fsm s)\<lparr>incoming := [evUpdate]\<rparr>, ps_pending := Some demo_remote\<rparr>)"

definition demo_noticed :: "mocknl psys" where
  "demo_noticed = demo_announced\<lparr>ps_fsm := noticeEndpoints ((ps_fsm demo_announced)\<lparr>incoming := []\<rparr>)\<rparr>"

definition demo_punching :: "mocknl psys" where
  "demo_punching = demo_noticed\<lparr>ps_fsm := startPunching (demo_fe 0) (ps_fsm demo_noticed)\<rparr>"

lemmas demo_start_defs = fsm_start_def run_start_def newPeerFSM_def setState_def

lemma demo_driver_step:
  assumes "timely_reachable nl slack (demo_driver s)" and "fsm_step nl s s'"
    and "0 \<le> slack" and "ps_clock s' \<le> 250 * millisecond + slack"
  shows "timely_step nl slack (demo_driver s) (demo_driver s')" and "timely_reachable nl slack (demo_driver s')"
proof -
  show "timely_step nl slack (demo_driver s) (demo_driver s')"
    using timely_step.other [of nl "demo_driver s" s' slack] assms(2-)
    by (simp add: demo_driver_def prompt_def punchInterval_def keepaliveEvery_def time_defs)
  with assms(1) show "timely_reachable nl slack (demo_driver s')" by (rule timely_reachable.step)
qed

lemma demo_driver_start:
  "timely_reachable nl slack (demo_driver (fsm_start demo_deps demo_remote newMockNetlinker zero_time))"
  unfolding demo_driver_def by (rule timely_reachable.start [unfolded driver_start_def]) simp

lemma demo_punching_reachable: "timely_reachable (demo_nl no_errs) 0 (demo_driver demo_punching)"
proof -
  have "fsm_step (demo_nl no_errs) (fsm_start demo_deps demo_remote newMockNetlinker zero_time) demo_announced"
    unfolding demo_announced_def Let_def
    by (rule fsm_step.update_send) (simp_all add: demo_start_defs try_send_def incomingCap_def)
  from demo_driver_step(2) [OF demo_driver_start this]
  have announced: "timely_reachable (demo_nl no_errs) 0 (demo_driver demo_announced)"
    by (simp add: demo_announced_def Let_def demo_start_defs time_defs)
  have same: "s\<lparr>ps_fsm := q, ps_kernel := ps_kernel s, ps_clock := fe_now2 (demo_fe 0)\<rparr> = s\<lparr>ps_fsm := q\<rparr>"
    "s\<lparr>ps_fsm := q, ps_clock := fe_now2 (demo_fe 0)\<rparr> = s\<lparr>ps_fsm := q\<rparr>" if "ps_clock s = 0" for s :: "mocknl psys" and q
    using that by (simp_all add: demo_fe_times)
  have clock: "ps_clock demo_announced = 0" "ps_clock demo_noticed = 0" "ps_clock demo_punching = 0"
    by (simp_all add: demo_punching_def demo_noticed_def demo_announced_def Let_def demo_start_defs time_defs)
  have "fsm_step (demo_nl no_errs) demo_announced
      (demo_announced\<lparr>ps_fsm := noticeEndpoints ((ps_fsm demo_announced)\<lparr>incoming := []\<rparr>),
        ps_kernel := ps_kernel demo_announced, ps_clock := fe_now2 (demo_fe 0)\<rparr>)"
    by (rule fsm_step.receive [where fe = "demo_fe 0" and ev = evUpdate and evs = "[]"])
      (simp_all add: demo_announced_def Let_def demo_start_defs timed_def driver_free_def demo_fe_times time_defs)
  from this [unfolded same(1) [OF clock(1)], folded demo_noticed_def]
  have noticed: "timely_reachable (demo_nl no_errs) 0 (demo_driver demo_noticed)"
    by (rule demo_driver_step(2) [OF announced]) (simp_all add: clock time_defs)
  have "fsm_step (demo_nl no_errs) demo_noticed
      (demo_noticed\<lparr>ps_fsm := startPunching (demo_fe 0) (ps_fsm demo_noticed), ps_clock := fe_now2 (demo_fe 0)\<rparr>)"
    by (rule fsm_step.advance)
      (simp_all add: demo_noticed_def demo_announced_def Let_def demo_start_defs noticeEndpoints_def demo_remote_def
        timed_def demo_fe_times time_defs)
  from this [unfolded same(2) [OF clock(2)], folded demo_punching_def]
  show ?thesis by (rule demo_driver_step(2) [OF noticed]) (simp_all add: clock time_defs)
qed

theorem punching_ends_witness:
  "\<exists>w. staying (demo_nl no_errs) 0 (\<lambda>p. state p = statePunching) (demo_driver demo_punching) w \<and>
     ps_clock (dv_sys w) = 250 * millisecond \<and> punchDeadline (ps_fsm demo_punching) \<le> 5 * second \<and>
     ps_clock (dv_sys w) \<le> max 0 (punchDeadline (ps_fsm demo_punching)) + 250 * millisecond"
proof -
  let ?v = "demo_driver demo_punching" and ?fe = "demo_fe (250 * millisecond)"
  have st: "state (ps_fsm (dv_sys ?v)) = statePunching" "ps_clock (dv_sys ?v) = 0" "driver_free (dv_sys ?v)"
    "punchDeadline (ps_fsm (dv_sys ?v)) = 5 * second"
    by (simp_all add: demo_driver_def demo_punching_def demo_noticed_def demo_announced_def Let_def demo_start_defs
        noticeEndpoints_def startPunching_def driver_free_def demo_remote_def demo_fe_times punchAttemptDur_def time_defs)
  have served: "dv_tick ?v = 0" "dv_ka ?v = 0" by (simp_all add: demo_driver_def time_defs)
  obtain effs where tick: "tickPunch ?fe (ps_fsm (dv_sys ?v)) = (ps_fsm (dv_sys ?v), effs)"
    using st by (simp add: tickPunch_def demo_fe_times time_defs)
  let ?w = "?v\<lparr>dv_sys := (dv_sys ?v)\<lparr>ps_fsm := ps_fsm (dv_sys ?v), ps_clock := fe_now ?fe\<rparr>, dv_tick := fe_now ?fe\<rparr>"
  have "timely_step (demo_nl no_errs) 0 ?v ?w"
    by (rule timely_step.tick [OF st(3) _ tick])
      (simp_all add: timed_def st(2) demo_fe_times prompt_def punchInterval_def keepaliveEvery_def time_defs served)
  then have stay: "staying (demo_nl no_errs) 0 (\<lambda>p. state p = statePunching) ?v ?w"
    unfolding staying_def using st(1) by (intro r_into_rtranclp) simp
  have clock: "ps_clock (dv_sys ?w) = 250 * millisecond" by (simp add: demo_fe_times)
  from punching_ends [OF demo_punching_reachable _ st(1) stay] show ?thesis
    using stay clock st(2,4) by (intro exI [of _ ?w]) (auto simp: demo_driver_def)
qed

theorem silence_detected_witness:
  "\<exists>w. staying (demo_nl no_errs) (10 * second) (\<lambda>p. state p = stateDirect \<and> lastPong p = 10 * second) (demo_driver demo_direct) w \<and>
     dv_ka w = 10 * second \<and> ps_clock (dv_sys w) \<le> 120 * second"
proof -
  let ?v = "demo_driver demo_direct" and ?fe = "demo_fe (10 * second)"
  have "fsm_step (demo_nl no_errs) (fsm_start demo_deps demo_remote newMockNetlinker zero_time) demo_inbox"
    unfolding demo_inbox_def Let_def by (rule fsm_step.udp)
  from demo_driver_step(2) [OF demo_driver_start this, of "10 * second"]
  have inbox: "timely_reachable (demo_nl no_errs) (10 * second) (demo_driver demo_inbox)"
    by (simp add: demo_inbox_fields time_defs)
  have clock: "ps_clock demo_direct = 10 * second" "\<not> ps_exited demo_direct"
    using demo_inbox_fields(4) by (simp_all add: demo_direct_def Let_def)
  have v: "timely_reachable (demo_nl no_errs) (10 * second) ?v"
    by (rule demo_driver_step(2) [OF inbox demo_direct_step]) (simp_all add: clock time_defs)
  have st: "state (ps_fsm (dv_sys ?v)) = stateDirect" "lastPong (ps_fsm (dv_sys ?v)) = 10 * second"
    by (simp_all add: demo_driver_def demo_direct_state)
  obtain effs where keep: "keepalive ?fe (ps_fsm (dv_sys ?v)) = (ps_fsm (dv_sys ?v), effs)"
    using st by (simp add: keepalive_def demo_fe_times pongMissDeadline_def time_defs)
  let ?w = "?v\<lparr>dv_sys := (dv_sys ?v)\<lparr>ps_fsm := ps_fsm (dv_sys ?v), ps_clock := fe_now ?fe\<rparr>, dv_ka := fe_now ?fe\<rparr>"
  have "timely_step (demo_nl no_errs) (10 * second) ?v ?w"
    by (rule timely_step.keep [OF _ _ keep])
      (simp_all add: timed_def clock driver_free_def demo_direct_state demo_fe_times prompt_def demo_driver_def punchInterval_def keepaliveEvery_def time_defs)
  then have stay: "staying (demo_nl no_errs) (10 * second) (\<lambda>p. state p = stateDirect \<and> lastPong p = 10 * second) ?v ?w"
    unfolding staying_def using st by (intro r_into_rtranclp) simp
  from silence_detected [OF v _ st stay] show ?thesis
    using stay by (intro exI [of _ ?w]) (simp add: demo_driver_def clock demo_fe_times time_defs)
qed

end
