(* ===== verification/Coord_Server.thy ===== *)
theory Coord_Server
  imports Coord_Store Coord_Auth Tunnel_Errors
begin

text \<open>
  The HTTP API of the coordinator, \<open>internal/coord/server.go\<close>, over the in-memory store:
  routing, authentication, and one definition per handler. The two long-polling handlers
  are split where they block. The JSON texts of requests and responses are read and written
  by an argument; a response is its status with the value to be written. A handler that enters
  the store several times (\<open>handlePeers\<close>, \<open>handleSignalPull\<close>, \<open>handleRegister\<close>) is given for the case
  that no other request is served between its calls; what other requests may do in between is
  covered by the properties of the store, which hold for every order of its operations.
\<close>

section \<open>Requests and responses\<close>

record RegisterReq =
  rr_NodePubkey :: "byte list"
  rr_DiscoPubkey :: key32
  rr_NodeName :: string
  rr_RequestedTunnelIP :: string

record SignalReq =
  sr_To :: key32
  sr_Sealed :: "byte list"

datatype payload =
    ErrorText goerror
  | RegisterResp string string
  | OkResp string
  | PeersResp string "peer list"
  | SignalsResp "envelope list"

type_synonym response = "nat \<times> payload"

record api_codec =
  decode_RegisterReq :: "byte list res \<Rightarrow> RegisterReq res"
  decode_EndpointsReq :: "byte list \<Rightarrow> endpoint list res"
  decode_SignalReq :: "byte list \<Rightarrow> SignalReq res"
  marshal_error :: "payload \<Rightarrow> goerror option"

definition StatusOK :: nat where "StatusOK = 200"
definition StatusBadRequest :: nat where "StatusBadRequest = 400"
definition StatusUnauthorized :: nat where "StatusUnauthorized = 401"
definition StatusNotFound :: nat where "StatusNotFound = 404"
definition StatusInternalServerError :: nat where "StatusInternalServerError = 500"

lemmas status_defs = StatusOK_def StatusBadRequest_def StatusUnauthorized_def StatusNotFound_def
  StatusInternalServerError_def

definition http_Error :: "goerror \<Rightarrow> nat \<Rightarrow> response" where
  "http_Error e status = (status, ErrorText e)"

definition writeJSON :: "api_codec \<Rightarrow> nat \<Rightarrow> payload \<Rightarrow> response" where
  "writeJSON cd status body =
     (case marshal_error cd body of
        Some e \<Rightarrow> http_Error (EWrap ''marshal: %w'' [] e) StatusInternalServerError
      | None \<Rightarrow> (status, body))"

text \<open>What a handler needs from its surroundings: the codec, the cryptography, the wall clock in
  seconds and as a time, its later reading for the etag, and the context of the request.\<close>

record srv_env =
  se_codec :: api_codec
  se_crypto :: crypto
  se_unix :: int64
  se_now :: gotime
  se_etagNow :: gotime
  se_ctx :: ctx

section \<open>Handlers\<close>

text \<open>How long a poll is held when nothing happens.\<close>

definition longPollTimeout :: duration where
  "longPollTimeout = 25 * second"

text \<open>A handler either has replied or is blocked in a long poll: for a change of the peer list,
  or for a signal to a disco key.\<close>

datatype progress = Replied response | PollPeers chan | PollSignal key32 chan

definition handleRegister :: "srv_env \<Rightarrow> http_request \<Rightarrow> memstore \<Rightarrow> response \<times> memstore" where
  "handleRegister se r s =
     (case decode_RegisterReq (se_codec se) (rq_Body r) of
        Inl e \<Rightarrow> (http_Error (EMsg ''bad json'') StatusBadRequest, s)
      | Inr req \<Rightarrow>
          (if length (rr_NodePubkey req) \<noteq> 32
           then (http_Error (EMsg ''bad node_pubkey length'') StatusBadRequest, s)
           else
             (case Register (sha256 (se_crypto se)) (se_now se) (se_etagNow se) (se_ctx se)
                     \<lparr>NodeKey = rr_NodePubkey req, DiscoKey = rr_DiscoPubkey req, Name = rr_NodeName req,
                      TunnelIP = AddrZero, Endpoints = [], UpdatedAt = zero_time\<rparr> s of
                (Inl e, s1) \<Rightarrow> (http_Error e StatusInternalServerError, s1)
              | (Inr tunnelIP, s1) \<Rightarrow>
                  (let etag = (case Peers (se_ctx se) s1 of Inr (_, etag) \<Rightarrow> etag | Inl _ \<Rightarrow> '''')
                   in (writeJSON (se_codec se) StatusOK
                         (RegisterResp (addr_String tunnelIP @ ''/24'') etag), s1)))))"

definition handleEndpoints ::
  "srv_env \<Rightarrow> http_request \<Rightarrow> byte list \<Rightarrow> byte list \<Rightarrow> memstore \<Rightarrow> response \<times> memstore" where
  "handleEndpoints se r pub body s =
     (case decode_EndpointsReq (se_codec se) body of
        Inl e \<Rightarrow> (http_Error (EMsg ''bad json'') StatusBadRequest, s)
      | Inr eps \<Rightarrow>
          (case SetEndpoints (sha256 (se_crypto se)) (se_now se) (se_etagNow se) (se_ctx se) pub eps s of
             (Inl e, s1) \<Rightarrow> (http_Error e StatusNotFound, s1)
           | (Inr _, s1) \<Rightarrow> (writeJSON (se_codec se) StatusOK (OkResp ''ok''), s1)))"

definition finish_peers :: "srv_env \<Rightarrow> memstore \<Rightarrow> response" where
  "finish_peers se s =
     (case Peers (se_ctx se) s of
        Inl e \<Rightarrow> http_Error e StatusInternalServerError
      | Inr (ps, etag) \<Rightarrow> writeJSON (se_codec se) StatusOK (PeersResp etag ps))"

definition handlePeers :: "srv_env \<Rightarrow> http_request \<Rightarrow> memstore \<Rightarrow> progress" where
  "handlePeers se r s =
     (let since = get_value (rq_Query r) ''since'' in
      if since \<noteq> '''' then
        (case WaitForPeersChange since s of
           Returned \<Rightarrow> Replied (finish_peers se s)
         | BlockedOn c \<Rightarrow> PollPeers c)
      else Replied (finish_peers se s))"

definition handleSignal ::
  "srv_env \<Rightarrow> http_request \<Rightarrow> byte list \<Rightarrow> byte list \<Rightarrow> memstore \<Rightarrow> response \<times> memstore" where
  "handleSignal se r pub body s =
     (case decode_SignalReq (se_codec se) body of
        Inl e \<Rightarrow> (http_Error (EMsg ''bad json'') StatusBadRequest, s)
      | Inr req \<Rightarrow>
          (let env = \<lparr>From = replicate 32 0, Sealed = sr_Sealed req, Enqueue = se_now se\<rparr> in
           case EnqueueSignal (se_ctx se) (sr_To req) env s of
             (Inl e, s1) \<Rightarrow> (http_Error e StatusInternalServerError, s1)
           | (Inr _, s1) \<Rightarrow> (writeJSON (se_codec se) StatusOK (OkResp ''queued''), s1)))"

definition discoKeyForNodeKey :: "ctx \<Rightarrow> byte list \<Rightarrow> memstore \<Rightarrow> key32 res" where
  "discoKeyForNodeKey ctx nodeKey s =
     (case Peers ctx s of
        Inl e \<Rightarrow> Inl e
      | Inr (ps, _) \<Rightarrow>
          (case find (\<lambda>p. NodeKey p = nodeKey) ps of
             Some p \<Rightarrow> Inr (DiscoKey p)
           | None \<Rightarrow> Inl (EMsg ''unregistered node'')))"

definition popped :: "envelope list res \<Rightarrow> envelope list" where
  "popped r = (case r of Inl _ \<Rightarrow> [] | Inr envs \<Rightarrow> envs)"

definition handleSignalPull ::
  "srv_env \<Rightarrow> http_request \<Rightarrow> byte list \<Rightarrow> memstore \<Rightarrow> progress \<times> memstore" where
  "handleSignalPull se r pub s =
     (case discoKeyForNodeKey (se_ctx se) pub s of
        Inl e \<Rightarrow> (Replied (http_Error e StatusBadRequest), s)
      | Inr to \<Rightarrow>
          (case PopSignals (se_now se) (se_ctx se) to s of
             (envs, s1) \<Rightarrow>
               (if popped envs = [] then
                  (case WaitForSignal to s1 of
                     (Returned, s2) \<Rightarrow>
                       (case PopSignals (se_now se) (se_ctx se) to s2 of
                          (envs', s3) \<Rightarrow>
                            (Replied (writeJSON (se_codec se) StatusOK (SignalsResp (popped envs'))), s3))
                   | (BlockedOn c, s2) \<Rightarrow> (PollSignal to c, s2))
                else (Replied (writeJSON (se_codec se) StatusOK (SignalsResp (popped envs))), s1))))"

text \<open>The end of a signal poll: woken by a signal the queue is popped again, after the time
  limit or a cancellation the reply is empty.\<close>

definition finish_signal :: "srv_env \<Rightarrow> bool \<Rightarrow> key32 \<Rightarrow> memstore \<Rightarrow> response \<times> memstore" where
  "finish_signal se woken to s =
     (if woken then
        (case PopSignals (se_now se) (se_ctx se) to s of
           (envs, s1) \<Rightarrow> (writeJSON (se_codec se) StatusOK (SignalsResp (popped envs)), s1))
      else (writeJSON (se_codec se) StatusOK (SignalsResp []), s))"

definition handleDebugPeers :: "srv_env \<Rightarrow> memstore \<Rightarrow> response" where
  "handleDebugPeers se s = finish_peers se s"

definition authed ::
  "(srv_env \<Rightarrow> http_request \<Rightarrow> byte list \<Rightarrow> byte list \<Rightarrow> memstore \<Rightarrow> progress \<times> memstore) \<Rightarrow>
   srv_env \<Rightarrow> http_request \<Rightarrow> memstore \<Rightarrow> progress \<times> memstore" where
  "authed h se r s =
     (case VerifyRequest (se_crypto se) (se_unix se) r of
        Inl e \<Rightarrow> (Replied (http_Error e StatusUnauthorized), s)
      | Inr (pub, body) \<Rightarrow> h se r pub body s)"

text \<open>The routes of \<open>NewServer\<close>; a pattern for GET also serves HEAD. \<open>None\<close> stands for the
  replies of the multiplexer itself (unknown path, wrong method, redirection to the clean
  form of a path), for which no handler runs.\<close>

definition is_GET :: "string \<Rightarrow> bool" where
  "is_GET m = (m = ''GET'' \<or> m = ''HEAD'')"

definition replied :: "response \<times> memstore \<Rightarrow> progress \<times> memstore" where
  "replied rs = (Replied (fst rs), snd rs)"

definition ServeHTTP :: "srv_env \<Rightarrow> http_request \<Rightarrow> memstore \<Rightarrow> progress option \<times> memstore" where
  "ServeHTTP se r s =
     (let m = rq_Method r; p = rq_Path r; run = (\<lambda>(pr, s'). (Some pr, s')) in
      if m = ''POST'' \<and> p = ''/v1/register'' then run (replied (handleRegister se r s))
      else if m = ''POST'' \<and> p = ''/v1/endpoints'' then
        run (authed (\<lambda>se r pub body s. replied (handleEndpoints se r pub body s)) se r s)
      else if is_GET m \<and> p = ''/v1/peers'' then
        run (authed (\<lambda>se r pub body s. (handlePeers se r s, s)) se r s)
      else if m = ''POST'' \<and> p = ''/v1/signal'' then
        run (authed (\<lambda>se r pub body s. replied (handleSignal se r pub body s)) se r s)
      else if is_GET m \<and> p = ''/v1/signal'' then
        run (authed (\<lambda>se r pub body s. handleSignalPull se r pub s) se r s)
      else if is_GET m \<and> p = ''/debug/peers'' then run (Replied (handleDebugPeers se s), s)
      else (None, s))"

section \<open>The store as the handlers see it\<close>

text \<open>The part of the \<open>Store\<close> interface the key lookup relies on: registering makes or
  changes the one listed entry of that node and touches no other.\<close>

locale peer_directory =
  fixes inv :: "'s \<Rightarrow> bool"
    and reg :: "peer \<Rightarrow> 's \<Rightarrow> addr res \<times> 's"
    and listing :: "'s \<Rightarrow> peer list"
  assumes reg_inv: "inv s \<Longrightarrow> inv (snd (reg p s))"
    and listed_unique: "inv s \<Longrightarrow> p \<in> set (listing s) \<Longrightarrow> q \<in> set (listing s) \<Longrightarrow>
      NodeKey p = NodeKey q \<Longrightarrow> p = q"
    and reg_entry: "inv s \<Longrightarrow> reg p s = (Inr ip, s') \<Longrightarrow>
      \<exists>q \<in> set (listing s'). NodeKey q = NodeKey p \<and> DiscoKey q = DiscoKey p \<and> TunnelIP q = ip"
    and reg_others: "inv s \<Longrightarrow> NodeKey q \<noteq> NodeKey p \<Longrightarrow>
      q \<in> set (listing (snd (reg p s))) \<longleftrightarrow> q \<in> set (listing s)"
begin

lemma find_entry: "inv s \<Longrightarrow> q \<in> set (listing s) \<Longrightarrow> NodeKey q = k \<Longrightarrow>
    find (\<lambda>p. NodeKey p = k) (listing s) = Some q"
  by (cases "find (\<lambda>p. NodeKey p = k) (listing s)")
    (auto simp: find_None_iff dest!: find_SomeD intro: listed_unique)

lemma find_registered:
  assumes "inv s" and "reg p s = (Inr ip, s')"
  shows "\<exists>q. find (\<lambda>x. NodeKey x = NodeKey p) (listing s') = Some q \<and> DiscoKey q = DiscoKey p \<and> TunnelIP q = ip"
proof -
  have "inv s'" using reg_inv [OF assms(1), of p] assms(2) by simp
  with reg_entry [OF assms] show ?thesis by (auto dest: find_entry)
qed

lemma find_others:
  assumes "inv s" and "k \<noteq> NodeKey p"
  shows "find (\<lambda>x. NodeKey x = k) (listing (snd (reg p s))) = find (\<lambda>x. NodeKey x = k) (listing s)"
proof (cases "find (\<lambda>x. NodeKey x = k) (listing s)")
  case None
  then have "\<And>x. x \<in> set (listing s) \<Longrightarrow> NodeKey x \<noteq> k" by (auto simp: find_None_iff)
  with assms reg_others [OF assms(1), of _ p]
  have "find (\<lambda>x. NodeKey x = k) (listing (snd (reg p s))) = None" by (intro find_NoneI) auto
  with None show ?thesis by simp
next
  case (Some q)
  then have "q \<in> set (listing s)" "NodeKey q = k" by (auto dest: find_SomeD)
  with assms reg_others [OF assms(1), of q p] have "q \<in> set (listing (snd (reg p s)))" by simp
  from find_entry [OF reg_inv [OF assms(1)] this \<open>NodeKey q = k\<close>] Some show ?thesis by simp
qed

end

definition store_listing :: "memstore \<Rightarrow> peer list" where
  "store_listing s = sort_key TunnelIP (map snd (peers s))"

lemma set_store_listing:
  "registry_wf s \<Longrightarrow> q \<in> set (store_listing s) \<longleftrightarrow> map_of (peers s) (base64Encode (NodeKey q)) = Some q"
proof -
  assume wf: "registry_wf s"
  have "q \<in> set (store_listing s) \<longleftrightarrow> (\<exists>k. map_of (peers s) k = Some q)"
    using wf by (force simp: store_listing_def registry_wf_def map_of_eq_Some_iff)
  with registry_wfD [OF wf] show ?thesis by blast
qed

lemma Register_lookup:
  assumes "Register h now et ctx p s = (Inr ip, s')" and "registry_wf s"
  shows "\<exists>q. NodeKey q = NodeKey p \<and> DiscoKey q = DiscoKey p \<and> TunnelIP q = ip \<and>
    map_of (peers s') = (map_of (peers s))(base64Encode (NodeKey p) \<mapsto> q)"
proof (cases rule: Register_cases [of h now et ctx p s])
  case (existing q)
  with assms(1) registry_wfD [OF assms(2) existing(3)] show ?thesis
    by (intro exI [of _ "q\<lparr>DiscoKey := DiscoKey p, Name := Name p, UpdatedAt := now\<rparr>"])
      (auto simp: alist_simps)
next
  case (fresh ip')
  with assms(1) show ?thesis
    by (intro exI [of _ "p\<lparr>TunnelIP := ip', UpdatedAt := now\<rparr>"]) (auto simp: alist_simps)
qed (use assms(1) in simp)

interpretation memdir: peer_directory registry_wf "Register h now et ctx" store_listing
  for h now et ctx
proof unfold_locales
  fix s :: memstore and p q :: peer and ip s'
  assume wf: "registry_wf s"
  show wf': "registry_wf (snd (Register h now et ctx p s))" using wf by (rule Register_registry_wf)
  show "p \<in> set (store_listing s) \<Longrightarrow> q \<in> set (store_listing s) \<Longrightarrow> NodeKey p = NodeKey q \<Longrightarrow> p = q"
    using wf by (simp add: set_store_listing)
  show "\<exists>q \<in> set (store_listing s'). NodeKey q = NodeKey p \<and> DiscoKey q = DiscoKey p \<and> TunnelIP q = ip"
    if "Register h now et ctx p s = (Inr ip, s')"
    using that Register_lookup [OF that wf] wf' by (auto simp: Bex_def set_store_listing)
  show "q \<in> set (store_listing (snd (Register h now et ctx p s))) \<longleftrightarrow> q \<in> set (store_listing s)"
    if "NodeKey q \<noteq> NodeKey p"
    using that wf wf'
    by (cases rule: Register_cases [of h now et ctx p s]) (auto simp: set_store_listing alist_simps)
qed

lemma discoKeyForNodeKey_find:
  "discoKeyForNodeKey background k s =
     (case find (\<lambda>p. NodeKey p = k) (store_listing s) of
        Some p \<Rightarrow> Inr (DiscoKey p) | None \<Rightarrow> Inl (EMsg ''unregistered node''))"
  by (simp add: discoKeyForNodeKey_def Peers_def Peers_in_def store_listing_def)

section \<open>Properties\<close>

text \<open>C23: A request that fails authentication changes nothing: on every route other than
  registration the store stays as it is, and the reply is 401 with the verification error,
  except for the open debug listing and for requests no handler serves.\<close>

theorem unauthenticated_inert:
  assumes "VerifyRequest (se_crypto se) (se_unix se) r = Inl e" and "rq_Path r \<noteq> ''/v1/register''"
    and "ServeHTTP se r s = (pr, s')"
  shows "s' = s \<and> (pr = None \<or> pr = Some (Replied (401, ErrorText e)) \<or>
    rq_Path r = ''/debug/peers'' \<and> pr = Some (Replied (handleDebugPeers se s)))"
  using assms
  by (auto simp: ServeHTTP_def Let_def authed_def http_Error_def StatusUnauthorized_def split: if_splits)

text \<open>C24: Registration decides the disco key of a node: right after a successful registration
  request, whatever its headers and whoever sent it, the key under which signals for that node
  are stored and fetched is the one in the request, also when the node was registered before
  with another key. The keys of all other nodes are unchanged.\<close>

theorem register_decides_disco_key:
  assumes "store_reachable s" and "se_ctx se = None"
    and "rq_Method r = ''POST''" and "rq_Path r = ''/v1/register''"
    and "decode_RegisterReq (se_codec se) (rq_Body r) = Inr req"
    and "ServeHTTP se r s = (Some (Replied (200, pl)), s')"
  shows "discoKeyForNodeKey background (rr_NodePubkey req) s' = Inr (rr_DiscoPubkey req) \<and>
    (k \<noteq> rr_NodePubkey req \<longrightarrow> discoKeyForNodeKey background k s' = discoKeyForNodeKey background k s)"
proof -
  have wf: "registry_wf s" using store_reachable_inv [OF assms(1)] by (simp add: store_inv_def)
  let ?p = "\<lparr>NodeKey = rr_NodePubkey req, DiscoKey = rr_DiscoPubkey req, Name = rr_NodeName req,
    TunnelIP = AddrZero, Endpoints = [], UpdatedAt = zero_time\<rparr>"
  let ?reg = "Register (sha256 (se_crypto se)) (se_now se) (se_etagNow se) None ?p s"
  have "fst (handleRegister se r s) = (200, pl)" "s' = snd (handleRegister se r s)"
    using assms(3,4,6) by (auto simp: ServeHTTP_def Let_def replied_def)
  then obtain ip where ip: "?reg = (Inr ip, s')"
    using assms(2,5)
    by (auto simp: handleRegister_def http_Error_def status_defs Let_def split: if_splits sum.splits prod.splits)
  have "k \<noteq> rr_NodePubkey req \<Longrightarrow>
      find (\<lambda>x. NodeKey x = k) (store_listing s') = find (\<lambda>x. NodeKey x = k) (store_listing s)"
    using memdir.find_others [OF wf, where p = ?p and k = k and h = "sha256 (se_crypto se)"
        and now = "se_now se" and et = "se_etagNow se" and ctx = None] ip by simp
  with memdir.find_registered [OF wf ip] show ?thesis
    by (auto simp: discoKeyForNodeKey_find)
qed

definition demo_api :: api_codec where
  "demo_api = \<lparr>decode_RegisterReq = (\<lambda>b. Inr \<lparr>rr_NodePubkey = replicate 32 1,
       rr_DiscoPubkey = (case b of Inr d \<Rightarrow> d | Inl _ \<Rightarrow> []), rr_NodeName = ''n'', rr_RequestedTunnelIP = ''''\<rparr>),
     decode_EndpointsReq = (\<lambda>b. Inr []),
     decode_SignalReq = (\<lambda>b. Inr \<lparr>sr_To = replicate 32 101, sr_Sealed = b\<rparr>),
     marshal_error = (\<lambda>p. None)\<rparr>"

definition demo_se :: srv_env where
  "demo_se = \<lparr>se_codec = demo_api, se_crypto = demo_crypto\<lparr>sha256 := demo_hash\<rparr>, se_unix = 1700000030,
     se_now = 9, se_etagNow = 10, se_ctx = None\<rparr>"

text \<open>A registration request without any signature, for the node of the store \<open>demo_one\<close>.\<close>

definition demo_takeover :: http_request where
  "demo_takeover = \<lparr>rq_Method = ''POST'', rq_Path = ''/v1/register'', rq_Query = [], rq_Header = [],
     rq_Body = Inr (replicate 32 66)\<rparr>"

lemma demo_takeover_reply:
  "\<exists>pl s'. ServeHTTP demo_se demo_takeover demo_one = (Some (Replied (200, pl)), s')"
  by (simp add: ServeHTTP_def demo_takeover_def replied_def handleRegister_def demo_se_def demo_api_def
      Register_def demo_one_eq writeJSON_def Let_def status_defs del: addr_String.simps split: prod.split)

theorem register_decides_disco_key_witness:
  "discoKeyForNodeKey background (replicate 32 1) demo_one = Inr (replicate 32 101) \<and>
   (\<exists>pl s'. ServeHTTP demo_se demo_takeover demo_one = (Some (Replied (200, pl)), s') \<and>
      discoKeyForNodeKey background (replicate 32 1) s' = Inr (replicate 32 66))"
proof
  show "discoKeyForNodeKey background (replicate 32 1) demo_one = Inr (replicate 32 101)"
    by (simp add: discoKeyForNodeKey_def Peers_def Peers_in_def demo_one_eq)
  from demo_takeover_reply obtain pl s'
    where r: "ServeHTTP demo_se demo_takeover demo_one = (Some (Replied (200, pl)), s')" by blast
  have "decode_RegisterReq (se_codec demo_se) (rq_Body demo_takeover) =
      Inr \<lparr>rr_NodePubkey = replicate 32 1, rr_DiscoPubkey = replicate 32 66, rr_NodeName = ''n'',
        rr_RequestedTunnelIP = []\<rparr>"
    by (simp add: demo_se_def demo_takeover_def demo_api_def)
  from register_decides_disco_key [OF demo_reachable(2) _ _ _ this r]
  have "discoKeyForNodeKey background (replicate 32 1) s' = Inr (replicate 32 66)"
    by (simp add: demo_se_def demo_takeover_def)
  with r show "\<exists>pl s'. ServeHTTP demo_se demo_takeover demo_one = (Some (Replied (200, pl)), s') \<and>
      discoKeyForNodeKey background (replicate 32 1) s' = Inr (replicate 32 66)" by blast
qed

theorem unauthenticated_inert_witness:
  "snd (ServeHTTP demo_se (demo_takeover\<lparr>rq_Path := ''/v1/signal''\<rparr>) demo_one) = demo_one"
proof -
  let ?r = "demo_takeover\<lparr>rq_Path := ''/v1/signal''\<rparr>"
  have v: "VerifyRequest (se_crypto demo_se) (se_unix demo_se) ?r = Inl (EMsg ''missing auth headers'')"
    by (simp add: VerifyRequest_def demo_takeover_def get_value_def Let_def)
  obtain pr s' where s: "ServeHTTP demo_se ?r demo_one = (pr, s')" by fastforce
  from unauthenticated_inert [OF v _ s] s show ?thesis by (simp add: demo_takeover_def)
qed

subsection \<open>The signal relay\<close>

lemma handleSignal_ok:
  assumes "decode_SignalReq (se_codec se) body = Inr req" and "se_ctx se = None"
  shows "snd (handleSignal se r pub body s) = snd (EnqueueSignal background (sr_To req)
    \<lparr>From = replicate 32 0, Sealed = sr_Sealed req, Enqueue = se_now se\<rparr> s)"
  using assms by (auto simp: handleSignal_def Let_def split: prod.split sum.split)

text \<open>A signal posted into an empty queue, through the server on both sides: what the store holds
  after it, and the reply to a pull from any store in which the recipient's queue is still the
  same.\<close>

lemma signal_queued:
  assumes "rq_Method r = ''POST''" and "rq_Path r = ''/v1/signal''"
    and "VerifyRequest (se_crypto se) (se_unix se) r = Inr (pub, body)"
    and "decode_SignalReq (se_codec se) body = Inr req" and "se_ctx se = None"
    and "signals_of s (sr_To req) = []" and "ServeHTTP se r s = (pr, s1)"
  shows "signals_of s1 (sr_To req) = [\<lparr>From = replicate 32 0, Sealed = sr_Sealed req, Enqueue = se_now se\<rparr>]"
proof -
  let ?env = "\<lparr>From = replicate 32 0, Sealed = sr_Sealed req, Enqueue = se_now se\<rparr>"
  have "s1 = snd (EnqueueSignal background (sr_To req) ?env s)"
    using assms(1-3,7) handleSignal_ok [OF assms(4,5)]
    by (auto simp: ServeHTTP_def Let_def authed_def replied_def is_GET_def)
  moreover have "enqueue_bounded (maxQueueDepth s) [] ?env = [?env]" by (simp add: enqueue_bounded_def)
  ultimately show ?thesis using assms(6) by simp
qed

lemma queued_is_served:
  assumes "rq_Method r = ''GET''" and "rq_Path r = ''/v1/signal''"
    and "VerifyRequest (se_crypto se) (se_unix se) r = Inr (owner, body)" and "se_ctx se = None"
    and "discoKeyForNodeKey background owner s = Inr to" and "signals_of s to = [env]"
    and "se_now se - maxAge s < Enqueue env"
  shows "ServeHTTP se r s = (Some (Replied (writeJSON (se_codec se) 200 (SignalsResp [env]))),
    snd (PopSignals (se_now se) background to s))"
proof -
  obtain s2 where pop: "PopSignals (se_now se) background to s = (Inr [env], s2)"
    using assms(6,7) by (simp add: PopSignals_def)
  then have "handleSignalPull se r owner s = (Replied (writeJSON (se_codec se) 200 (SignalsResp [env])), s2)"
    using assms(4,5) by (simp add: handleSignalPull_def popped_def status_defs pop)
  then show ?thesis using assms(1-3) by (simp add: ServeHTTP_def Let_def authed_def is_GET_def pop)
qed

lemma enqueue_bounded_last: "enqueue_bounded d q x = butlast (enqueue_bounded d q x) @ [x]"
  by (simp add: enqueue_bounded_def)

text \<open>A signal posted to a disco key is delivered to its owner: the owner's next pull within 30
  seconds replies at once, the posted bytes are the last envelope of the reply (with an empty
  sender field), and the queue is empty afterwards, so nothing is delivered twice.\<close>

theorem relay_delivers:
  assumes "decode_SignalReq (se_codec se) body = Inr req" and "se_ctx se = None" and "se_ctx se' = None"
    and "snd (handleSignal se r pub body s) = s1"
    and "discoKeyForNodeKey background owner s1 = Inr (sr_To req)"
    and "se_now se' - maxAge s < se_now se"
  shows "\<exists>envs s2. handleSignalPull se' r' owner s1 =
      (Replied (writeJSON (se_codec se') 200 (SignalsResp (envs @
         [\<lparr>From = replicate 32 0, Sealed = sr_Sealed req, Enqueue = se_now se\<rparr>]))), s2) \<and>
    signals_of s2 (sr_To req) = []"
proof -
  let ?env = "\<lparr>From = replicate 32 0, Sealed = sr_Sealed req, Enqueue = se_now se\<rparr>"
  let ?q = "enqueue_bounded (maxQueueDepth s) (signals_of s (sr_To req)) ?env"
  have s1: "s1 = snd (EnqueueSignal background (sr_To req) ?env s)"
    using handleSignal_ok [OF assms(1,2)] assms(4) by simp
  have q: "signals_of s1 (sr_To req) = ?q" and age: "maxAge s1 = maxAge s" by (simp_all add: s1)
  let ?fresh = "\<lambda>e. se_now se' - maxAge s < Enqueue e"
  have "filter ?fresh ?q = filter ?fresh (butlast ?q) @ [?env]"
    using assms(6) by (subst enqueue_bounded_last) simp
  then obtain s2 where pop: "PopSignals (se_now se') background (sr_To req) s1 =
      (Inr (filter ?fresh (butlast ?q) @ [?env]), s2)"
    by (simp add: PopSignals_def q age)
  have "signals_of s2 (sr_To req) = []"
    using signals_of_PopSignals [of "se_now se'" "sr_To req" s1] by (simp add: pop)
  moreover have "handleSignalPull se' r' owner s1 =
      (Replied (writeJSON (se_codec se') 200 (SignalsResp (filter ?fresh (butlast ?q) @ [?env]))), s2)"
    using assms(3,5) by (simp add: handleSignalPull_def pop popped_def status_defs)
  ultimately show ?thesis by blast
qed

theorem relay_delivers_witness:
  "\<exists>envs s2. handleSignalPull demo_se demo_takeover (replicate 32 1)
      (snd (handleSignal demo_se demo_takeover [] [1, 2, 3] demo_one)) =
     (Replied (200, SignalsResp (envs @ [\<lparr>From = replicate 32 0, Sealed = [1, 2, 3], Enqueue = 9\<rparr>])), s2)"
proof -
  let ?s1 = "snd (handleSignal demo_se demo_takeover [] [1, 2, 3] demo_one)"
  have d: "decode_SignalReq (se_codec demo_se) [1, 2, 3] = Inr \<lparr>sr_To = replicate 32 101, sr_Sealed = [1, 2, 3]\<rparr>"
    by (simp add: demo_se_def demo_api_def)
  have "peers ?s1 = peers demo_one"
    by (subst handleSignal_ok [OF d]) (simp_all add: demo_se_def)
  then have k: "discoKeyForNodeKey background (replicate 32 1) ?s1 = Inr (replicate 32 101)"
    by (simp add: discoKeyForNodeKey_find store_listing_def demo_one_eq)
  have age: "maxAge demo_one = 30 * second" by (simp add: demo_one_eq demo_empty_def NewMemStore_def)
  have w: "writeJSON (se_codec demo_se) 200 p = (200, p)" for p
    by (simp add: writeJSON_def demo_se_def demo_api_def)
  show ?thesis
    using relay_delivers [OF d _ _ refl, of demo_se "replicate 32 1" demo_takeover "[]" demo_one demo_takeover] k
    by (simp add: age w time_defs) (simp add: demo_se_def, blast)
qed

end
