(* ===== verification/Control_Plane.thy ===== *)
theory Control_Plane
  imports Coord_Server Daemon_Loops
begin

text \<open>
  The daemons and the coordinator together: an HTTP exchange in which the request that the
  client (\<open>internal/disco/client.go\<close>) builds is served by the server (\<open>internal/coord/server.go\<close>)
  on its store and the reply goes back to the client. The properties follow a node from its
  start to the machines of the other nodes, and a signal from the machine of one node to the
  machine of another. What the two sides rely on from the JSON library is \<open>wire_law\<close>: each side
  decodes what the other has encoded, for the texts and addresses that JSON carries. Between
  two calls of one node other nodes may have called: the properties name the two stores and
  what has to be the same in them.
\<close>

section \<open>An exchange\<close>

text \<open>One call of a client: the server's surroundings when the request arrives, those of the
  client, and how a long poll ends: the surroundings then, whether a signal woke it, and the
  store.\<close>

record call_env =
  ca_server :: srv_env
  ca_client :: client_env
  ca_end :: srv_env
  ca_woken :: bool
  ca_store :: memstore

definition to_http :: "(payload \<Rightarrow> byte list) \<Rightarrow> response \<Rightarrow> http_response" where
  "to_http enc resp = \<lparr>rs_Status = int (fst resp), rs_Body = enc (snd resp)\<rparr>"

text \<open>The reply and the store after it. A request that no handler serves is left out, the client
  makes none.\<close>

definition exchange ::
  "(payload \<Rightarrow> byte list) \<Rightarrow> call_env \<Rightarrow> memstore \<Rightarrow> http_request \<Rightarrow> http_response res \<times> memstore" where
  "exchange enc ca s r =
     (case ServeHTTP (ca_server ca) r s of
        (None, s1) \<Rightarrow> (Inl (EMsg ''not served''), s1)
      | (Some (Replied resp), s1) \<Rightarrow> (Inr (to_http enc resp), s1)
      | (Some (PollPeers c), s1) \<Rightarrow> (Inr (to_http enc (finish_peers (ca_end ca) (ca_store ca))), ca_store ca)
      | (Some (PollSignal to c), s1) \<Rightarrow>
          (case finish_signal (ca_end ca) (ca_woken ca) to (ca_store ca) of
             (resp, s2) \<Rightarrow> (Inr (to_http enc resp), s2)))"

text \<open>The client with the coordinator in the store \<open>s\<close> at the other end, and the store after a
  request, if one could be built.\<close>

definition online :: "(payload \<Rightarrow> byte list) \<Rightarrow> call_env \<Rightarrow> memstore \<Rightarrow> client_env" where
  "online enc ca s = (ca_client ca)\<lparr>ce_do := \<lambda>r. fst (exchange enc ca s r)\<rparr>"

definition after :: "(payload \<Rightarrow> byte list) \<Rightarrow> call_env \<Rightarrow> http_request res \<Rightarrow> memstore \<Rightarrow> memstore" where
  "after enc ca req s = (case req of Inl _ \<Rightarrow> s | Inr r \<Rightarrow> snd (exchange enc ca s r))"

definition register_request :: "CoordClient \<Rightarrow> client_env \<Rightarrow> string \<Rightarrow> http_request res" where
  "register_request c ce name =
     ce_new ce ''POST'' (cl_base c @ ''/v1/register'') (enc_register ce (nk_Pub (cl_nk c)) (dk_Pub (cl_dk c)) name)"

definition signed_request ::
  "CoordClient \<Rightarrow> client_env \<Rightarrow> string \<Rightarrow> string \<Rightarrow> byte list \<Rightarrow> http_request res" where
  "signed_request c ce method path body =
     bind_res (ce_new ce method (cl_base c @ path) body) (\<lambda>req. Inr (with_auth c ce method path body req))"

definition endpoints_request :: "CoordClient \<Rightarrow> client_env \<Rightarrow> RemoteEndpoint list \<Rightarrow> http_request res" where
  "endpoints_request c ce eps =
     signed_request c ce ''POST'' ''/v1/endpoints'' (enc_endpoints ce (map (\<lambda>e. (re_Addr e, re_Source e)) eps))"

definition peers_request :: "CoordClient \<Rightarrow> client_env \<Rightarrow> string \<Rightarrow> http_request res" where
  "peers_request c ce since = signed_request c ce ''GET'' (peers_path since) []"

definition send_request :: "CoordClient \<Rightarrow> client_env \<Rightarrow> byte list \<Rightarrow> byte list \<Rightarrow> http_request res" where
  "send_request c ce to sealed = signed_request c ce ''POST'' ''/v1/signal'' (enc_signal ce to sealed)"

definition pull_request :: "CoordClient \<Rightarrow> client_env \<Rightarrow> http_request res" where
  "pull_request c ce = signed_request c ce ''GET'' ''/v1/signal'' []"

section \<open>What the two sides rely on\<close>

text \<open>A string survives JSON when it is valid UTF-8 (\<open>utf8\<close>), an address when its zone does, the address
  of an endpoint has to be valid, and a disco key has 32 bytes.\<close>

fun addr_zone :: "addr \<Rightarrow> string" where
  "addr_zone (Addr6 w z) = z"
| "addr_zone _ = []"

definition endpoint_ok :: "(string \<Rightarrow> bool) \<Rightarrow> addrport \<times> string \<Rightarrow> bool" where
  "endpoint_ok utf8 e \<longleftrightarrow> addr_IsValid (fst (fst e)) \<and> utf8 (addr_zone (fst (fst e))) \<and> utf8 (snd e)"

definition wire_endpoint :: "endpoint \<Rightarrow> addrport \<times> string" where
  "wire_endpoint e = (ep_Addr e, ep_Source e)"

definition peer_ok :: "(string \<Rightarrow> bool) \<Rightarrow> peer \<Rightarrow> bool" where
  "peer_ok utf8 p \<longleftrightarrow>
     utf8 (Name p) \<and> length (DiscoKey p) = 32 \<and> utf8 (addr_zone (TunnelIP p)) \<and>
     list_all (endpoint_ok utf8 \<circ> wire_endpoint) (Endpoints p)"

definition wire_of_peer :: "peer \<Rightarrow> wire_peer" where
  "wire_of_peer p =
     \<lparr>wp_NodeKey = NodeKey p, wp_DiscoKey = DiscoKey p, wp_Name = Name p, wp_TunnelIP = TunnelIP p,
      wp_Endpoints = map wire_endpoint (Endpoints p), wp_UpdatedAt = UpdatedAt p\<rparr>"

definition wire_law ::
  "(payload \<Rightarrow> byte list) \<Rightarrow> (string \<Rightarrow> bool) \<Rightarrow> client_env \<Rightarrow> api_codec \<Rightarrow> bool" where
  "wire_law enc utf8 ce cd \<longleftrightarrow>
     (\<forall>s. ascii s \<longrightarrow> utf8 s) \<and>
     (\<forall>nk dk name. length dk = 32 \<longrightarrow> utf8 name \<longrightarrow>
        decode_RegisterReq cd (Inr (enc_register ce nk dk name)) =
          Inr \<lparr>rr_NodePubkey = nk, rr_DiscoPubkey = dk, rr_NodeName = name, rr_RequestedTunnelIP = []\<rparr>) \<and>
     (\<forall>cidr etag. utf8 cidr \<longrightarrow> (\<exists>e. dec_register ce (enc (RegisterResp cidr etag)) = Inr (cidr, e))) \<and>
     (\<forall>eps. list_all (endpoint_ok utf8) eps \<longrightarrow>
        decode_EndpointsReq cd (enc_endpoints ce eps) = Inr (map (\<lambda>(a, src). \<lparr>ep_Addr = a, ep_Source = src\<rparr>) eps)) \<and>
     (\<forall>etag ps. list_all (peer_ok utf8) ps \<longrightarrow> marshal_error cd (PeersResp etag ps) = None \<longrightarrow>
        (\<exists>e. dec_peers ce (enc (PeersResp etag ps)) = Inr (e, map wire_of_peer ps))) \<and>
     (\<forall>to sealed. length to = 32 \<longrightarrow>
        decode_SignalReq cd (enc_signal ce to sealed) = Inr \<lparr>sr_To = to, sr_Sealed = sealed\<rparr>) \<and>
     (\<forall>envs. marshal_error cd (SignalsResp envs) = None \<longrightarrow>
        dec_signals ce (enc (SignalsResp envs)) = Inr (map (\<lambda>e. (Sealed e, Enqueue e)) envs))"

text \<open>A call in which the laws hold, the base URL has no path of its own, the two sides use the same
  cryptography, their clocks are within the allowed skew and no context has ended.\<close>

definition call_law ::
  "(payload \<Rightarrow> byte list) \<Rightarrow> (string \<Rightarrow> bool) \<Rightarrow> CoordClient \<Rightarrow> call_env \<Rightarrow> bool" where
  "call_law enc utf8 c ca \<longleftrightarrow>
     new_request_law (ca_client ca) \<and> key_law (ce_crypto (ca_client ca)) (cl_nk c) \<and>
     ce_crypto (ca_client ca) = se_crypto (ca_server ca) \<and>
     \<not> stale (se_unix (ca_server ca)) (ce_unix (ca_client ca)) \<and>
     se_ctx (ca_server ca) = None \<and> se_ctx (ca_end ca) = None \<and> se_codec (ca_end ca) = se_codec (ca_server ca) \<and>
     wire_law enc utf8 (ca_client ca) (se_codec (ca_server ca)) \<and> origin (cl_base c)"

section \<open>Lemmas\<close>

subsection \<open>The text of an address\<close>

lemma digit_ascii: "is_digit c \<Longrightarrow> of_char c < (128 :: nat)"
  by (auto simp: is_digit_def)

lemma dotted_chars: "c \<in> set (dotted bs) \<Longrightarrow> is_digit c \<or> c = CHR ''.''"
  using fmt_nat_digits by (induction bs rule: dotted.induct) auto

lemma addr4_chars: "c \<in> set (addr_String (Addr4 w)) \<Longrightarrow> is_digit c \<or> c = CHR ''.''"
  using dotted_chars by (auto simp: ipv4_string_def)

lemma addr4_cidr_ascii: "ascii (addr_String (Addr4 w) @ ''/24'')"
proof -
  have "of_char c < (128 :: nat)" if "c \<in> set (addr_String (Addr4 w))" for c
    using addr4_chars [OF that] digit_ascii [of c] by auto
  then show ?thesis by (auto simp: ascii_def list_all_iff simp del: addr_String.simps)
qed

lemma parse_prefix_String4 [simp]: "parse_prefix (addr_String (Addr4 w) @ ''/24'') = Some (Prefix (Addr4 w) 24)"
proof -
  have "split_last (CHR ''/'') (addr_String (Addr4 w) @ ''/24'') = Some (addr_String (Addr4 w), ''24'')"
    by (simp add: split_last_def del: addr_String.simps)
  moreover have "parse_digits ''24'' = Some 24" by code_simp
  ultimately show ?thesis
    by (simp add: parse_prefix_def is_digit_def del: addr_String.simps)
qed

subsection \<open>Signed requests reach their handler\<close>

lemma call_lawD:
  assumes "call_law enc utf8 c ca"
  shows "new_request_law (ca_client ca)" "key_law (ce_crypto (ca_client ca)) (cl_nk c)"
    "ce_crypto (ca_client ca) = se_crypto (ca_server ca)"
    "\<not> stale (se_unix (ca_server ca)) (ce_unix (ca_client ca))" "se_ctx (ca_server ca) = None"
    "se_ctx (ca_end ca) = None" "se_codec (ca_end ca) = se_codec (ca_server ca)"
    "wire_law enc utf8 (ca_client ca) (se_codec (ca_server ca))" "origin (cl_base c)"
  using assms unfolding call_law_def by blast+

lemma online_simps [simp]:
  "ce_new (online enc ca s) = ce_new (ca_client ca)" "ce_unix (online enc ca s) = ce_unix (ca_client ca)"
  "ce_crypto (online enc ca s) = ce_crypto (ca_client ca)" "enc_register (online enc ca s) = enc_register (ca_client ca)"
  "dec_register (online enc ca s) = dec_register (ca_client ca)"
  "enc_endpoints (online enc ca s) = enc_endpoints (ca_client ca)"
  "dec_peers (online enc ca s) = dec_peers (ca_client ca)" "enc_signal (online enc ca s) = enc_signal (ca_client ca)"
  "dec_signals (online enc ca s) = dec_signals (ca_client ca)"
  "ce_do (online enc ca s) r = fst (exchange enc ca s r)"
  by (simp_all add: online_def)

text \<open>The routes of the client's calls; an etag of the store can stand in a query.\<close>

lemma client_route_calls [simp]:
  "client_route ''POST'' ''/v1/register''" "client_route ''POST'' ''/v1/endpoints''"
  "client_route ''POST'' ''/v1/signal''" "client_route ''GET'' ''/v1/signal''"
  "query_safe since \<Longrightarrow> client_route ''GET'' (peers_path since)"
  by (auto simp: client_route_def)

lemma hex_encode_query_safe: "query_safe (hex_encode bs)"
proof -
  have "list_all (\<lambda>n. query_safe [hex_digit n]) [0..<16]" by code_simp
  then have digit: "query_safe [hex_digit n]" if "n < 16" for n using that by (simp add: list_all_iff)
  have "query_safe [hex_digit (unat b div 16)]" "query_safe [hex_digit (unat b mod 16)]" for b :: byte
    using unat_byte_less_256 [of b] by (auto intro!: digit simp: less_mult_imp_div_less)
  then show ?thesis by (induction bs) (simp_all add: query_safe_def)
qed

lemma etag_query_safe: "store_reachable s \<Longrightarrow> query_safe (peersEtag s)"
proof (induction rule: store_reachable.induct)
  case (start h now p)
  then show ?case by (simp add: NewMemStore_def newEtag_def hex_encode_query_safe)
next
  case (step s s')
  have "peersEtag s' = peersEtag s \<or> (\<exists>h t. peersEtag s' = newEtag h t)"
    using step(2)
  proof cases
    case (register h now etagNow ctx p r)
    then show ?thesis by (cases rule: Register_cases [of h now etagNow ctx p s]) auto
  next
    case (set_endpoints h now etagNow ctx k eps r)
    then show ?thesis by (fastforce simp: SetEndpoints_def Let_def split: option.splits)
  next
    case (enqueue ctx k env r)
    then show ?thesis by (metis EnqueueSignal_frame(6) snd_conv)
  next
    case (pop now ctx k r)
    then show ?thesis by (metis PopSignals_frame(6) snd_conv)
  next
    case (wait_signal k w)
    then show ?thesis by (metis WaitForSignal_frame(6) snd_conv)
  qed
  then show ?case using step(3) by (auto simp: newEtag_def hex_encode_query_safe)
qed

lemma with_auth_online [simp]: "with_auth c (online enc ca s) = with_auth c (ca_client ca)"
  by (simp add: fun_eq_iff with_auth_def)

text \<open>What a signed call hands to the transport is accepted by the server and keeps its method and
  the path without its query.\<close>

lemma signed_request_accepted:
  assumes "call_law enc utf8 c ca" and "signed_request c (ca_client ca) method path body = Inr r"
    and "client_route method path"
  shows "VerifyRequest (se_crypto (ca_server ca)) (se_unix (ca_server ca)) r = Inr (nk_Pub (cl_nk c), body)"
    and "rq_Method r = method" and "rq_Path r = normalisePath path"
proof -
  note law = call_lawD [OF assms(1)]
  from assms(2) obtain req where req: "ce_new (ca_client ca) method (cl_base c @ path) body = Inr req"
    "r = with_auth c (ca_client ca) method path body req"
    by (auto simp: signed_request_def bind_res_eq_Inr_iff)
  show "VerifyRequest (se_crypto (ca_server ca)) (se_unix (ca_server ca)) r = Inr (nk_Pub (cl_nk c), body)"
    using with_auth_accepted [OF law(1,9) assms(3) law(2,4) req(1)] req(2) law(3) by simp
  have "rq_Method req = method \<and> rq_Path req = normalisePath path"
    using law(1,9) assms(3) req(1) unfolding new_request_law_def normalisePath_prefix by blast
  then show "rq_Method r = method" "rq_Path r = normalisePath path"
    by (simp_all add: req(2) with_auth_def Let_def)
qed

lemma signedDo_online:
  "signedDo c (online enc ca s) method path body =
     bind_res (signed_request c (ca_client ca) method path body) (\<lambda>r. fst (exchange enc ca s r))"
  by (cases "ce_new (ca_client ca) method (cl_base c @ path) body")
    (simp_all add: signedDo_def signed_request_def)

lemma normalisePath_simps [simp]:
  "normalisePath ''/v1/endpoints'' = ''/v1/endpoints''" "normalisePath ''/v1/signal'' = ''/v1/signal''"
  "normalisePath (peers_path since) = ''/v1/peers''"
  by (simp_all add: normalisePath_prefix peers_path_def)

lemma writeJSON_ok: "fst (writeJSON cd st p) = 200 \<Longrightarrow> writeJSON cd st p = (200, p) \<and> marshal_error cd p = None"
  by (auto simp: writeJSON_def http_Error_def status_defs split: option.splits)

subsection \<open>The calls on a store\<close>

definition own_entry :: "CoordClient \<Rightarrow> string \<Rightarrow> peer" where
  "own_entry c name =
     \<lparr>NodeKey = nk_Pub (cl_nk c), DiscoKey = dk_Pub (cl_dk c), Name = name, TunnelIP = AddrZero,
      Endpoints = [], UpdatedAt = zero_time\<rparr>"

abbreviation server_Register :: "srv_env \<Rightarrow> peer \<Rightarrow> memstore \<Rightarrow> addr res \<times> memstore" where
  "server_Register se \<equiv> Register (sha256 (se_crypto se)) (se_now se) (se_etagNow se) None"

lemma handleRegister_entry:
  assumes "decode_RegisterReq (se_codec se) (rq_Body r) =
      Inr \<lparr>rr_NodePubkey = nk_Pub (cl_nk c), rr_DiscoPubkey = dk_Pub (cl_dk c), rr_NodeName = name, rr_RequestedTunnelIP = []\<rparr>"
    and "length (nk_Pub (cl_nk c)) = 32" and "se_ctx se = None"
    and "server_Register se (own_entry c name) s = (reg, s1)"
  shows "\<exists>etag. handleRegister se r s =
    (case reg of Inl e \<Rightarrow> http_Error e 500 | Inr ip \<Rightarrow> writeJSON (se_codec se) 200 (RegisterResp (addr_String ip @ ''/24'') etag), s1)"
  using assms by (auto simp: handleRegister_def own_entry_def status_defs Let_def simp del: addr_String.simps split: sum.split)

lemma register_request_fields:
  assumes "new_request_law ce" and "origin (cl_base c)" and "register_request c ce name = Inr r"
  shows "rq_Method r = ''POST''" "rq_Path r = ''/v1/register''"
    "rq_Body r = Inr (enc_register ce (nk_Pub (cl_nk c)) (dk_Pub (cl_dk c)) name)"
proof -
  have path: "takeWhile (\<lambda>ch. ch \<noteq> CHR ''?'') ''/v1/register'' = ''/v1/register''" by simp
  have "rq_Method r = ''POST'' \<and> rq_Path r = takeWhile (\<lambda>ch. ch \<noteq> CHR ''?'') ''/v1/register'' \<and>
      rq_Body r = Inr (enc_register ce (nk_Pub (cl_nk c)) (dk_Pub (cl_dk c)) name)"
    using assms client_route_calls(1) unfolding new_request_law_def register_request_def by blast
  then show "rq_Method r = ''POST''" "rq_Path r = ''/v1/register''"
    "rq_Body r = Inr (enc_register ce (nk_Pub (cl_nk c)) (dk_Pub (cl_dk c)) name)"
    unfolding path by blast+
qed

lemma exchange_register:
  "rq_Method r = ''POST'' \<Longrightarrow> rq_Path r = ''/v1/register'' \<Longrightarrow>
     exchange enc ca s r = (Inr (to_http enc (fst (handleRegister (ca_server ca) r s))), snd (handleRegister (ca_server ca) r s))"
  by (simp add: exchange_def ServeHTTP_def replied_def)

lemma Register_online:
  assumes "call_law enc utf8 c ca" and "length (dk_Pub (cl_dk c)) = 32" and "utf8 name"
    and "client_Register c (online enc ca s) name = Inr (cidr, etag)"
    and "\<And>ip. fst (server_Register (ca_server ca) (own_entry c name) s) = Inr ip \<Longrightarrow> \<exists>w. ip = Addr4 w"
  shows "\<exists>w. server_Register (ca_server ca) (own_entry c name) s =
      (Inr (Addr4 w), after enc ca (register_request c (ca_client ca) name) s) \<and>
    cidr = addr_String (Addr4 w) @ ''/24''"
proof -
  note law = call_lawD [OF assms(1)]
  from assms(4) obtain r resp where r: "register_request c (ca_client ca) name = Inr r"
    "fst (exchange enc ca s r) = Inr resp" "rs_Status resp = 200"
    "dec_register (ca_client ca) (rs_Body resp) = Inr (cidr, etag)"
    by (auto simp: client_Register_def register_request_def bind_res_eq_Inr_iff split: if_splits)
  note req = register_request_fields [OF law(1,9) r(1)]
  have dec: "decode_RegisterReq (se_codec (ca_server ca)) (rq_Body r) =
      Inr \<lparr>rr_NodePubkey = nk_Pub (cl_nk c), rr_DiscoPubkey = dk_Pub (cl_dk c), rr_NodeName = name, rr_RequestedTunnelIP = []\<rparr>"
    using law(8) assms(2,3) unfolding req(3) wire_law_def by blast
  have len: "length (nk_Pub (cl_nk c)) = 32" using law(2) by (simp add: key_law_def)
  obtain reg s1 where reg: "server_Register (ca_server ca) (own_entry c name) s = (reg, s1)" by fastforce
  from handleRegister_entry [OF dec len law(5) reg] obtain etag' where hr: "handleRegister (ca_server ca) r s =
      (case reg of Inl e \<Rightarrow> http_Error e 500
       | Inr ip \<Rightarrow> writeJSON (se_codec (ca_server ca)) 200 (RegisterResp (addr_String ip @ ''/24'') etag'), s1)" ..
  note ex = exchange_register [OF req(1,2), of enc ca s]
  show ?thesis
  proof (cases reg)
    case (Inl e)
    then show ?thesis using r(2,3) ex hr by (auto simp: to_http_def http_Error_def)
  next
    case (Inr ip)
    obtain w where w: "ip = Addr4 w" using assms(5) reg Inr by auto
    let ?pl = "RegisterResp (addr_String (Addr4 w) @ ''/24'') etag'"
    have hr': "handleRegister (ca_server ca) r s = (writeJSON (se_codec (ca_server ca)) 200 ?pl, s1)"
      using hr unfolding Inr w by simp
    have "fst (writeJSON (se_codec (ca_server ca)) 200 ?pl) = 200" and body: "rs_Body resp = enc (snd (writeJSON (se_codec (ca_server ca)) 200 ?pl))"
      using r(2,3) unfolding ex hr' to_http_def by auto
    from writeJSON_ok [OF this(1)] have pl: "dec_register (ca_client ca) (enc ?pl) = Inr (cidr, etag)"
      using r(4) body by simp
    have "utf8 (addr_String (Addr4 w) @ ''/24'')"
      using law(8) addr4_cidr_ascii [of w] unfolding wire_law_def by blast
    then obtain e where "dec_register (ca_client ca) (enc ?pl) = Inr (addr_String (Addr4 w) @ ''/24'', e)"
      using law(8) unfolding wire_law_def by blast
    then show ?thesis using pl reg ex hr' r(1) unfolding Inr w by (simp add: after_def del: addr_String.simps)
  qed
qed

definition coord_endpoints :: "RemoteEndpoint list \<Rightarrow> endpoint list" where
  "coord_endpoints eps = map (\<lambda>e. \<lparr>ep_Addr = re_Addr e, ep_Source = re_Source e\<rparr>) eps"

lemma PostEndpoints_online:
  assumes "call_law enc utf8 c ca" and "list_all (\<lambda>e. endpoint_ok utf8 (re_Addr e, re_Source e)) eps"
    and "PostEndpoints c (online enc ca s) eps = None"
  shows "SetEndpoints (sha256 (se_crypto (ca_server ca))) (se_now (ca_server ca)) (se_etagNow (ca_server ca)) None
      (nk_Pub (cl_nk c)) (coord_endpoints eps) s =
    (Inr (), after enc ca (endpoints_request c (ca_client ca) eps) s)"
proof -
  note law = call_lawD [OF assms(1)]
  let ?wire = "map (\<lambda>e. (re_Addr e, re_Source e)) eps"
  let ?body = "enc_endpoints (ca_client ca) ?wire"
  from assms(3) obtain r resp where r: "endpoints_request c (ca_client ca) eps = Inr r"
    "fst (exchange enc ca s r) = Inr resp" "rs_Status resp = 200"
    by (cases "endpoints_request c (ca_client ca) eps")
      (auto simp: PostEndpoints_def Let_def signedDo_online endpoints_request_def split: sum.splits if_splits)
  note req = signed_request_accepted [OF assms(1) r(1) [unfolded endpoints_request_def], simplified]
  have "list_all (endpoint_ok utf8) ?wire" using assms(2) by (simp add: list_all_iff)
  then have dec: "decode_EndpointsReq (se_codec (ca_server ca)) ?body = Inr (coord_endpoints eps)"
    using law(8) by (simp add: wire_law_def coord_endpoints_def)
  have ex: "exchange enc ca s r = (Inr (to_http enc (fst (handleEndpoints (ca_server ca) r (nk_Pub (cl_nk c)) ?body s))),
      snd (handleEndpoints (ca_server ca) r (nk_Pub (cl_nk c)) ?body s))"
    using req by (simp add: exchange_def ServeHTTP_def authed_def replied_def)
  obtain res s1 where set: "SetEndpoints (sha256 (se_crypto (ca_server ca))) (se_now (ca_server ca)) (se_etagNow (ca_server ca)) None
      (nk_Pub (cl_nk c)) (coord_endpoints eps) s = (res, s1)"
    by fastforce
  have "res = Inr ()"
    using r(2,3) law(5) dec set by (cases res) (auto simp: ex to_http_def handleEndpoints_def http_Error_def status_defs)
  with set show ?thesis
    using r(1) ex dec law(5) by (simp add: after_def handleEndpoints_def)
qed

lemma finish_peers_ok:
  assumes "se_ctx se = None" and "fst (finish_peers se s) = 200"
  shows "finish_peers se s = (200, PeersResp (peersEtag s) (store_listing s)) \<and>
    marshal_error (se_codec se) (PeersResp (peersEtag s) (store_listing s)) = None"
  using assms writeJSON_ok [of "se_codec se" 200 "PeersResp (peersEtag s) (store_listing s)"]
  by (simp add: finish_peers_def Peers_def Peers_in_def store_listing_def status_defs)

lemma handlePeers_cases:
  obtains "handlePeers se r s = Replied (finish_peers se s)" | ch where "handlePeers se r s = PollPeers ch"
proof -
  have "handlePeers se r s = Replied (finish_peers se s) \<or> (\<exists>ch. handlePeers se r s = PollPeers ch)"
    by (simp add: handlePeers_def Let_def split: waiting.split)
  then show thesis using that by blast
qed

lemma Peers_online:
  assumes "call_law enc utf8 c ca" and "client_Peers c (online enc ca s) since = Inr (listing, etag)"
    and "query_safe since"
    and "list_all (peer_ok utf8) (map snd (peers (after enc ca (peers_request c (ca_client ca) since) s)))"
  shows "listing = map (remote_of_wire \<circ> wire_of_peer) (store_listing (after enc ca (peers_request c (ca_client ca) since) s))"
proof -
  note law = call_lawD [OF assms(1)]
  from assms(2) obtain r resp wire where r: "peers_request c (ca_client ca) since = Inr r"
    "fst (exchange enc ca s r) = Inr resp" "rs_Status resp = 200"
    "dec_peers (ca_client ca) (rs_Body resp) = Inr (etag, wire)" "listing = map remote_of_wire wire"
    by (auto simp: client_Peers_def signedDo_online peers_request_def bind_res_eq_Inr_iff split: if_splits)
  note req = signed_request_accepted [OF assms(1) r(1) [unfolded peers_request_def] client_route_calls(5) [OF assms(3)], simplified]
  obtain se where ex: "fst (exchange enc ca s r) = Inr (to_http enc (finish_peers se (snd (exchange enc ca s r))))"
    and se: "se = ca_server ca \<or> se = ca_end ca"
  proof (cases rule: handlePeers_cases [of "ca_server ca" r s])
    case 1
    then show ?thesis using req that [of "ca_server ca"] by (simp add: exchange_def ServeHTTP_def authed_def is_GET_def)
  next
    case (2 ch)
    then show ?thesis using req that [of "ca_end ca"] by (simp add: exchange_def ServeHTTP_def authed_def is_GET_def)
  qed
  let ?s = "after enc ca (peers_request c (ca_client ca) since) s"
  have s: "?s = snd (exchange enc ca s r)" by (simp add: after_def r(1))
  have "resp = to_http enc (finish_peers se ?s)" using r(2) ex s by simp
  then have "fst (finish_peers se ?s) = 200" "rs_Body resp = enc (snd (finish_peers se ?s))"
    using r(3) by (simp_all add: to_http_def)
  then have resp: "rs_Body resp = enc (PeersResp (peersEtag ?s) (store_listing ?s))"
    "marshal_error (se_codec (ca_server ca)) (PeersResp (peersEtag ?s) (store_listing ?s)) = None"
    using finish_peers_ok [of se ?s] se law(5-7) by auto
  have "list_all (peer_ok utf8) (store_listing ?s)"
    using assms(4) by (auto simp: list_all_iff store_listing_def)
  with law(8) resp obtain e where "dec_peers (ca_client ca) (rs_Body resp) = Inr (e, map wire_of_peer (store_listing ?s))"
    unfolding wire_law_def by metis
  with r(4,5) show ?thesis by auto
qed

subsection \<open>The entry of a node\<close>

text \<open>The registry as a map, and the entries that survive the wire.\<close>

definition registry_ok :: "(string \<Rightarrow> bool) \<Rightarrow> memstore \<Rightarrow> bool" where
  "registry_ok utf8 s \<longleftrightarrow> (\<forall>k p. map_of (peers s) k = Some p \<longrightarrow> peer_ok utf8 p)"

lemma registry_ok_list: "registry_wf s \<Longrightarrow> registry_ok utf8 s \<Longrightarrow> list_all (peer_ok utf8) (map snd (peers s))"
  by (auto simp: registry_ok_def registry_wf_def list_all_iff)

lemma registry_ok_update:
  "registry_ok utf8 s \<Longrightarrow> map_of (peers s') = (map_of (peers s))(k \<mapsto> q) \<Longrightarrow> peer_ok utf8 q \<Longrightarrow> registry_ok utf8 s'"
  by (auto simp: registry_ok_def)

lemma Register_entry:
  assumes "Register h now et ctx p s = (Inr ip, s')"
  obtains q where "map_of (peers s') = (map_of (peers s))(base64Encode (NodeKey p) \<mapsto> q)" "DiscoKey q = DiscoKey p"
    "Name q = Name p" "TunnelIP q = ip"
    "Endpoints q = Endpoints p \<or> (\<exists>q0. map_of (peers s) (base64Encode (NodeKey p)) = Some q0 \<and> Endpoints q = Endpoints q0)"
proof (cases rule: Register_cases [of h now et ctx p s])
  case (existing q)
  with assms show thesis
    by (intro that [of "q\<lparr>DiscoKey := DiscoKey p, Name := Name p, UpdatedAt := now\<rparr>"]) (auto simp: update_conv')
next
  case (fresh ip')
  with assms show thesis by (intro that [of "p\<lparr>TunnelIP := ip', UpdatedAt := now\<rparr>"]) (auto simp: update_conv')
qed (use assms in auto)

lemma SetEndpoints_entry:
  assumes "SetEndpoints h now et ctx k eps s = (Inr (), s')" and "map_of (peers s) (base64Encode k) = Some q"
  shows "map_of (peers s') = (map_of (peers s))(base64Encode k \<mapsto> q\<lparr>Endpoints := eps, UpdatedAt := now\<rparr>)"
  using assms by (auto simp: SetEndpoints_def Let_def update_conv' split: option.splits)

lemma Register_pool4:
  assumes "registry_wf s" and "pool s = Prefix (Addr4 b) n" and "fst (Register h now et ctx p s) = Inr ip"
  shows "\<exists>w. ip = Addr4 w"
proof -
  have in4: "\<exists>w. a = Addr4 w" if "prefix_Contains (pool s) a" for a
    using that assms(2) by (cases a) auto
  show ?thesis
  proof (cases rule: Register_cases [of h now et ctx p s])
    case (existing q)
    then show ?thesis using in4 registry_wfD [OF assms(1) existing(3)] assms(3) by auto
  next
    case (fresh ip')
    then show ?thesis using in4 allocateIPLocked_Inr assms(3) by auto
  qed (use assms(3) in auto)
qed

lemma distinct_store_listing: "registry_wf s \<Longrightarrow> distinct (store_listing s)"
proof -
  assume wf: "registry_wf s"
  have "inj_on snd (set (peers s))"
  proof (rule inj_onI)
    fix x y assume xy: "x \<in> set (peers s)" "y \<in> set (peers s)" "snd x = snd y"
    then have "map_of (peers s) (fst x) = Some (snd x)" "map_of (peers s) (fst y) = Some (snd y)"
      using wf unfolding registry_wf_def by (metis map_of_is_SomeI prod.collapse)+
    with registry_wfD [OF wf] xy(3) show "x = y" by (metis prod.expand)
  qed
  with wf show ?thesis by (simp add: store_listing_def distinct_map registry_wf_def)
qed

lemma singleton_list: "set xs = {x} \<Longrightarrow> distinct xs \<Longrightarrow> xs = [x]"
proof (cases xs)
  case (Cons y ys)
  assume "set xs = {x}" "distinct xs"
  with Cons have "y = x" "set ys \<subseteq> {x}" "x \<notin> set ys" by auto
  with Cons show ?thesis by (cases ys) auto
qed simp

lemma filter_listing:
  assumes "registry_wf s" and "map_of (peers s) (base64Encode k) = Some q" and "NodeKey q = k"
  shows "filter (\<lambda>p. NodeKey p = k) (store_listing s) = [q]"
proof -
  have "set (filter (\<lambda>p. NodeKey p = k) (store_listing s)) = {q}"
    using assms by (auto simp: set_store_listing [OF assms(1)])
  moreover have "distinct (filter (\<lambda>p. NodeKey p = k) (store_listing s))"
    using distinct_store_listing [OF assms(1)] by simp
  ultimately show ?thesis by (rule singleton_list)
qed

subsection \<open>The start of a daemon\<close>

lemma addr_from_slice_valid: "addr_from_slice bs = Some a \<Longrightarrow> addr_IsValid a \<and> addr_zone a = []"
  by (auto simp: addr_from_slice_def split: if_splits)

lemma local_endpoints_valid:
  "e \<in> set (local_endpoints addrs port) \<Longrightarrow>
     addr_IsValid (fst (re_Addr e)) \<and> addr_zone (fst (re_Addr e)) = [] \<and> re_Source e = ''local''"
proof -
  assume "e \<in> set (local_endpoints addrs port)"
  then obtain a where a: "(case if_To4 a of
      None \<Rightarrow> None
    | Some v4 \<Rightarrow>
        (if ip_IsLoopback (Some v4) \<or> \<not> ip_IsGlobalUnicast (Some v4) then None
         else map_option (\<lambda>ap. \<lparr>re_Addr = (ap, word_of_int port), re_Source = ''local''\<rparr>)
                (addr_from_slice v4))) = Some e"
    unfolding local_endpoints_def in_map_filter by blast
  then show ?thesis by (cases "if_To4 a") (auto dest: addr_from_slice_valid split: if_splits)
qed

lemma collected_ok:
  assumes "wire_law enc utf8 ce cd" and "\<And>pub. stun = Inr pub \<Longrightarrow> addr_IsValid (fst pub) \<and> addr_zone (fst pub) = []"
  shows "list_all (\<lambda>e. endpoint_ok utf8 (re_Addr e, re_Source e)) (fst (collectEndpoints addrs stun port))"
proof -
  have "ascii ''local''" "ascii ''stun''" "ascii []" by (simp_all add: ascii_def)
  with assms(1) have "utf8 ''local''" "utf8 ''stun''" "utf8 []" unfolding wire_law_def by blast+
  with assms(2) local_endpoints_valid show ?thesis
    by (fastforce simp: collectEndpoints_def Let_def list_all_iff endpoint_ok_def split: sum.split)
qed

text \<open>What a successful start has done at the coordinator: it has registered and, when posting did not
  fail, set the endpoints it collected.\<close>

lemma New_fields:
  "d_client (New cfg nk dk) = NewCoordClient (dc_Coordinator cfg) nk dk" "d_self (New cfg nk dk) = AddrZero"
  "dc_NodeName (d_cfg (New cfg nk dk)) = dc_NodeName cfg" "dc_STUNServers (d_cfg (New cfg nk dk)) = dc_STUNServers cfg"
  by (simp_all add: New_def)

lemma Run_start_calls:
  assumes "Run_start nl re (New cfg nk dk) k = (Inr (d, eps, posted), k')"
  obtains cidr etag port where
    "client_Register (NewCoordClient (dc_Coordinator cfg) nk dk) (re_register re) (dc_NodeName cfg) = Inr (cidr, etag)"
    "\<And>a n. parse_prefix cidr = Some (Prefix a n) \<Longrightarrow> d_self d = a"
    "eps = fst (collectEndpoints (re_ifaddrs re) (re_stun re (dc_STUNServers cfg)) port)"
    "posted = PostEndpoints (NewCoordClient (dc_Coordinator cfg) nk dk) (re_post re) eps"
  using assms
  by (cases "re_listen re (if dc_DiscoAddr (d_cfg (New cfg nk dk)) = [] then '':0'' else dc_DiscoAddr (d_cfg (New cfg nk dk)))")
    (auto simp: Run_start_def New_fields Let_def split: sum.splits prod.splits)

section \<open>A node becomes visible\<close>

text \<open>The discovery reports valid addresses without a zone, as an address made from the bytes of a STUN
  answer is.\<close>

definition stun_valid :: "run_env \<Rightarrow> bool" where
  "stun_valid re \<longleftrightarrow> (\<forall>servers pub. re_stun re servers = Inr pub \<longrightarrow>
     addr_IsValid (fst pub) \<and> addr_zone (fst pub) = [])"

lemma NewCoordClient_simps [simp]:
  "cl_nk (NewCoordClient base nk dk) = nk" "cl_dk (NewCoordClient base nk dk) = dk"
  by (simp_all add: NewCoordClient_def)

text \<open>The entry of a node after the two calls of its start: other nodes may have called between the two,
  as long as the entry is still the one that registration left.\<close>

lemma start_entry:
  assumes "store_reachable s0" and "pool s0 = Prefix (Addr4 b) n"
    and "length (dk_Pub dk) = 32" and "utf8 (dc_NodeName cfg)"
    and "c = NewCoordClient (dc_Coordinator cfg) nk dk"
    and "call_law enc utf8 c c1" and "call_law enc utf8 c c2"
    and "stun_valid re"
    and "re_register re = online enc c1 s0"
    and "s1 = after enc c1 (register_request c (ca_client c1) (dc_NodeName cfg)) s0"
    and "store_reachable t1"
    and "map_of (peers t1) (base64Encode (nk_Pub nk)) = map_of (peers s1) (base64Encode (nk_Pub nk))"
    and "re_post re = online enc c2 t1"
    and "Run_start nl re (New cfg nk dk) k = (Inr (d, eps, None), k')"
    and "s2 = after enc c2 (endpoints_request c (ca_client c2) eps) t1"
  shows "\<exists>q. map_of (peers s2) (base64Encode (nk_Pub nk)) = Some q \<and> peer_ok utf8 q \<and>
    NodeKey q = nk_Pub nk \<and> DiscoKey q = dk_Pub dk \<and> Name q = dc_NodeName cfg \<and> TunnelIP q = d_self d \<and>
    Endpoints q = coord_endpoints eps"
    and "map_of (peers s2) = (map_of (peers t1))(base64Encode (nk_Pub nk) := map_of (peers s2) (base64Encode (nk_Pub nk)))"
    and "store_reachable s2"
proof -
  let ?key = "base64Encode (nk_Pub nk)"
  have wf0: "registry_wf s0" and wft: "registry_wf t1"
    using store_reachable_inv assms(1,11) by (simp_all add: store_inv_def)
  obtain cidr etag port where run: "client_Register c (re_register re) (dc_NodeName cfg) = Inr (cidr, etag)"
    "\<And>a n. parse_prefix cidr = Some (Prefix a n) \<Longrightarrow> d_self d = a"
    "eps = fst (collectEndpoints (re_ifaddrs re) (re_stun re (dc_STUNServers cfg)) port)"
    "PostEndpoints c (re_post re) eps = None"
    by (rule Run_start_calls [OF assms(14), folded assms(5)]) (blast dest: sym)
  have dk: "length (dk_Pub (cl_dk c)) = 32" using assms(3,5) by simp
  have "\<exists>w. server_Register (ca_server c1) (own_entry c (dc_NodeName cfg)) s0 = (Inr (Addr4 w), s1) \<and>
      cidr = addr_String (Addr4 w) @ ''/24''"
    unfolding assms(10)
    by (rule Register_online [OF assms(6) dk assms(4) run(1) [unfolded assms(9)]])
      (erule Register_pool4 [OF wf0 assms(2)])
  then obtain w where w: "server_Register (ca_server c1) (own_entry c (dc_NodeName cfg)) s0 = (Inr (Addr4 w), s1)"
    "cidr = addr_String (Addr4 w) @ ''/24''"
    by blast
  have self: "d_self d = Addr4 w" using run(2) w(2) parse_prefix_String4 by metis
  have own: "NodeKey (own_entry c name) = nk_Pub nk" "DiscoKey (own_entry c name) = dk_Pub dk"
    "Name (own_entry c name) = name" for name
    by (simp_all add: own_entry_def assms(5))
  obtain q1 where "map_of (peers s1) = (map_of (peers s0))(?key \<mapsto> q1)" and q: "DiscoKey q1 = dk_Pub dk"
    "Name q1 = dc_NodeName cfg" "TunnelIP q1 = Addr4 w"
    by (rule Register_entry [OF w(1), unfolded own])
  with q have q1: "map_of (peers s1) ?key = Some q1" "DiscoKey q1 = dk_Pub dk" "Name q1 = dc_NodeName cfg"
    "TunnelIP q1 = Addr4 w"
    by simp_all
  have at: "map_of (peers t1) ?key = Some q1" using q1(1) assms(12) by simp
  note law2 = call_lawD(8) [OF assms(7)]
  have eps: "list_all (\<lambda>e. endpoint_ok utf8 (re_Addr e, re_Source e)) eps"
    unfolding run(3) using assms(8) unfolding stun_valid_def by (intro collected_ok [OF law2]) blast
  have set: "SetEndpoints (sha256 (se_crypto (ca_server c2))) (se_now (ca_server c2)) (se_etagNow (ca_server c2)) None
      (nk_Pub nk) (coord_endpoints eps) t1 = (Inr (), s2)"
    using PostEndpoints_online [OF assms(7) eps run(4) [unfolded assms(13)]] assms(5,15) by simp
  show "store_reachable s2" by (rule store_reachable.step [OF assms(11) store_step.set_endpoints [OF set]])
  let ?q2 = "q1\<lparr>Endpoints := coord_endpoints eps, UpdatedAt := se_now (ca_server c2)\<rparr>"
  have q2: "map_of (peers s2) = (map_of (peers t1))(?key \<mapsto> ?q2)" by (rule SetEndpoints_entry [OF set at])
  then show "map_of (peers s2) = (map_of (peers t1))(?key := map_of (peers s2) ?key)" by simp
  have "list_all (endpoint_ok utf8 \<circ> wire_endpoint) (coord_endpoints eps)"
    using eps by (simp add: coord_endpoints_def wire_endpoint_def list_all_iff)
  moreover have "utf8 []" using law2 by (simp add: wire_law_def ascii_def)
  ultimately have "peer_ok utf8 ?q2" using q1(2-4) assms(3,4) by (simp add: peer_ok_def)
  moreover have "NodeKey ?q2 = nk_Pub nk" using registry_wfD [OF wft at] by simp
  ultimately show "\<exists>q. map_of (peers s2) ?key = Some q \<and> peer_ok utf8 q \<and> NodeKey q = nk_Pub nk \<and>
      DiscoKey q = dk_Pub dk \<and> Name q = dc_NodeName cfg \<and> TunnelIP q = d_self d \<and> Endpoints q = coord_endpoints eps"
    using q1 q2 self by (intro exI [of _ ?q2]) simp
qed

section \<open>Calls that succeed\<close>

text \<open>The converse of the facts on the calls: when the store does its part and the reply can be
  written, the client gets it.\<close>

lemma Register_online_ok:
  assumes "call_law enc utf8 c ca" and "length (dk_Pub (cl_dk c)) = 32" and "utf8 name"
    and "register_request c (ca_client ca) name = Inr r"
    and "server_Register (ca_server ca) (own_entry c name) s = (Inr (Addr4 w), s1)"
    and "\<And>p. marshal_error (se_codec (ca_server ca)) p = None"
  shows "\<exists>etag. client_Register c (online enc ca s) name = Inr (addr_String (Addr4 w) @ ''/24'', etag)"
    and "after enc ca (register_request c (ca_client ca) name) s = s1"
proof -
  note law = call_lawD [OF assms(1)]
  note req = register_request_fields [OF law(1,9) assms(4)]
  have dec: "decode_RegisterReq (se_codec (ca_server ca)) (rq_Body r) =
      Inr \<lparr>rr_NodePubkey = nk_Pub (cl_nk c), rr_DiscoPubkey = dk_Pub (cl_dk c), rr_NodeName = name, rr_RequestedTunnelIP = []\<rparr>"
    using law(8) assms(2,3) unfolding req(3) wire_law_def by blast
  have len: "length (nk_Pub (cl_nk c)) = 32" using law(2) by (simp add: key_law_def)
  obtain etag where hr: "handleRegister (ca_server ca) r s = ((200, RegisterResp (addr_String (Addr4 w) @ ''/24'') etag), s1)"
    using handleRegister_entry [OF dec len law(5) assms(5)] assms(6)
    by (auto simp: writeJSON_def simp del: addr_String.simps)
  note ex = exchange_register [OF req(1,2), of enc ca s, unfolded hr]
  show "after enc ca (register_request c (ca_client ca) name) s = s1"
    by (simp add: after_def assms(4) ex)
  have "utf8 (addr_String (Addr4 w) @ ''/24'')"
    using law(8) addr4_cidr_ascii [of w] unfolding wire_law_def by blast
  then obtain e where "dec_register (ca_client ca) (enc (RegisterResp (addr_String (Addr4 w) @ ''/24'') etag)) =
      Inr (addr_String (Addr4 w) @ ''/24'', e)"
    using law(8) unfolding wire_law_def by blast
  then show "\<exists>etag. client_Register c (online enc ca s) name = Inr (addr_String (Addr4 w) @ ''/24'', etag)"
    using assms(4) ex
    by (simp add: client_Register_def register_request_def to_http_def del: addr_String.simps)
qed

lemma PostEndpoints_online_ok:
  assumes "call_law enc utf8 c ca" and "list_all (\<lambda>e. endpoint_ok utf8 (re_Addr e, re_Source e)) eps"
    and "endpoints_request c (ca_client ca) eps = Inr r"
    and "SetEndpoints (sha256 (se_crypto (ca_server ca))) (se_now (ca_server ca)) (se_etagNow (ca_server ca)) None
      (nk_Pub (cl_nk c)) (coord_endpoints eps) s = (Inr (), s1)"
    and "\<And>p. marshal_error (se_codec (ca_server ca)) p = None"
  shows "PostEndpoints c (online enc ca s) eps = None"
proof -
  note law = call_lawD [OF assms(1)]
  note req = signed_request_accepted [OF assms(1) assms(3) [unfolded endpoints_request_def], simplified]
  have "list_all (endpoint_ok utf8) (map (\<lambda>e. (re_Addr e, re_Source e)) eps)" using assms(2) by (simp add: list_all_iff)
  then have "decode_EndpointsReq (se_codec (ca_server ca)) (enc_endpoints (ca_client ca) (map (\<lambda>e. (re_Addr e, re_Source e)) eps)) =
      Inr (coord_endpoints eps)"
    using law(8) by (simp add: wire_law_def coord_endpoints_def)
  then have "fst (exchange enc ca s r) = Inr \<lparr>rs_Status = 200, rs_Body = enc (OkResp ''ok'')\<rparr>"
    using req law(5) assms(4,5)
    by (simp add: exchange_def ServeHTTP_def authed_def replied_def handleEndpoints_def writeJSON_def to_http_def status_defs)
  then show ?thesis
    using assms(3) by (simp add: PostEndpoints_def Let_def signedDo_online endpoints_request_def)
qed

lemma Peers_online_ok:
  assumes "call_law enc utf8 c ca" and "peers_request c (ca_client ca) since = Inr r" and "rq_Query r = []"
    and "list_all (peer_ok utf8) (map snd (peers s))" and "\<And>p. marshal_error (se_codec (ca_server ca)) p = None"
    and "query_safe since"
  shows "\<exists>listing etag. client_Peers c (online enc ca s) since = Inr (listing, etag)"
    and "after enc ca (peers_request c (ca_client ca) since) s = s"
proof -
  note law = call_lawD [OF assms(1)]
  note req = signed_request_accepted [OF assms(1) assms(2) [unfolded peers_request_def] client_route_calls(5) [OF assms(6)], simplified]
  have ex: "exchange enc ca s r = (Inr \<lparr>rs_Status = 200, rs_Body = enc (PeersResp (peersEtag s) (store_listing s))\<rparr>, s)"
    using req law(5) assms(3,5)
    by (simp add: exchange_def ServeHTTP_def authed_def is_GET_def handlePeers_def get_value_def finish_peers_def
        Peers_def Peers_in_def store_listing_def writeJSON_def to_http_def status_defs)
  have "list_all (peer_ok utf8) (store_listing s)" using assms(4) by (auto simp: list_all_iff store_listing_def)
  then obtain e where "dec_peers (ca_client ca) (enc (PeersResp (peersEtag s) (store_listing s))) = Inr (e, map wire_of_peer (store_listing s))"
    using law(8) assms(5) unfolding wire_law_def by metis
  then show "\<exists>listing etag. client_Peers c (online enc ca s) since = Inr (listing, etag)"
    using assms(2) ex by (simp add: client_Peers_def signedDo_online peers_request_def)
  show "after enc ca (peers_request c (ca_client ca) since) s = s" by (simp add: after_def assms(2) ex)
qed

section \<open>An announcement starts the punching\<close>

subsection \<open>The texts of a call-me-maybe\<close>

lemma fmt_int_ascii: "ascii (fmt_int i)"
proof -
  have "ascii (fmt_nat m)" for m using fmt_nat_digits [of m] digit_ascii by (auto simp: ascii_def list_all_iff)
  then show ?thesis by (simp add: fmt_int_def ascii_def)
qed

lemma addr4_ascii: "ascii (addr_String (Addr4 w))"
  using addr4_cidr_ascii [of w] by (simp del: addr_String.simps)

lemma ip_String4_ascii:
  assumes "ip_To4 ip = Some v4"
  shows "ascii (ip_String (Some v4))"
proof -
  have "length v4 = 4" using assms by (auto simp: ip_To4_def Let_def split: if_splits)
  then have "ip_String (Some v4) = addr_String (Addr4 (be_word v4))"
    by (auto simp: ip_String_def ip_To4_def ip_bytes_def Let_def simp del: addr_String.simps)
  then show ?thesis by (simp add: addr4_ascii del: addr_String.simps)
qed

lemma gather_ascii: "s \<in> set (gatherLocalAddrPorts fe) \<Longrightarrow> ascii s"
proof -
  assume "s \<in> set (gatherLocalAddrPorts fe)"
  then obtain a where a: "(case if_To4 a of
      None \<Rightarrow> None
    | Some v4 \<Rightarrow> (if ip_IsLoopback (Some v4) then None
                  else Some (ip_String (Some v4) @ '':'' @ fmt_int (fe_port fe)))) = Some s"
    unfolding gatherLocalAddrPorts_def by (auto simp: in_map_filter split: sum.splits)
  then obtain v4 where v4: "if_To4 a = Some v4" "s = ip_String (Some v4) @ '':'' @ fmt_int (fe_port fe)"
    by (cases "if_To4 a") (auto split: if_splits)
  have "ascii '':''" by (simp add: ascii_def)
  moreover have "ascii (ip_String (Some v4))"
    using v4(1) ip_String4_ascii by (auto simp: if_To4_def split: ifaddr.splits)
  ultimately show "ascii s" unfolding v4(2) ascii_simps using fmt_int_ascii by blast
qed

lemma callMeMaybe_ascii: "ascii_body (callMeMaybe_body fe)"
  using gather_ascii
  by (auto simp: ascii_body_def callMeMaybe_body_def empty_body_def list_all_iff MsgCallMeMaybe_def ascii_def)

subsection \<open>What the recipient's machine does with it\<close>

lemma handle_callMeMaybe:
  assumes "b_Type body = MsgCallMeMaybe" and "handle nl fe (evSignal body) p k = ((p', k'), effs)"
  shows "k' = k \<and> effs = [] \<and>
    re_Addr ` set (rp_Endpoints (fsm_peer p')) =
      re_Addr ` set (rp_Endpoints (fsm_peer p)) \<union> set (List.map_filter parse_addrport (b_Endpoints body)) \<and>
    (state p' = (if state p = stateUnknown \<and> rp_Endpoints (fsm_peer p') \<noteq> [] then statePunching else state p))"
proof -
  let ?a = "absorbEndpoints (b_Endpoints body) p"
  have p': "p' = onPeerUpdate fe ?a" "k' = k" "effs = []"
    using assms by (auto simp: onDiscoSignal_def onDiscoUDP_def msg_defs)
  have eps: "rp_Endpoints (fsm_peer p') = rp_Endpoints (fsm_peer ?a)"
    by (simp add: p' onPeerUpdate_def startPunching_def setState_def)
  have "re_Addr ` set (rp_Endpoints (fsm_peer ?a)) =
      re_Addr ` set (rp_Endpoints (fsm_peer p)) \<union> set (List.map_filter parse_addrport (b_Endpoints body))"
    unfolding absorbEndpoints_def by (simp add: absorb_loop_addrs)
  moreover have "state p' = (if state p = stateUnknown \<and> rp_Endpoints (fsm_peer p') \<noteq> [] then statePunching else state p)"
    unfolding eps by (simp add: p' onPeerUpdate_def startPunching_def setState_def)
  ultimately show ?thesis using p' eps by simp
qed

subsection \<open>The calls of the relay\<close>

lemma SendSignal_online:
  assumes "call_law enc utf8 c ca" and "length to = 32" and "SendSignal c (online enc ca s) to sealed = None"
  obtains r pr where "ServeHTTP (ca_server ca) r s = (pr, after enc ca (send_request c (ca_client ca) to sealed) s)"
    "rq_Method r = ''POST''" "rq_Path r = ''/v1/signal''"
    "VerifyRequest (se_crypto (ca_server ca)) (se_unix (ca_server ca)) r =
       Inr (nk_Pub (cl_nk c), enc_signal (ca_client ca) to sealed)"
    "decode_SignalReq (se_codec (ca_server ca)) (enc_signal (ca_client ca) to sealed) = Inr \<lparr>sr_To = to, sr_Sealed = sealed\<rparr>"
proof -
  note law = call_lawD [OF assms(1)]
  obtain r where r: "send_request c (ca_client ca) to sealed = Inr r"
    using assms(3) by (cases "send_request c (ca_client ca) to sealed")
      (simp_all add: SendSignal_def signedDo_online send_request_def)
  note req = signed_request_accepted [OF assms(1) r [unfolded send_request_def], simplified]
  have "decode_SignalReq (se_codec (ca_server ca)) (enc_signal (ca_client ca) to sealed) = Inr \<lparr>sr_To = to, sr_Sealed = sealed\<rparr>"
    using law(8) assms(2) unfolding wire_law_def by blast
  moreover have "ServeHTTP (ca_server ca) r s =
      (Some (Replied (fst (handleSignal (ca_server ca) r (nk_Pub (cl_nk c)) (enc_signal (ca_client ca) to sealed) s))),
       snd (handleSignal (ca_server ca) r (nk_Pub (cl_nk c)) (enc_signal (ca_client ca) to sealed) s))"
    using req by (simp add: ServeHTTP_def authed_def replied_def is_GET_def)
  ultimately show thesis using that req r by (simp add: after_def exchange_def)
qed

lemma PullSignals_online:
  assumes "call_law enc utf8 c ca" and "PullSignals c (online enc ca s) = Inr envs"
    and "\<And>r. rq_Method r = ''GET'' \<Longrightarrow> rq_Path r = ''/v1/signal'' \<Longrightarrow>
      VerifyRequest (se_crypto (ca_server ca)) (se_unix (ca_server ca)) r = Inr (nk_Pub (cl_nk c), []) \<Longrightarrow>
      ServeHTTP (ca_server ca) r s = (Some (Replied (writeJSON (se_codec (ca_server ca)) 200 (SignalsResp es))), s')"
  shows "envs = map Sealed es" and "after enc ca (pull_request c (ca_client ca)) s = s'"
proof -
  note law = call_lawD [OF assms(1)]
  from assms(2) obtain r resp es' where r: "pull_request c (ca_client ca) = Inr r"
    "fst (exchange enc ca s r) = Inr resp" "rs_Status resp = 200"
    "dec_signals (ca_client ca) (rs_Body resp) = Inr es'" "envs = map fst es'"
    by (auto simp: PullSignals_def signedDo_online pull_request_def bind_res_eq_Inr_iff split: if_splits)
  note req = signed_request_accepted [OF assms(1) r(1) [unfolded pull_request_def], simplified]
  let ?w = "writeJSON (se_codec (ca_server ca)) 200 (SignalsResp es)"
  have ex: "exchange enc ca s r = (Inr (to_http enc ?w), s')"
    by (simp add: exchange_def assms(3) [OF req(2,3,1)])
  then show "after enc ca (pull_request c (ca_client ca)) s = s'" by (simp add: after_def r(1))
  have "fst ?w = 200" "rs_Body resp = enc (snd ?w)" using r(2,3) ex by (auto simp: to_http_def)
  with writeJSON_ok [OF this(1)] r(4) law(8) have "es' = map (\<lambda>e. (Sealed e, Enqueue e)) es"
    unfolding wire_law_def by auto
  then show "envs = map Sealed es" using r(5) by (simp add: comp_def)
qed

lemma SendSignal_online_ok:
  assumes "call_law enc utf8 c ca" and "length to = 32" and "send_request c (ca_client ca) to sealed = Inr r"
    and "\<And>p. marshal_error (se_codec (ca_server ca)) p = None"
  shows "SendSignal c (online enc ca s) to sealed = None"
proof -
  note law = call_lawD [OF assms(1)]
  note req = signed_request_accepted [OF assms(1) assms(3) [unfolded send_request_def], simplified]
  have dec: "decode_SignalReq (se_codec (ca_server ca)) (enc_signal (ca_client ca) to sealed) = Inr \<lparr>sr_To = to, sr_Sealed = sealed\<rparr>"
    using law(8) assms(2) unfolding wire_law_def by blast
  have "fst (handleSignal (ca_server ca) r (nk_Pub (cl_nk c)) (enc_signal (ca_client ca) to sealed) s) = (200, OkResp ''queued'')"
    using law(5) assms(4) dec by (simp add: handleSignal_def EnqueueSignal_def writeJSON_def status_defs Let_def)
  then have "fst (exchange enc ca s r) = Inr \<lparr>rs_Status = 200, rs_Body = enc (OkResp ''queued'')\<rparr>"
    using req by (simp add: exchange_def ServeHTTP_def authed_def replied_def to_http_def is_GET_def)
  then show ?thesis using assms(3) by (simp add: SendSignal_def signedDo_online send_request_def)
qed

lemma PullSignals_online_ok:
  assumes "call_law enc utf8 c ca" and "pull_request c (ca_client ca) = Inr r"
    and "\<And>r. rq_Method r = ''GET'' \<Longrightarrow> rq_Path r = ''/v1/signal'' \<Longrightarrow>
      VerifyRequest (se_crypto (ca_server ca)) (se_unix (ca_server ca)) r = Inr (nk_Pub (cl_nk c), []) \<Longrightarrow>
      ServeHTTP (ca_server ca) r s = (Some (Replied (writeJSON (se_codec (ca_server ca)) 200 (SignalsResp es))), s')"
    and "\<And>p. marshal_error (se_codec (ca_server ca)) p = None"
  shows "\<exists>envs. PullSignals c (online enc ca s) = Inr envs"
proof -
  note law = call_lawD [OF assms(1)]
  note req = signed_request_accepted [OF assms(1) assms(2) [unfolded pull_request_def], simplified]
  have "exchange enc ca s r = (Inr \<lparr>rs_Status = 200, rs_Body = enc (SignalsResp es)\<rparr>, s')"
    using assms(4) by (simp add: exchange_def assms(3) [OF req(2,3,1)] to_http_def writeJSON_def)
  moreover have "dec_signals (ca_client ca) (enc (SignalsResp es)) = Inr (map (\<lambda>e. (Sealed e, Enqueue e)) es)"
    using law(8) assms(4) unfolding wire_law_def by blast
  ultimately show ?thesis using assms(2) by (simp add: PullSignals_def signedDo_online pull_request_def)
qed

lemma sendCallMeMaybe_Some:
  assumes "sendCallMeMaybe fe m = Some (to, sealed)" and "fe_build fe = BuildEnvelope bx cd (Inr nonce)"
  shows "to = rp_DiscoKey (fsm_peer m)"
    and "BuildEnvelope bx cd (Inr nonce) (pd_self (deps m)) to (callMeMaybe_body fe) = Inr sealed"
  using assms by (auto simp: sendCallMeMaybe_def split: sum.splits)

lemma signal_envelope_delivers:
  assumes "OpenEnvelope bx cd sealed (d_disco d) = Inr (sender, body)" and "d_peers d = Some ps"
    and "map_of ps sender = Some p" and "length (incoming p) < 32"
  shows "\<exists>ps'. d_peers (signal_envelope bx cd sealed d) = Some ps' \<and>
    map_of ps' = (map_of ps)(sender \<mapsto> p\<lparr>incoming := incoming p @ [evSignal body]\<rparr>)"
  using assms
  by (simp add: signal_envelope_def on_peer_def onSignal_def try_send_def incomingCap_def update_conv')

text \<open>What the server replies to the recipient's pull after a signal was sent, and what the
  recipient's client makes of it: other nodes may have called in between, as long as the
  recipient's queue is still the one that sending left.\<close>

lemma sent_is_pulled:
  assumes "call_law enc utf8 c c1" and "length to = 32" and "SendSignal c (online enc c1 s) to sealed = None"
    and "signals_of s to = []" and "s1 = after enc c1 (send_request c (ca_client c1) to sealed) s"
    and "signals_of t1 to = signals_of s1 to" and "discoKeyForNodeKey background (nk_Pub (cl_nk c')) t1 = Inr to"
    and "call_law enc utf8 c' c2" and "se_now (ca_server c2) - maxAge t1 < se_now (ca_server c1)"
    and "rq_Method r' = ''GET''" and "rq_Path r' = ''/v1/signal''"
    and "VerifyRequest (se_crypto (ca_server c2)) (se_unix (ca_server c2)) r' = Inr (nk_Pub (cl_nk c'), [])"
  shows "ServeHTTP (ca_server c2) r' t1 =
    (Some (Replied (writeJSON (se_codec (ca_server c2)) 200 (SignalsResp
       [\<lparr>From = replicate 32 0, Sealed = sealed, Enqueue = se_now (ca_server c1)\<rparr>]))),
     snd (PopSignals (se_now (ca_server c2)) background to t1))"
proof -
  obtain r pr where r: "ServeHTTP (ca_server c1) r s = (pr, s1)"
    "rq_Method r = ''POST''" "rq_Path r = ''/v1/signal''"
    "VerifyRequest (se_crypto (ca_server c1)) (se_unix (ca_server c1)) r = Inr (nk_Pub (cl_nk c), enc_signal (ca_client c1) to sealed)"
    "decode_SignalReq (se_codec (ca_server c1)) (enc_signal (ca_client c1) to sealed) = Inr \<lparr>sr_To = to, sr_Sealed = sealed\<rparr>"
    unfolding assms(5) by (rule SendSignal_online [OF assms(1-3)])
  have "signals_of t1 to = [\<lparr>From = replicate 32 0, Sealed = sealed, Enqueue = se_now (ca_server c1)\<rparr>]"
    unfolding assms(6) using signal_queued [OF r(2-5) call_lawD(5) [OF assms(1)] _ r(1)] assms(4) by simp
  then show ?thesis
    by (rule queued_is_served [OF assms(10-12) call_lawD(5) [OF assms(8)] assms(7)]) (simp add: assms(9))
qed

lemma relay_online:
  assumes "call_law enc utf8 c c1" and "length to = 32" and "SendSignal c (online enc c1 s) to sealed = None"
    and "signals_of s to = []" and "s1 = after enc c1 (send_request c (ca_client c1) to sealed) s"
    and "signals_of t1 to = signals_of s1 to" and "discoKeyForNodeKey background (nk_Pub (cl_nk c')) t1 = Inr to"
    and "call_law enc utf8 c' c2" and "se_now (ca_server c2) - maxAge t1 < se_now (ca_server c1)"
    and "PullSignals c' (online enc c2 t1) = Inr envs"
  shows "envs = [sealed]" and "signals_of (after enc c2 (pull_request c' (ca_client c2)) t1) to = []"
proof -
  note pulled = sent_is_pulled [OF assms(1-9)]
  show "envs = [sealed]"
    by (subst PullSignals_online(1) [OF assms(8,10)], rule pulled) simp_all
  have "after enc c2 (pull_request c' (ca_client c2)) t1 = snd (PopSignals (se_now (ca_server c2)) background to t1)"
    by (rule PullSignals_online(2) [OF assms(8,10)]) (rule pulled)
  then show "signals_of (after enc c2 (pull_request c' (ca_client c2)) t1) to = []" by simp
qed

end
