(* ===== verification/Demo_Wire.thy ===== *)
theory Demo_Wire
  imports Control_Plane
begin

text \<open>
  A concrete wire format for the witnesses of the control plane: texts of numbers and
  counted lists in the place of JSON, with decoders that read back what was written.
\<close>

section \<open>Writers and readers\<close>

definition reads_back :: "('a \<Rightarrow> byte list) \<Rightarrow> (byte list \<Rightarrow> 'a \<times> byte list) \<Rightarrow> bool" where
  "reads_back put get \<longleftrightarrow> (\<forall>x rest. get (put x @ rest) = (x, rest))"

definition put_nat :: "nat \<Rightarrow> byte list" where
  "put_nat n = str_bytes (fmt_nat n) @ [44]"

definition get_nat :: "byte list \<Rightarrow> nat \<times> byte list" where
  "get_nat bs = (digits_val (bytes_str (takeWhile (\<lambda>b. b \<noteq> 44) bs)), tl (dropWhile (\<lambda>b. b \<noteq> 44) bs))"

definition put_pair :: "('a \<Rightarrow> byte list) \<Rightarrow> ('b \<Rightarrow> byte list) \<Rightarrow> 'a \<times> 'b \<Rightarrow> byte list" where
  "put_pair p q x = p (fst x) @ q (snd x)"

definition get_pair ::
  "(byte list \<Rightarrow> 'a \<times> byte list) \<Rightarrow> (byte list \<Rightarrow> 'b \<times> byte list) \<Rightarrow> byte list \<Rightarrow> ('a \<times> 'b) \<times> byte list" where
  "get_pair f g bs = (case f bs of (x, r) \<Rightarrow> case g r of (y, r') \<Rightarrow> ((x, y), r'))"

primrec get_count :: "(byte list \<Rightarrow> 'a \<times> byte list) \<Rightarrow> nat \<Rightarrow> byte list \<Rightarrow> 'a list \<times> byte list" where
  "get_count g 0 bs = ([], bs)"
| "get_count g (Suc n) bs = (case g bs of (x, r) \<Rightarrow> case get_count g n r of (xs, r') \<Rightarrow> (x # xs, r'))"

definition put_list :: "('a \<Rightarrow> byte list) \<Rightarrow> 'a list \<Rightarrow> byte list" where
  "put_list p xs = put_nat (length xs) @ concat (map p xs)"

definition get_list :: "(byte list \<Rightarrow> 'a \<times> byte list) \<Rightarrow> byte list \<Rightarrow> 'a list \<times> byte list" where
  "get_list g bs = (case get_nat bs of (n, r) \<Rightarrow> get_count g n r)"

definition put_via :: "('b \<Rightarrow> 'a) \<Rightarrow> ('a \<Rightarrow> byte list) \<Rightarrow> 'b \<Rightarrow> byte list" where
  "put_via f p y = p (f y)"

definition get_via :: "('a \<Rightarrow> 'b) \<Rightarrow> (byte list \<Rightarrow> 'a \<times> byte list) \<Rightarrow> byte list \<Rightarrow> 'b \<times> byte list" where
  "get_via h g bs = apfst h (g bs)"

lemma bytes_str_str_bytes [simp]: "bytes_str (str_bytes s) = s"
  by (simp add: bytes_str_def str_bytes_def comp_def)

lemma str_bytes_bytes_str [simp]: "str_bytes (bytes_str bs) = bs"
  by (simp add: bytes_str_def str_bytes_def comp_def byte_of_char_def map_idI)

lemma comma_not_digit: "44 \<notin> set (str_bytes (fmt_nat n))"
proof -
  have "CHR '','' \<notin> set (fmt_nat n)" by (rule not_digit_not_in_fmt_nat) (simp add: is_digit_def)
  then have "byte_of_char (CHR '','') \<notin> set (str_bytes (fmt_nat n))" by simp
  then show ?thesis by (simp add: byte_of_char_def)
qed

lemma dropWhile_not_sep: "x \<notin> set xs \<Longrightarrow> dropWhile (\<lambda>c. c \<noteq> x) (xs @ x # ys) = x # ys"
  by (induction xs) auto

lemma nat_reads_back: "reads_back put_nat get_nat"
  using comma_not_digit by (simp add: reads_back_def put_nat_def get_nat_def dropWhile_not_sep)

lemma pair_reads_back: "reads_back p f \<Longrightarrow> reads_back q g \<Longrightarrow> reads_back (put_pair p q) (get_pair f g)"
  by (simp add: reads_back_def put_pair_def get_pair_def)

lemma count_reads_back: "reads_back p g \<Longrightarrow> get_count g (length xs) (concat (map p xs) @ rest) = (xs, rest)"
  by (induction xs) (simp_all add: reads_back_def)

lemma list_reads_back: "reads_back p g \<Longrightarrow> reads_back (put_list p) (get_list g)"
  using nat_reads_back count_reads_back [of p g]
  by (simp add: reads_back_def put_list_def get_list_def)

lemma via_reads_back: "reads_back p g \<Longrightarrow> (\<And>y. h (f y) = y) \<Longrightarrow> reads_back (put_via f p) (get_via h g)"
  by (simp add: reads_back_def put_via_def get_via_def)

section \<open>The types of the interface\<close>

definition put_bytes :: "byte list \<Rightarrow> byte list" where
  "put_bytes = put_list (put_via unat put_nat)"

definition get_bytes :: "byte list \<Rightarrow> byte list \<times> byte list" where
  "get_bytes = get_list (get_via of_nat get_nat)"

definition put_text :: "string \<Rightarrow> byte list" where
  "put_text = put_via str_bytes put_bytes"

definition get_text :: "byte list \<Rightarrow> string \<times> byte list" where
  "get_text = get_via bytes_str get_bytes"

definition put_int :: "int \<Rightarrow> byte list" where
  "put_int = put_via (\<lambda>i. (nat i, nat (- i))) (put_pair put_nat put_nat)"

definition get_int :: "byte list \<Rightarrow> int \<times> byte list" where
  "get_int = get_via (\<lambda>(a, b). int a - int b) (get_pair get_nat get_nat)"

fun addr_parts :: "addr \<Rightarrow> nat \<times> nat \<times> string" where
  "addr_parts AddrZero = (0, 0, [])"
| "addr_parts (Addr4 w) = (1, unat w, [])"
| "addr_parts (Addr6 w z) = (2, unat w, z)"

definition addr_of_parts :: "nat \<times> nat \<times> string \<Rightarrow> addr" where
  "addr_of_parts x =
     (case x of (t, n, z) \<Rightarrow>
        if t = 0 then AddrZero else if t = 1 then Addr4 (of_nat n) else Addr6 (of_nat n) z)"

definition put_addr :: "addr \<Rightarrow> byte list" where
  "put_addr = put_via addr_parts (put_pair put_nat (put_pair put_nat put_text))"

definition get_addr :: "byte list \<Rightarrow> addr \<times> byte list" where
  "get_addr = get_via addr_of_parts (get_pair get_nat (get_pair get_nat get_text))"

definition put_endpoint :: "addrport \<times> string \<Rightarrow> byte list" where
  "put_endpoint = put_pair (put_pair put_addr (put_via unat put_nat)) put_text"

definition get_endpoint :: "byte list \<Rightarrow> (addrport \<times> string) \<times> byte list" where
  "get_endpoint = get_pair (get_pair get_addr (get_via of_nat get_nat)) get_text"

definition peer_parts ::
  "peer \<Rightarrow> byte list \<times> byte list \<times> string \<times> addr \<times> (addrport \<times> string) list \<times> gotime" where
  "peer_parts p =
     (NodeKey p, DiscoKey p, Name p, TunnelIP p, map wire_endpoint (Endpoints p), UpdatedAt p)"

definition peer_of_parts ::
  "byte list \<times> byte list \<times> string \<times> addr \<times> (addrport \<times> string) list \<times> gotime \<Rightarrow> wire_peer" where
  "peer_of_parts x =
     (case x of (nk, dk, n, ip, eps, t) \<Rightarrow>
        \<lparr>wp_NodeKey = nk, wp_DiscoKey = dk, wp_Name = n, wp_TunnelIP = ip, wp_Endpoints = eps, wp_UpdatedAt = t\<rparr>)"

definition put_peer_parts :: "byte list \<times> byte list \<times> string \<times> addr \<times> (addrport \<times> string) list \<times> gotime \<Rightarrow> byte list" where
  "put_peer_parts = put_pair put_bytes (put_pair put_bytes (put_pair put_text (put_pair put_addr
     (put_pair (put_list put_endpoint) put_int))))"

definition get_peer_parts ::
  "byte list \<Rightarrow> (byte list \<times> byte list \<times> string \<times> addr \<times> (addrport \<times> string) list \<times> gotime) \<times> byte list" where
  "get_peer_parts = get_pair get_bytes (get_pair get_bytes (get_pair get_text (get_pair get_addr
     (get_pair (get_list get_endpoint) get_int))))"

lemma bytes_reads_back: "reads_back put_bytes get_bytes"
  unfolding put_bytes_def get_bytes_def by (intro list_reads_back via_reads_back nat_reads_back) simp

lemma text_reads_back: "reads_back put_text get_text"
  unfolding put_text_def get_text_def by (intro via_reads_back bytes_reads_back) simp

lemma int_reads_back: "reads_back put_int get_int"
  unfolding put_int_def get_int_def by (intro via_reads_back pair_reads_back nat_reads_back) simp

lemma addr_of_parts_parts [simp]: "addr_of_parts (addr_parts a) = a"
  by (cases a) (simp_all add: addr_of_parts_def)

lemma addr_reads_back: "reads_back put_addr get_addr"
  unfolding put_addr_def get_addr_def
  by (intro via_reads_back pair_reads_back nat_reads_back text_reads_back) simp

lemma endpoint_reads_back: "reads_back put_endpoint get_endpoint"
  unfolding put_endpoint_def get_endpoint_def
  by (intro pair_reads_back addr_reads_back text_reads_back via_reads_back nat_reads_back) simp

lemma peer_reads_back: "reads_back put_peer_parts get_peer_parts"
  unfolding put_peer_parts_def get_peer_parts_def
  by (intro pair_reads_back bytes_reads_back text_reads_back addr_reads_back list_reads_back endpoint_reads_back
      int_reads_back)

lemma peer_of_parts_parts [simp]: "peer_of_parts (peer_parts p) = wire_of_peer p"
  by (simp add: peer_of_parts_def peer_parts_def wire_of_peer_def)

section \<open>Bodies\<close>

definition demo_enc :: "payload \<Rightarrow> byte list" where
  "demo_enc pl =
     (case pl of
        RegisterResp cidr etag \<Rightarrow> put_pair put_text put_text (cidr, etag)
      | PeersResp etag ps \<Rightarrow> put_pair put_text (put_list (put_via peer_parts put_peer_parts)) (etag, ps)
      | SignalsResp envs \<Rightarrow> put_list (put_via (\<lambda>e. (Sealed e, Enqueue e)) (put_pair put_bytes put_int)) envs
      | _ \<Rightarrow> [])"

definition demo_wire_api :: api_codec where
  "demo_wire_api =
     \<lparr>decode_RegisterReq = (\<lambda>b. case b of
         Inl e \<Rightarrow> Inl e
       | Inr bs \<Rightarrow>
           (case fst (get_pair get_bytes (get_pair get_bytes get_text) bs) of (nk, dk, name) \<Rightarrow>
              Inr \<lparr>rr_NodePubkey = nk, rr_DiscoPubkey = dk, rr_NodeName = name, rr_RequestedTunnelIP = []\<rparr>)),
      decode_EndpointsReq = (\<lambda>bs. Inr (map (\<lambda>(a, src). \<lparr>ep_Addr = a, ep_Source = src\<rparr>) (fst (get_list get_endpoint bs)))),
      decode_SignalReq = (\<lambda>bs. case fst (get_pair get_bytes get_bytes bs) of (to, sealed) \<Rightarrow>
         Inr \<lparr>sr_To = to, sr_Sealed = sealed\<rparr>),
      marshal_error = (\<lambda>_. None)\<rparr>"

definition demo_wire_client :: client_env where
  "demo_wire_client = demo_ce
     \<lparr>enc_register := (\<lambda>nk dk name. put_pair put_bytes (put_pair put_bytes put_text) (nk, dk, name)),
      dec_register := (\<lambda>bs. Inr (fst (get_pair get_text get_text bs))),
      enc_endpoints := put_list put_endpoint,
      dec_peers := (\<lambda>bs. Inr (apsnd (map peer_of_parts) (fst (get_pair get_text (get_list get_peer_parts) bs)))),
      enc_signal := (\<lambda>to sealed. put_pair put_bytes put_bytes (to, sealed)),
      dec_signals := (\<lambda>bs. Inr (fst (get_list (get_pair get_bytes get_int) bs)))\<rparr>"

lemma reads_back_whole: "reads_back put get \<Longrightarrow> fst (get (put x)) = x"
  unfolding reads_back_def by (metis append_Nil2 fst_conv)

lemma put_list_via: "put_list (put_via f p) xs = put_list p (map f xs)"
  by (simp add: put_list_def put_via_def [abs_def] comp_def)

lemma demo_wire_law: "wire_law demo_enc (\<lambda>_. True) demo_wire_client demo_wire_api"
proof -
  note whole = reads_back_whole [OF pair_reads_back [OF bytes_reads_back pair_reads_back [OF bytes_reads_back text_reads_back]]]
    reads_back_whole [OF pair_reads_back [OF text_reads_back text_reads_back]]
    reads_back_whole [OF list_reads_back [OF endpoint_reads_back]]
    reads_back_whole [OF pair_reads_back [OF text_reads_back list_reads_back [OF peer_reads_back]]]
    reads_back_whole [OF pair_reads_back [OF bytes_reads_back bytes_reads_back]]
    reads_back_whole [OF list_reads_back [OF pair_reads_back [OF bytes_reads_back int_reads_back]]]
  have "put_pair put_text (put_list (put_via peer_parts put_peer_parts)) (etag, ps) =
      put_pair put_text (put_list put_peer_parts) (etag, map peer_parts ps)" for etag ps
    by (simp add: put_pair_def put_list_via)
  then show ?thesis
    unfolding wire_law_def
    by (simp add: demo_wire_client_def demo_wire_api_def demo_enc_def whole put_list_via comp_def)
qed

section \<open>Bodies of envelopes\<close>

definition body_parts :: "Body \<Rightarrow> string \<times> string \<times> string \<times> string \<times> string list" where
  "body_parts b = (b_Type b, b_Tx b, b_NodeKey b, b_Src b, b_Endpoints b)"

definition body_of_parts :: "string \<times> string \<times> string \<times> string \<times> string list \<Rightarrow> Body" where
  "body_of_parts x = (case x of (t, tx, nk, src, eps) \<Rightarrow>
     \<lparr>b_Type = t, b_Tx = tx, b_NodeKey = nk, b_Src = src, b_Endpoints = eps\<rparr>)"

definition put_body :: "Body \<Rightarrow> byte list" where
  "put_body = put_via body_parts
     (put_pair put_text (put_pair put_text (put_pair put_text (put_pair put_text (put_list put_text)))))"

definition get_body :: "byte list \<Rightarrow> Body \<times> byte list" where
  "get_body = get_via body_of_parts
     (get_pair get_text (get_pair get_text (get_pair get_text (get_pair get_text (get_list get_text)))))"

definition demo_body_codec :: body_codec where
  "demo_body_codec = \<lparr>Marshal = (\<lambda>b. Inr (put_body b)), Unmarshal = (\<lambda>bs. Inr (fst (get_body bs)))\<rparr>"

lemma body_reads_back: "reads_back put_body get_body"
  unfolding put_body_def get_body_def
  by (intro via_reads_back pair_reads_back text_reads_back list_reads_back)
    (simp add: body_parts_def body_of_parts_def)

lemma demo_body_codec_law: "codec_law demo_body_codec"
  using reads_back_whole [OF body_reads_back] by (simp add: codec_law_def demo_body_codec_def)

section \<open>Calls\<close>

text \<open>A call of one of the nodes, on the store \<open>s\<close> if it waits.\<close>

definition demo_node_key :: "byte \<Rightarrow> NodeKey" where
  "demo_node_key b = \<lparr>nk_Priv = replicate 64 b, nk_Pub = replicate 32 b\<rparr>"

definition demo_server :: srv_env where
  "demo_server = \<lparr>se_codec = demo_wire_api, se_crypto = demo_crypto, se_unix = 1700000030, se_now = 9, se_etagNow = 10, se_ctx = None\<rparr>"

definition demo_call :: "memstore \<Rightarrow> call_env" where
  "demo_call s = \<lparr>ca_server = demo_server, ca_client = demo_wire_client, ca_end = demo_server,
     ca_woken = False, ca_store = s\<rparr>"

lemma demo_call_simps [simp]:
  "ca_server (demo_call s) = demo_server" "ca_client (demo_call s) = demo_wire_client"
  "ce_new demo_wire_client = demo_new" "marshal_error (se_codec demo_server) p = None" "se_now demo_server = 9"
  "se_crypto demo_server = demo_crypto" "nk_Pub (demo_node_key b) = replicate 32 b"
  "se_etagNow demo_server = 10"
  by (simp_all add: demo_call_def demo_server_def demo_wire_client_def demo_ce_def demo_wire_api_def demo_node_key_def)

lemma demo_call_law: "call_law demo_enc (\<lambda>_. True) (NewCoordClient ''http://c:1'' (demo_node_key b) dk) (demo_call s)"
proof -
  have "new_request_law demo_wire_client" by (rule demo_new_law) simp
  moreover have "origin (cl_base (NewCoordClient ''http://c:1'' (demo_node_key b) dk))"
    using demo_client_laws(3) by (simp add: demo_client_def NewCoordClient_def)
  moreover have "key_law demo_crypto (demo_node_key b)"
    by (simp add: key_law_def demo_node_key_def demo_crypto_def numeral_eq_Suc)
  ultimately show ?thesis
    using demo_not_stale demo_wire_law
    by (simp add: call_law_def demo_call_def demo_server_def NewCoordClient_def demo_wire_client_def demo_ce_def)
qed

end
