(* ===== verification/Spec2Isabelle.thy ===== *)
theory Spec2Isabelle
  imports Coord_Spec Cli_Commands Daemon_Timing Demo_Wire
begin

text \<open>
  Verification library for gretun: a manager of GRE tunnels on Linux, a daemon that connects
  peers behind NAT with GRE-over-UDP tunnels, and the coordinator through which the daemons find
  each other.

  \<^bold>\<open>The program.\<close> The coordinator (\<open>internal/coord\<close>, \<open>cmd/gretun-coord\<close>) keeps a registry of nodes with a
  tunnel address for each and a bounded queue of sealed envelopes per recipient, behind an
  HTTP API whose requests are signed. The daemon (\<open>internal/daemon\<close>) registers, publishes the
  endpoints it finds by STUN (\<open>internal/disco/stun.go\<close>), polls the peer list and the signal queue
  with its client (\<open>internal/disco/client.go\<close>), and runs one state machine per peer that punches a
  hole with sealed UDP messages (\<open>internal/disco/envelope.go\<close>, \<open>keys.go\<close>) and then creates a GRE
  tunnel over FOU. Tunnels are made by \<open>internal/tunnel\<close> through the interface \<open>Netlinker\<close>; the
  command line (\<open>cmd/gretun/commands\<close>) offers the same operations and ICMP probes
  (\<open>internal/health\<close>).

  \<^bold>\<open>Theories.\<close>
  \<^item> \<open>Gretun_Prelude\<close>, \<open>Go_Encoding\<close>, \<open>Go_Net\<close>, \<open>Go_Errors\<close>: machine types, time, decimal, hexadecimal and
    base64 texts, \<open>net\<close> and \<open>net/netip\<close> addresses and prefixes with their parsers, Go error
    values. Definitions of Go's standard library as gretun uses it, with round-trip and
    injectivity lemmas.
  \<^item> \<open>Coord_Store\<close> (\<open>store.go\<close>): the record \<open>memstore\<close> and the operations \<open>Register\<close>, \<open>SetEndpoints\<close>, \<open>Peers\<close>,
    \<open>WaitForPeersChange\<close>, \<open>EnqueueSignal\<close>, \<open>PopSignals\<close>, \<open>WaitForSignal\<close>; every critical section is one
    step, channels are numbers and \<open>close\<close> is recorded. Invariant by rule induction: unique
    addresses in the pool, channels closed once, bounded queues; least-address allocation;
    no lost wake-ups; order-independent listings; bursts.
  \<^item> \<open>Coord_Spec\<close>: the abstract directory and mailboxes, and the refinement of it by the store.
  \<^item> \<open>Coord_Auth\<close> (\<open>auth.go\<close>): request signatures, with the 64-bit arithmetic of the freshness check.
  \<^item> \<open>Coord_Server\<close> (\<open>server.go\<close>): routes and handlers; a long poll is a value naming the channel it
    waits for, continued by \<open>finish_peers\<close> and \<open>finish_signal\<close>. The key lookup is proved in the
    locale \<open>peer_directory\<close>, interpreted on the store. A handler's own calls of the store are not
    interleaved with other requests, the store's properties hold for every interleaving.
  \<^item> \<open>Disco_Envelope\<close> (\<open>keys.go\<close>, \<open>envelope.go\<close>): key files, sealing, the wire format.
  \<^item> \<open>Disco_Client\<close> (\<open>client.go\<close>, \<open>hash.go\<close>): signed calls; they are what the server accepts, for the
    client's routes under a base URL without a path.
  \<^item> \<open>Disco_Stun\<close> (\<open>stun.go\<close>): the discovery of the public endpoint.
  \<^item> \<open>Tunnel_Errors\<close> (\<open>errors.go\<close>, \<open>errtranslate.go\<close>), \<open>Tunnel_Validate\<close> (\<open>validate.go\<close>, \<open>types.go\<close>): classification
    and translation of errors; exact acceptance conditions of the validators.
  \<^item> \<open>Tunnel_Netlink\<close> (\<open>netlink.go\<close>, the mock of the tests): the interface as a record of operations
    and the locales \<open>netlink_laws\<close>, \<open>netlink_fou_laws\<close>, \<open>netlink_cleanup\<close> with what the callers rely on,
    interpreted on the in-memory implementation; \<open>DefaultNetlinker\<close> over a handle, with the locale
    \<open>kernel_handle\<close> from which the laws of the interface follow. That removals do not fail is a
    law of its own, \<open>netlink_cleanup\<close>, and named in every property that needs it.
  \<^item> \<open>Tunnel_Gre\<close> (\<open>gre.go\<close>, \<open>list.go\<close>): creation with roll-back, deletion, addresses, status and
    listing, for every implementation that satisfies the laws.
  \<^item> \<open>Daemon_Peer\<close> (\<open>peer.go\<close>): the machine of a peer as a record, one function per branch of its
    loop, and a step relation that interleaves the loop with the callers of \<open>update\<close>, \<open>onUDP\<close> and
    \<open>onSignal\<close>; the two locked writes by which a machine starts punching are two steps.
  \<^item> \<open>Daemon_Run\<close>, \<open>Daemon_Loops\<close> (\<open>daemon.go\<close>): start and end of \<open>Run\<close>, dispatch, reconciliation with
    the peer list and shutdown as steps with an invariant, the loops over the outcomes of
    their rounds, for the poll loop with what the rest of the daemon does between two of them,
    and what ends a running daemon.
  \<^item> \<open>Daemon_Metrics\<close> (\<open>metrics.go\<close>, \<open>metricsUpdateLoop\<close>): the collectors, their registration over the
    locale \<open>registry\<close>, the gauge of peer states and what the punching histogram measures.
  \<^item> \<open>Daemon_Timing\<close> (\<open>run\<close> in \<open>peer.go\<close>): the driver with its two tickers; timed runs are runs of the
    untimed machine, and bound how long it punches and trusts a silent path.
  \<^item> \<open>Health_Probe\<close> (\<open>probe.go\<close>): the ICMP checksum on 32-bit words against RFC 1071 in unbounded
    arithmetic, probes, series, and the bounded pool as a transition system with a measure.
  \<^item> \<open>Cli_Flags\<close>, \<open>Cli_Commands\<close> (\<open>cmd/\<close>): the flags each command declares and reads, the hooks, the
    function behind each command, the exit status for an error, and the main function of the
    coordinator. How the command library finds a command and calls its hook is not modelled.
  \<^item> \<open>Control_Plane\<close>: the client and the server together, one HTTP exchange per call over the store.
    What both rely on from JSON is \<open>wire_law\<close>, and a call under it with clocks in step is
    \<open>call_law\<close>; the lemmas take each call of the client to the operation of the store it performs.
    \<open>Demo_Wire\<close> is a concrete wire format that satisfies the laws.
  \<^item> This theory: a node that starts becomes visible in the other nodes' peer lists and gets a
    machine there, and an announcement goes from the machine of one daemon through the
    coordinator to the machine of the other and makes it punch, with calls of other nodes in
    between.

  \<^bold>\<open>Conventions.\<close> A Go \<open>error\<close> result is \<open>goerror option\<close>, a value with an error is \<open>goerror + 'a\<close>; a
  panic is \<open>None\<close>. A context is the value of its \<open>Err()\<close> where the code looks at it. Clock
  readings, random bytes, sockets, the file system, JSON, Ed25519, SHA-256, X25519, NaCl box,
  the STUN and ICMP message libraries and netlink are arguments; what is assumed of them is a
  named law (\<open>box_law\<close>, \<open>codec_law\<close>, \<open>key_env_law\<close>, \<open>key_law\<close>, \<open>new_request_law\<close>, \<open>wire_law\<close>, \<open>parsed\<close> for the
  flag library, the netlink locales), and
  every property with such an assumption has a witness at a concrete instance. Slices are
  values, so sharing of their arrays is not visible. A Go map is an association list or a
  function; where the order of iteration could matter it is an argument.

  \<^bold>\<open>Bounds and termination.\<close> No fuel is used. The loops of \<open>allocateIPLocked\<close>, \<open>icmpChecksum\<close> and
  \<open>ProbeMultiple\<close> are functions with termination proofs (the addresses left, the sum, the probes
  left). Loops that run until something outside happens take the list of those happenings and
  have a result for "still running". The checksum is exact up to 131074 bytes, where the
  32-bit sum would overflow; a probe has 20. The freshness check is analysed for clocks below
  2 to the 62.

  \<^bold>\<open>Not modelled.\<close> The libraries behind the arguments: flag parsing and help texts of the commands,
  HTTP servers, Prometheus, netlink sockets, JSON texts. Logging, and the sharing of slices
  noted above. Timers are events that may happen at any time, except in \<open>Daemon_Timing\<close>. The
  delivery of operating-system signals is the end of a context.
\<close>

section \<open>Timeouts\<close>

text \<open>A long poll ends, also when nothing happens, five seconds before the client gives up and ten
  seconds before the server would stop writing.\<close>

lemma long_poll_fits:
  "longPollTimeout + 5 * second \<le> cl_timeout (NewCoordClient base nk dk)"
  "longPollTimeout + 10 * second \<le> hs_WriteTimeout (coord_http_server f)"
  by (simp_all add: longPollTimeout_def NewCoordClient_def coord_http_server_def)

section \<open>A node becomes visible\<close>

text \<open>C5: A daemon that has started is visible to every other node. When its start, through the
  coordinator, succeeds and its endpoints are posted, then the peer list that another node gets
  afterwards, whether its call came later or was waiting in a long poll, has exactly one entry
  for its node key, with its disco key, its name, the endpoints it collected and the tunnel
  address it gave itself; and the other daemon, reconciling with that list, runs a machine for
  it. Any calls of other nodes may come between the registration and the posting, and between
  the posting and the list, as long as they leave this node's entry as it is. The pool is an
  IPv4 prefix; the node's name is valid UTF-8, and so are the texts of the other entries, whose
  endpoints are valid addresses; the discovery reports a valid address without a zone; the
  coordinator's URL has no path, and the etag of the poll is one that needs no escaping; the
  clocks are within the allowed skew.\<close>

theorem start_makes_visible:
  assumes "store_reachable s0" and "pool s0 = Prefix (Addr4 b) n"
    and "length (dk_Pub dk) = 32" and "utf8 (dc_NodeName cfg)"
    and "c = NewCoordClient (dc_Coordinator cfg) nk dk"
    and "call_law enc utf8 c c1" and "call_law enc utf8 c c2"
    and "stun_valid re"
    and "re_register re = online enc c1 s0"
    and "s1 = after enc c1 (register_request c (ca_client c1) (dc_NodeName cfg)) s0"
    and "store_reachable t1"
    and "map_of (peers t1) (base64Encode (nk_Pub nk)) = map_of (peers s1) (base64Encode (nk_Pub nk))"
    and "re_post re = online enc c2 t1"
    and "Run_start nl re (New cfg nk dk) k = (Inr (d, eps, None), k')"
    and "s2 = after enc c2 (endpoints_request c (ca_client c2) eps) t1"
    and "store_reachable t2"
    and "map_of (peers t2) (base64Encode (nk_Pub nk)) = map_of (peers s2) (base64Encode (nk_Pub nk))"
    and "registry_ok utf8 t2"
    and "call_law enc utf8 cb c3" and "query_safe since"
    and "client_Peers cb (online enc c3 sb) since = Inr (listing, etag)"
    and "after enc c3 (peers_request cb (ca_client c3) since) sb = t2"
    and "daemon_reachable other" and "d_peers other = Some ps" and "dk_Pub (d_disco other) \<noteq> dk_Pub dk"
  shows "(\<exists>rp. filter (\<lambda>q. rp_NodeKey q = nk_Pub nk) listing = [rp] \<and> rp_DiscoKey rp = dk_Pub dk \<and>
      rp_Name rp = dc_NodeName cfg \<and> rp_TunnelIP rp = d_self d \<and> rp_Endpoints rp = eps) \<and>
    (\<exists>other' ps'. reconcilePeers listing other = Some other' \<and> d_peers other' = Some ps' \<and>
      dk_Pub dk \<in> fst ` set ps')"
proof -
  have wf: "registry_wf t2" using store_reachable_inv [OF assms(16)] by (simp add: store_inv_def)
  obtain q where "map_of (peers s2) (base64Encode (nk_Pub nk)) = Some q" and q:
    "NodeKey q = nk_Pub nk" "DiscoKey q = dk_Pub dk" "Name q = dc_NodeName cfg" "TunnelIP q = d_self d"
    "Endpoints q = coord_endpoints eps"
    using start_entry(1) [OF assms(1-15)] by blast
  then have at: "map_of (peers t2) (base64Encode (nk_Pub nk)) = Some q" using assms(17) by simp
  let ?w = "remote_of_wire \<circ> wire_of_peer"
  have listing: "listing = map ?w (store_listing t2)"
    using Peers_online [OF assms(19,21,20)] assms(22) registry_ok_list [OF wf assms(18)] by simp
  have "filter (\<lambda>p. rp_NodeKey p = nk_Pub nk) listing = map ?w (filter (\<lambda>p. NodeKey p = nk_Pub nk) (store_listing t2))"
    unfolding listing filter_map by (simp add: comp_def remote_of_wire_def wire_of_peer_def)
  then have one: "filter (\<lambda>p. rp_NodeKey p = nk_Pub nk) listing = [?w q]"
    using filter_listing [OF wf at q(1)] by simp
  have w: "rp_DiscoKey (?w q) = dk_Pub dk" "rp_Name (?w q) = dc_NodeName cfg" "rp_TunnelIP (?w q) = d_self d"
    "rp_Endpoints (?w q) = eps"
    using q(2-5) by (simp_all add: remote_of_wire_def wire_of_peer_def coord_endpoints_def wire_endpoint_def comp_def map_idI)
  have "?w q \<in> set listing" using one by (metis filter_eq_ConsD in_set_conv_decomp)
  then have "dk_Pub dk \<in> rp_DiscoKey ` set listing - {dk_Pub (d_disco other)}"
    using w(1) assms(25) by force
  then have "\<exists>other' ps'. reconcilePeers listing other = Some other' \<and> d_peers other' = Some ps' \<and> dk_Pub dk \<in> fst ` set ps'"
    using reconcile_alive [OF assms(23,24), of listing] by metis
  with one w show ?thesis by blast
qed

text \<open>The nodes of the witness: the second node of the store \<open>demo_one\<close> starts, a signal of somebody else
  comes between its registration and its posting, and the first node fetches the list.\<close>

definition demo_starter :: CoordClient where
  "demo_starter = NewCoordClient (dc_Coordinator demo_dcfg) (demo_node_key 5) (demo_key 1)"

definition demo_registered :: memstore where
  "demo_registered = after demo_enc (demo_call demo_one) (register_request demo_starter demo_wire_client ''a'') demo_one"

definition demo_between :: memstore where
  "demo_between = snd (EnqueueSignal background (replicate 32 101) demo_env demo_registered)"

definition demo_start_env :: run_env where
  "demo_start_env = \<lparr>re_listen = (\<lambda>_. Inr 4000), re_ifaddrs = [], re_stun = (\<lambda>_. Inr demo_from),
     re_register = online demo_enc (demo_call demo_one) demo_one,
     re_post = online demo_enc (demo_call demo_one) demo_between\<rparr>"

definition demo_other :: Daemon where
  "demo_other = (New demo_dcfg (demo_node_key 1) (demo_key 100))
     \<lparr>d_self := Addr4 0x0A000001, d_metrics := False, d_fouOwned := True\<rparr>"

lemma demo_starter_law: "call_law demo_enc (\<lambda>_. True) demo_starter (demo_call s)"
  by (simp add: demo_starter_def demo_dcfg_def demo_call_law)

lemma demo_one_registry_ok: "registry_ok (\<lambda>_. True) demo_one"
  by (simp add: registry_ok_def demo_one_eq peer_ok_def demo_peer_def)

lemma demo_start_registers:
  "\<exists>etag. client_Register demo_starter (online demo_enc (demo_call demo_one) demo_one) ''a'' =
     Inr (addr_String (Addr4 0x0A000002) @ ''/24'', etag)"
  "server_Register demo_server (own_entry demo_starter ''a'') demo_one = (Inr (Addr4 0x0A000002), demo_registered)"
proof -
  have "allocateIPLocked demo_one = Inr (Addr4 0x0A000002)"
    by (simp add: demo_one_eq allocateIPLocked_def demo_pool_def pool_base_def alloc_loop.simps del: addr_String.simps)
  then obtain s1 where s1: "server_Register demo_server (own_entry demo_starter ''a'') demo_one = (Inr (Addr4 0x0A000002), s1)"
    by (simp add: Register_def Let_def demo_one_eq [THEN arg_cong, of peers] own_entry_def demo_starter_def)
  obtain r where r: "register_request demo_starter demo_wire_client ''a'' = Inr r"
    by (simp add: register_request_def demo_new_def)
  have len: "length (dk_Pub (cl_dk demo_starter)) = 32" by (simp add: demo_starter_def demo_key_def)
  note ok = Register_online_ok [where ca = "demo_call demo_one", OF demo_starter_law len TrueI,
      unfolded demo_call_simps(1,2), OF r s1 demo_call_simps(4)]
  show "\<exists>etag. client_Register demo_starter (online demo_enc (demo_call demo_one) demo_one) ''a'' =
     Inr (addr_String (Addr4 0x0A000002) @ ''/24'', etag)"
    using ok(1) by (simp del: addr_String.simps)
  show "server_Register demo_server (own_entry demo_starter ''a'') demo_one = (Inr (Addr4 0x0A000002), demo_registered)"
    using ok(2) s1 by (simp add: demo_registered_def)
qed

lemma demo_between_facts:
  "store_reachable demo_between" "peers demo_between = peers demo_registered"
  "\<exists>q. map_of (peers demo_registered) = (map_of (peers demo_one))(base64Encode (replicate 32 5) \<mapsto> q)"
proof -
  have "store_reachable demo_registered"
    by (rule store_reachable.step [OF demo_reachable(2) store_step.register [OF demo_start_registers(2)]])
  then show "store_reachable demo_between"
    unfolding demo_between_def by (rule store_reachable.step [OF _ store_step.enqueue]) (rule surjective_pairing)
  show "peers demo_between = peers demo_registered" by (simp add: demo_between_def)
  have "NodeKey (own_entry demo_starter ''a'') = replicate 32 5" by (simp add: own_entry_def demo_starter_def)
  then show "\<exists>q. map_of (peers demo_registered) = (map_of (peers demo_one))(base64Encode (replicate 32 5) \<mapsto> q)"
    using Register_entry [OF demo_start_registers(2)] by metis
qed

lemma demo_start_posts:
  "\<exists>s2. SetEndpoints (sha256 demo_crypto) 9 10 None (replicate 32 5) (coord_endpoints eps) demo_between = (Inr (), s2)"
  using demo_between_facts(3) by (auto simp: SetEndpoints_def demo_between_facts(2) Let_def)

lemma demo_start_runs:
  "\<exists>d eps k'. Run_start (demo_nl no_errs) demo_start_env (New demo_dcfg (demo_node_key 5) (demo_key 1)) newMockNetlinker =
     (Inr (d, eps, None), k') \<and> d_self d = Addr4 0x0A000002 \<and> eps = [\<lparr>re_Addr = demo_from, re_Source = ''stun''\<rparr>]"
proof -
  let ?eps = "[\<lparr>re_Addr = demo_from, re_Source = ''stun''\<rparr>]"
  have eps: "fst (collectEndpoints [] (Inr demo_from) 4000) = ?eps" by code_simp
  have fou: "fst (EnsureFOU (demo_nl no_errs) (dc_FOUPort demo_dcfg) EncapFOU newMockNetlinker) = Inr True" by code_simp
  have cfg: "dc_DiscoAddr demo_dcfg = []" "dc_NodeName demo_dcfg = ''a''" "metrics_server (demo_dcfg\<lparr>dc_Iface := i\<rparr>) = None" for i
    by (simp_all add: demo_dcfg_def metrics_server_def)
  have new: "d_client (New demo_dcfg (demo_node_key 5) (demo_key 1)) = demo_starter"
    "d_cfg (New demo_dcfg (demo_node_key 5) (demo_key 1)) = demo_dcfg\<lparr>dc_Iface := ''gretun%d''\<rparr>"
    by (simp_all add: New_def demo_starter_def demo_dcfg_def)
  obtain r where r: "endpoints_request demo_starter demo_wire_client ?eps = Inr r"
    by (simp add: endpoints_request_def signed_request_def demo_new_def Let_def split: prod.split)
  obtain s2 where s2: "SetEndpoints (sha256 demo_crypto) 9 10 None (nk_Pub (cl_nk demo_starter)) (coord_endpoints ?eps) demo_between = (Inr (), s2)"
    using demo_start_posts [of ?eps] by (auto simp: demo_starter_def)
  have posted: "PostEndpoints demo_starter (online demo_enc (demo_call demo_one) demo_between) ?eps = None"
    by (rule PostEndpoints_online_ok [where ca = "demo_call demo_one", OF demo_starter_law,
          unfolded demo_call_simps(1,2,5,6,8), OF _ r s2 demo_call_simps(4)]) (simp add: endpoint_ok_def demo_from_def)
  obtain etag where reg: "client_Register demo_starter (online demo_enc (demo_call demo_one) demo_one) ''a'' =
      Inr (addr_String (Addr4 0x0A000002) @ ''/24'', etag)"
    using demo_start_registers(1) by blast
  have pre: "parse_prefix (addr_String (Addr4 0x0A000002) @ ''/24'') = Some (Prefix (Addr4 0x0A000002) 24)" by code_simp
  show ?thesis
    using fou by (cases "EnsureFOU (demo_nl no_errs) (dc_FOUPort demo_dcfg) EncapFOU newMockNetlinker")
      (simp add: Run_start_def Let_def demo_start_env_def cfg new reg pre eps posted del: addr_String.simps)
qed

theorem start_makes_visible_witness:
  "\<exists>listing etag rp other'. client_Peers (d_client demo_other) (online demo_enc (demo_call demo_one)
       (after demo_enc (demo_call demo_one) (endpoints_request demo_starter demo_wire_client
          [\<lparr>re_Addr = demo_from, re_Source = ''stun''\<rparr>]) demo_between)) [] = Inr (listing, etag) \<and>
     filter (\<lambda>q. rp_NodeKey q = replicate 32 5) listing = [rp] \<and> rp_DiscoKey rp = dk_Pub (demo_key 1) \<and>
     rp_TunnelIP rp = Addr4 0x0A000002 \<and> rp_Endpoints rp = [\<lparr>re_Addr = demo_from, re_Source = ''stun''\<rparr>] \<and>
     reconcilePeers listing demo_other = Some other'"
proof -
  let ?eps = "[\<lparr>re_Addr = demo_from, re_Source = ''stun''\<rparr>]" and ?ca = "demo_call demo_one"
    and ?key = "base64Encode (replicate 32 5)"
  let ?s2 = "after demo_enc ?ca (endpoints_request demo_starter demo_wire_client ?eps) demo_between"
  obtain d k' where run: "Run_start (demo_nl no_errs) demo_start_env (New demo_dcfg (demo_node_key 5) (demo_key 1)) newMockNetlinker =
      (Inr (d, ?eps, None), k')" "d_self d = Addr4 0x0A000002"
    using demo_start_runs by blast
  have pool: "pool demo_one = Prefix (Addr4 0x0A000000) 30" by (simp add: demo_one_eq demo_pool_def)
  have stun: "stun_valid demo_start_env" by (simp add: stun_valid_def demo_start_env_def demo_from_def)
  have len: "length (dk_Pub (demo_key 1)) = 32" by (simp add: demo_key_def)
  have name: "dc_NodeName demo_dcfg = ''a''" by (simp add: demo_dcfg_def)
  have env: "re_register demo_start_env = online demo_enc ?ca demo_one"
    "demo_registered = after demo_enc ?ca (register_request demo_starter (ca_client ?ca) (dc_NodeName demo_dcfg)) demo_one"
    "re_post demo_start_env = online demo_enc ?ca demo_between"
    "?s2 = after demo_enc ?ca (endpoints_request demo_starter (ca_client ?ca) ?eps) demo_between"
    "map_of (peers demo_between) (base64Encode (nk_Pub (demo_node_key 5))) =
      map_of (peers demo_registered) (base64Encode (nk_Pub (demo_node_key 5)))"
    by (simp_all add: demo_start_env_def demo_registered_def name demo_between_facts(2))
  note start = demo_reachable(2) pool len TrueI demo_starter_def demo_starter_law demo_starter_law
    stun env(1,2) demo_between_facts(1) env(5,3) run(1) env(4)
  note entry = start_entry [OF start]
  have other: "daemon_reachable demo_other" "d_peers demo_other = Some []" "dk_Pub (d_disco demo_other) \<noteq> dk_Pub (demo_key 1)"
    "d_client demo_other = NewCoordClient ''http://c:1'' (demo_node_key 1) (demo_key 100)"
    unfolding demo_other_def
    by (rule daemon_reachable.start) (simp_all add: demo_dcfg_def New_def demo_key_def)
  have law: "call_law demo_enc (\<lambda>_. True) (d_client demo_other) ?ca" unfolding other(4) by (rule demo_call_law)
  obtain r where r: "peers_request (d_client demo_other) demo_wire_client [] = Inr r" "rq_Query r = []"
    by (simp add: peers_request_def signed_request_def demo_new_def with_auth_def Let_def split: prod.split)
  obtain q where q: "map_of (peers ?s2) = (map_of (peers demo_one))(?key \<mapsto> q)" "peer_ok (\<lambda>_. True) q"
    using entry(1,2) demo_between_facts(2,3) by auto
  have ok: "registry_ok (\<lambda>_. True) ?s2" by (rule registry_ok_update [OF demo_one_registry_ok q])
  have wf: "registry_wf ?s2" using store_reachable_inv [OF entry(3)] by (simp add: store_inv_def)
  have safe: "query_safe []" by (simp add: query_safe_def)
  note fetch = Peers_online_ok [where ca = ?ca, OF law _ r(2), unfolded demo_call_simps(1,2), OF r(1)
      registry_ok_list [OF wf ok] demo_call_simps(4) safe]
  obtain listing etag where listing: "client_Peers (d_client demo_other) (online demo_enc ?ca ?s2) [] = Inr (listing, etag)"
    using fetch(1) by blast
  have later: "after demo_enc ?ca (peers_request (d_client demo_other) (ca_client ?ca) []) ?s2 = ?s2"
    using fetch(2) by simp
  from start_makes_visible [OF start entry(3) refl ok law safe listing later other(1-3)] run(2) listing
  show ?thesis by auto
qed

section \<open>An announcement from machine to machine\<close>

text \<open>C4: An announcement makes the other node punch. The call-me-maybe that the machine of one node
  seals for a peer and sends to the coordinator is all that the peer's pull gets when it arrives
  less than 30 seconds later, and is not delivered again; the peer's daemon, on processing the
  reply, appends exactly that message to the inbox of its machine for the sender and changes no
  other machine; and when the driver of a machine takes it, the machine knows all addresses of
  the message that parse besides those it knew, and is punching afterwards if it was in the
  unknown state and now knows an endpoint; otherwise its state stays. The peer's queue was empty
  when the message was sent, and although other nodes may call in between, nobody else posts to
  the peer or pulls its queue before the pull, and the peer is then still registered with the
  disco key the message was sealed for; the daemon runs a machine for the sender, whose inbox
  has room. The coordinator's URL has no path and the clocks are within the allowed skew.\<close>

theorem announcement_starts_punching:
  assumes "box_law bx pub_of" and "codec_law cd" and "length nonce = 24"
    and "fe_build fe = BuildEnvelope bx cd (Inr nonce)" and "keypair pub_of (pd_self (deps m))"
    and "sendCallMeMaybe fe m = Some (to, sealed)"
    and "keypair pub_of (d_disco d)" and "to = dk_Pub (d_disco d)"
    and "call_law enc utf8 c c1" and "SendSignal c (online enc c1 s) to sealed = None" and "signals_of s to = []"
    and "s1 = after enc c1 (send_request c (ca_client c1) to sealed) s"
    and "signals_of t1 to = signals_of s1 to"
    and "discoKeyForNodeKey background (nk_Pub (cl_nk (d_client d))) t1 = Inr to"
    and "call_law enc utf8 (d_client d) c2" and "se_now (ca_server c2) - maxAge t1 < se_now (ca_server c1)"
    and "PullSignals (d_client d) (online enc c2 t1) = Inr envs"
    and "d_peers d = Some ps" and "map_of ps (dk_Pub (pd_self (deps m))) = Some p" and "length (incoming p) < 32"
    and "handle nl fe' (evSignal (callMeMaybe_body fe)) q k = ((q', k'), effs)"
  shows "envs = [sealed] \<and> signals_of (after enc c2 (pull_request (d_client d) (ca_client c2)) t1) to = [] \<and>
    (\<exists>ps'. d_peers (signalPull_batch bx cd envs d) = Some ps' \<and>
       map_of ps' = (map_of ps)(dk_Pub (pd_self (deps m)) \<mapsto>
         p\<lparr>incoming := incoming p @ [evSignal (callMeMaybe_body fe)]\<rparr>)) \<and>
    re_Addr ` set (rp_Endpoints (fsm_peer q')) = re_Addr ` set (rp_Endpoints (fsm_peer q)) \<union>
      set (List.map_filter parse_addrport (gatherLocalAddrPorts fe)) \<and>
    state q' = (if state q = stateUnknown \<and> rp_Endpoints (fsm_peer q') \<noteq> [] then statePunching else state q)"
proof -
  let ?body = "callMeMaybe_body fe" and ?from = "dk_Pub (pd_self (deps m))"
  have len: "length to = 32" using assms(7) unfolding assms(8) keypair_def by blast
  note relay = relay_online [OF assms(9) len assms(10-17)]
  have "OpenEnvelope bx cd sealed (d_disco d) = Inr (?from, ?body)"
    using sendCallMeMaybe_Some(2) [OF assms(6,4)] unfolding assms(8)
    by (rule OpenEnvelope_Build [OF assms(1,2,5,7,3) _ callMeMaybe_ascii])
  then have machines: "\<exists>ps'. d_peers (signalPull_batch bx cd envs d) = Some ps' \<and>
      map_of ps' = (map_of ps)(?from \<mapsto> p\<lparr>incoming := incoming p @ [evSignal ?body]\<rparr>)"
    using signal_envelope_delivers [OF _ assms(18-20)] by (simp add: relay(1) signalPull_batch_def)
  have body: "b_Type ?body = MsgCallMeMaybe" "b_Endpoints ?body = gatherLocalAddrPorts fe"
    by (simp_all add: callMeMaybe_body_def)
  note h = handle_callMeMaybe [OF body(1) assms(21), unfolded body(2)]
  show ?thesis
    by (intro conjI relay machines h [THEN conjunct2, THEN conjunct2, THEN conjunct1]
        h [THEN conjunct2, THEN conjunct2, THEN conjunct2])
qed

text \<open>Two nodes for the witness: the owner of the disco key \<open>demo_key 100\<close> is registered in the store
  \<open>demo_one\<close>, and its daemon runs a machine for the node with \<open>demo_key 1\<close>, which in turn runs a
  machine for it.\<close>

definition demo_caller_env :: fsm_env where
  "demo_caller_env = (demo_fe 0)\<lparr>fe_build := BuildEnvelope demo_box demo_body_codec (Inr (replicate 24 0))\<rparr>"

definition demo_caller :: peerFSM where
  "demo_caller = newPeerFSM demo_deps (demo_remote\<lparr>rp_DiscoKey := dk_Pub (demo_key 100)\<rparr>)"

definition demo_callee :: Daemon where
  "demo_callee = (New demo_dcfg (demo_node_key 1) (demo_key 100))
     \<lparr>d_peers := Some [(dk_Pub (demo_key 1), newPeerFSM demo_deps demo_remote)]\<rparr>"

lemma demo_callee_simps:
  "d_disco demo_callee = demo_key 100"
  "d_client demo_callee = NewCoordClient ''http://c:1'' (demo_node_key 1) (demo_key 100)"
  "cl_nk (d_client demo_callee) = demo_node_key 1"
  "d_peers demo_callee = Some [(dk_Pub (demo_key 1), newPeerFSM demo_deps demo_remote)]"
  by (simp_all add: demo_callee_def New_def demo_dcfg_def NewCoordClient_def)

lemma demo_caller_builds:
  "\<exists>sealed. sendCallMeMaybe demo_caller_env demo_caller = Some (dk_Pub (demo_key 100), sealed)"
  by (simp add: sendCallMeMaybe_def demo_caller_env_def demo_caller_def newPeerFSM_def BuildEnvelope_def
      demo_body_codec_def Seal_def)

lemma demo_callee_law: "call_law demo_enc (\<lambda>_. True) (d_client demo_callee) (demo_call s)"
  unfolding demo_callee_simps by (rule demo_call_law)

text \<open>Between the sending and the pull somebody posts to another node.\<close>

definition demo_sent :: "byte list \<Rightarrow> memstore" where
  "demo_sent sealed = after demo_enc (demo_call demo_one)
     (send_request demo_starter demo_wire_client (dk_Pub (demo_key 100)) sealed) demo_one"

definition demo_later :: "byte list \<Rightarrow> memstore" where
  "demo_later sealed = snd (EnqueueSignal background (replicate 32 7) demo_env (demo_sent sealed))"

lemma demo_mailbox:
  "signals_of demo_one k = []" "maxAge demo_one > 0"
  "discoKeyForNodeKey background (nk_Pub (cl_nk (d_client demo_callee))) demo_one = Inr (dk_Pub (demo_key 100))"
  by (simp_all add: demo_one_eq demo_empty_def NewMemStore_def signals_of_def time_defs demo_callee_simps
      discoKeyForNodeKey_find store_listing_def demo_key_def)

lemma demo_relayed:
  "SendSignal demo_starter (online demo_enc (demo_call demo_one) demo_one) (dk_Pub (demo_key 100)) sealed = None"
proof -
  obtain r where "send_request demo_starter demo_wire_client (dk_Pub (demo_key 100)) sealed = Inr r"
    by (simp add: send_request_def signed_request_def demo_new_def Let_def split: prod.split)
  moreover have "length (dk_Pub (demo_key 100)) = 32" by (simp add: demo_key_def)
  ultimately show ?thesis using SendSignal_online_ok [OF demo_starter_law] by fastforce
qed

lemma demo_sent_frame: "peers (demo_sent sealed) = peers demo_one" "maxAge (demo_sent sealed) = maxAge demo_one"
proof -
  have len: "length (dk_Pub (demo_key 100)) = 32" by (simp add: demo_key_def)
  obtain r pr where r: "ServeHTTP demo_server r demo_one = (pr, demo_sent sealed)"
    "rq_Method r = ''POST''" "rq_Path r = ''/v1/signal''"
    "VerifyRequest demo_crypto (se_unix demo_server) r =
       Inr (nk_Pub (cl_nk demo_starter), enc_signal demo_wire_client (dk_Pub (demo_key 100)) sealed)"
    "decode_SignalReq (se_codec demo_server) (enc_signal demo_wire_client (dk_Pub (demo_key 100)) sealed) =
       Inr \<lparr>sr_To = dk_Pub (demo_key 100), sr_Sealed = sealed\<rparr>"
    unfolding demo_sent_def
    by (rule SendSignal_online [OF demo_starter_law len demo_relayed, unfolded demo_call_simps(1,2,6)])
  have "se_ctx demo_server = None" by (simp add: demo_server_def)
  then have "demo_sent sealed = snd (EnqueueSignal background (dk_Pub (demo_key 100))
      \<lparr>From = replicate 32 0, Sealed = sealed, Enqueue = 9\<rparr> demo_one)"
    using r(1-4) handleSignal_ok [OF r(5)]
    by (auto simp: ServeHTTP_def Let_def authed_def replied_def is_GET_def)
  then show "peers (demo_sent sealed) = peers demo_one" "maxAge (demo_sent sealed) = maxAge demo_one" by simp_all
qed

lemma demo_later_facts:
  "signals_of (demo_later sealed) (dk_Pub (demo_key 100)) = signals_of (demo_sent sealed) (dk_Pub (demo_key 100))"
  "discoKeyForNodeKey background (nk_Pub (cl_nk (d_client demo_callee))) (demo_later sealed) = Inr (dk_Pub (demo_key 100))"
  "maxAge (demo_later sealed) > 0"
proof -
  have "dk_Pub (demo_key 100) \<noteq> replicate 32 7" by (simp add: demo_key_def)
  then show "signals_of (demo_later sealed) (dk_Pub (demo_key 100)) = signals_of (demo_sent sealed) (dk_Pub (demo_key 100))"
    by (simp add: demo_later_def)
  show "discoKeyForNodeKey background (nk_Pub (cl_nk (d_client demo_callee))) (demo_later sealed) = Inr (dk_Pub (demo_key 100))"
    using demo_mailbox(3) by (simp add: discoKeyForNodeKey_find store_listing_def demo_later_def demo_sent_frame)
  show "maxAge (demo_later sealed) > 0" using demo_mailbox(2) by (simp add: demo_later_def demo_sent_frame)
qed

lemma demo_pulled: "\<exists>envs. PullSignals (d_client demo_callee) (online demo_enc (demo_call demo_one) (demo_later sealed)) = Inr envs"
proof -
  let ?to = "dk_Pub (demo_key 100)" and ?ca = "demo_call demo_one"
  have len: "length ?to = 32" by (simp add: demo_key_def)
  have age: "se_now (ca_server ?ca) - maxAge (demo_later sealed) < se_now (ca_server ?ca)"
    using demo_later_facts(3) [of sealed] by simp
  have s1: "demo_sent sealed = after demo_enc ?ca (send_request demo_starter (ca_client ?ca) ?to sealed) demo_one"
    by (simp add: demo_sent_def)
  obtain r where r: "pull_request (d_client demo_callee) (ca_client ?ca) = Inr r"
    by (simp add: pull_request_def signed_request_def demo_new_def Let_def split: prod.split)
  show ?thesis
    by (rule PullSignals_online_ok [OF demo_callee_law r sent_is_pulled [OF demo_starter_law len demo_relayed
          demo_mailbox(1) s1 demo_later_facts(1,2) demo_callee_law age]]) simp_all
qed

theorem announcement_starts_punching_witness:
  "\<exists>sealed ps'. sendCallMeMaybe demo_caller_env demo_caller = Some (dk_Pub (demo_key 100), sealed) \<and>
     PullSignals (d_client demo_callee) (online demo_enc (demo_call demo_one) (demo_later sealed)) = Inr [sealed] \<and>
     d_peers (signalPull_batch demo_box demo_body_codec [sealed] demo_callee) = Some ps' \<and>
     map_option incoming (map_of ps' (dk_Pub (demo_key 1))) = Some [evSignal (callMeMaybe_body demo_caller_env)]"
proof -
  let ?to = "dk_Pub (demo_key 100)" and ?p = "newPeerFSM demo_deps demo_remote" and ?ca = "demo_call demo_one"
  obtain sealed where sealed: "sendCallMeMaybe demo_caller_env demo_caller = Some (?to, sealed)"
    using demo_caller_builds by blast
  have build: "fe_build demo_caller_env = BuildEnvelope demo_box demo_body_codec (Inr (replicate 24 0))"
    "pd_self (deps demo_caller) = demo_key 1"
    by (simp_all add: demo_caller_env_def demo_caller_def newPeerFSM_def demo_deps_def)
  have len: "length (replicate 24 (0 :: byte)) = 24" "incoming ?p = []" by (simp_all add: newPeerFSM_def)
  have age: "se_now (ca_server ?ca) - maxAge (demo_later sealed) < se_now (ca_server ?ca)"
    using demo_later_facts(3) [of sealed] by simp
  have s1: "demo_sent sealed = after demo_enc ?ca (send_request demo_starter (ca_client ?ca) ?to sealed) demo_one"
    by (simp add: demo_sent_def)
  obtain envs where envs: "PullSignals (d_client demo_callee) (online demo_enc ?ca (demo_later sealed)) = Inr envs"
    using demo_pulled by blast
  obtain q' k' effs where h: "handle (demo_nl no_errs) (demo_fe 0) (evSignal (callMeMaybe_body demo_caller_env)) ?p newMockNetlinker = ((q', k'), effs)"
    by (metis prod.exhaust)
  have machine: "map_of [(dk_Pub (demo_key 1), ?p)] (dk_Pub (pd_self (deps demo_caller))) = Some ?p"
    "length (incoming ?p) < 32" "?to = dk_Pub (d_disco demo_callee)" "keypair demo_pub (pd_self (deps demo_caller))"
    "keypair demo_pub (d_disco demo_callee)"
    by (simp_all add: build len demo_callee_simps demo_keypair)
  have result: "envs = [sealed] \<and> (\<exists>ps'. d_peers (signalPull_batch demo_box demo_body_codec envs demo_callee) = Some ps' \<and>
      map_of ps' = (map_of [(dk_Pub (demo_key 1), ?p)])(dk_Pub (pd_self (deps demo_caller)) \<mapsto>
        ?p\<lparr>incoming := incoming ?p @ [evSignal (callMeMaybe_body demo_caller_env)]\<rparr>))"
    using announcement_starts_punching [OF demo_box_law demo_body_codec_law len(1) build(1) machine(4) sealed machine(5,3)
      demo_starter_law demo_relayed demo_mailbox(1) s1 demo_later_facts(1,2) demo_callee_law age envs
      demo_callee_simps(4) machine(1,2) h] by blast
  then obtain ps' where "envs = [sealed]" "d_peers (signalPull_batch demo_box demo_body_codec [sealed] demo_callee) = Some ps'"
    "map_of ps' (dk_Pub (demo_key 1)) = Some (?p\<lparr>incoming := incoming ?p @ [evSignal (callMeMaybe_body demo_caller_env)]\<rparr>)"
    unfolding build(2) by auto
  with sealed envs len(2) show ?thesis by (intro exI [of _ sealed] exI [of _ ps']) simp
qed

end
